theory Spec2Isabelle
  imports Main "HOL-Library.Word" "HOL-Library.Signed_Division"
begin

section \<open>Data model of the SwiftStorage controller\<close>

text \<open>
  The embedding follows \<^verbatim>\<open>controllers/swiftstorage_controller.go\<close>. Go's \<^verbatim>\<open>int32\<close> and
  \<^verbatim>\<open>int64\<close> are words read through \<open>sint\<close>; a \<^verbatim>\<open>map[string]string\<close> is an association
  list; a pointer that may be nil is an \<open>option\<close>.
\<close>

type_synonym int32 = "32 word"
type_synonym int64 = "64 word"
type_synonym labels = "(string \<times> string) list"

text \<open>\<^verbatim>\<open>time.Duration\<close> counts nanoseconds.\<close>

type_synonym Duration = int

definition Second :: Duration where
  "Second = 1000000000"

subsection \<open>Kubernetes core types, as far as the generators fill them\<close>

datatype PullPolicy = PullAlways | PullNever | PullIfNotPresent

datatype Protocol = ProtocolTCP | ProtocolUDP | ProtocolSCTP

datatype IntOrString = IntVal int32 | StrVal string

text \<open>\<^verbatim>\<open>intstr.FromInt\<close> on a value that came from an \<^verbatim>\<open>int32\<close>: no truncation can occur.\<close>

definition FromInt32 :: "int32 \<Rightarrow> IntOrString" where
  "FromInt32 p = IntVal p"

text \<open>
  \<^verbatim>\<open>corev1.SecurityContext\<close> is produced by \<^verbatim>\<open>swift.GetSecurityContext()\<close> and only passed
  on; the fields listed are the pointer fields of the Kubernetes type that such a context
  commonly sets.
\<close>

record SecurityContext =
  sc_RunAsUser :: "int64 option"
  sc_RunAsGroup :: "int64 option"
  sc_RunAsNonRoot :: "bool option"
  sc_AllowPrivilegeEscalation :: "bool option"

datatype VolumeSource =
    PersistentVolumeClaimSource string
  | ConfigMapSource string "int32 option"
  | SecretSource string
  | EmptyDirSource string

record Volume =
  vol_Name :: string
  vol_VolumeSource :: VolumeSource

record VolumeMount =
  vm_Name :: string
  vm_MountPath :: string
  vm_ReadOnly :: bool

record ContainerPort =
  cp_ContainerPort :: int32
  cp_Name :: string

record Container =
  ctr_Name :: string
  ctr_Image :: string
  ctr_ImagePullPolicy :: PullPolicy
  ctr_SecurityContext :: "SecurityContext option"
  ctr_Ports :: "ContainerPort list"
  ctr_VolumeMounts :: "VolumeMount list"
  ctr_Command :: "string list"

text \<open>\<^verbatim>\<open>metav1.TypeMeta\<close> and \<^verbatim>\<open>metav1.ObjectMeta\<close>, embedded in every API object.\<close>

record ObjectMeta =
  Kind :: string
  Name :: string
  Namespace :: string
  Labels :: labels
  DeletionTimestamp :: "nat option"

record ServicePort =
  sp_Name :: string
  sp_Port :: int32
  sp_Protocol :: Protocol

record ServiceSpec =
  svc_Selector :: labels
  svc_Ports :: "ServicePort list"
  svc_ClusterIP :: string

record Service = ObjectMeta +
  svc_Spec :: ServiceSpec

record NetworkPolicyPort =
  npp_Protocol :: "Protocol option"
  npp_Port :: "IntOrString option"

record NetworkPolicyPeer =
  peer_PodSelector :: "labels option"

record NetworkPolicyIngressRule =
  rule_Ports :: "NetworkPolicyPort list"
  rule_From :: "NetworkPolicyPeer list"

record NetworkPolicySpec =
  np_PodSelector :: labels
  np_Ingress :: "NetworkPolicyIngressRule list"

record NetworkPolicy = ObjectMeta +
  np_Spec :: NetworkPolicySpec

subsection \<open>The SwiftStorage resource\<close>

text \<open>
  The fields of \<^verbatim>\<open>SwiftStorageSpec\<close> are the ones the controller reads; their types are
  those of the custom resource definition (\<^verbatim>\<open>replicas\<close> has format \<^verbatim>\<open>int32\<close>).
\<close>

record SwiftStorageSpec =
  Replicas :: int32
  ContainerImageAccount :: string
  ContainerImageContainer :: string
  ContainerImageObject :: string
  ContainerImageProxy :: string
  ContainerImageMemcached :: string
  SwiftConfSecret :: string
  StorageClass :: string
  StorageRequest :: string

subsection \<open>Constants of the packages that are not part of the controller file\<close>

text \<open>
  The controller reads its port table, names and label sets from the package
  \<^verbatim>\<open>pkg/swift\<close> and from \<^verbatim>\<open>api/v1beta1\<close>. They are parameters of every generator below.
\<close>

record swift_consts =
  AccountServerPort :: int32
  ContainerServerPort :: int32
  ObjectServerPort :: int32
  RsyncPort :: int32
  MemcachedPort :: int32
  ClaimName :: string
  ServiceAccount :: string
  RunAsUser :: int64
  GetLabelsStorage :: labels
  GetLabelsProxy :: labels
  GetSecurityContext :: SecurityContext
  RingConfigMapName :: string
  DeviceConfigMapName :: string
  SwiftStorageReadyCondition :: string


subsection \<open>Quantities, storage claims and the workload\<close>

text \<open>
  \<^verbatim>\<open>resource.Quantity\<close> is kept by what \<^verbatim>\<open>AsInt64\<close> can observe of it: either the amount is
  an \<^verbatim>\<open>int64\<close> at scale 0, or the fast conversion is impossible (a fractional or too large
  amount) and \<^verbatim>\<open>AsInt64\<close> answers \<^verbatim>\<open>(0, false)\<close>. The zero value \<^verbatim>\<open>Quantity{}\<close>, which a Go
  map yields for a missing key, is the amount 0.
\<close>

datatype Quantity = QuantityInt64 int64 | QuantityInexact

definition AsInt64 :: "Quantity \<Rightarrow> int64 \<times> bool" where
  "AsInt64 q = (case q of QuantityInt64 v \<Rightarrow> (v, True) | QuantityInexact \<Rightarrow> (0, False))"

type_synonym ResourceList = "(string \<times> Quantity) list"

definition resource_index :: "ResourceList \<Rightarrow> string \<Rightarrow> Quantity" where
  "resource_index m k = (case map_of m k of None \<Rightarrow> QuantityInt64 0 | Some q \<Rightarrow> q)"

datatype PersistentVolumeAccessMode = ReadWriteOnce | ReadOnlyMany | ReadWriteMany

record PersistentVolumeClaimSpec =
  pvc_StorageClassName :: "string option"
  pvc_AccessModes :: "PersistentVolumeAccessMode list"
  pvc_Requests :: ResourceList

record PersistentVolumeClaimStatus =
  pvc_Capacity :: ResourceList

record PersistentVolumeClaim = ObjectMeta +
  pvc_Spec :: PersistentVolumeClaimSpec
  pvc_Status :: PersistentVolumeClaimStatus

record Sysctl =
  sysctl_Name :: string
  sysctl_Value :: string

datatype PodFSGroupChangePolicy = FSGroupChangeOnRootMismatch | FSGroupChangeAlways

datatype SeccompProfileType =
  SeccompProfileTypeUnconfined | SeccompProfileTypeRuntimeDefault | SeccompProfileTypeLocalhost

record PodSecurityContext =
  psc_FSGroup :: "int64 option"
  psc_FSGroupChangePolicy :: "PodFSGroupChangePolicy option"
  psc_Sysctls :: "Sysctl list"
  psc_RunAsNonRoot :: "bool option"
  psc_SeccompProfile :: "SeccompProfileType option"

record PodSpec =
  pod_ServiceAccountName :: string
  pod_SecurityContext :: "PodSecurityContext option"
  pod_Volumes :: "Volume list"
  pod_InitContainers :: "Container list"
  pod_Containers :: "Container list"

record PodTemplateSpec =
  tmpl_Labels :: labels
  tmpl_Spec :: PodSpec

record StatefulSetSpec =
  ss_ServiceName :: string
  ss_Selector :: "labels option"
  ss_Replicas :: "int32 option"
  ss_Template :: PodTemplateSpec
  ss_VolumeClaimTemplates :: "PersistentVolumeClaim list"

record StatefulSetStatus =
  ss_ReadyReplicas :: int32

record StatefulSet = ObjectMeta +
  ss_Spec :: StatefulSetSpec
  ss_Status :: StatefulSetStatus

subsection \<open>Configuration bundle templates\<close>

datatype TemplateType =
  TemplateTypeScripts | TemplateTypeConfig | TemplateTypeCustom | TemplateTypeNone

record Template =
  tpl_Name :: string
  tpl_Namespace :: string
  tpl_Type :: TemplateType
  tpl_InstanceType :: string
  tpl_Labels :: labels
  tpl_ConfigOptions :: "(string \<times> string) list"
  tpl_AdditionalTemplate :: "(string \<times> string) list"
  tpl_CustomData :: "(string \<times> string) list"


subsection \<open>Conditions\<close>

text \<open>
  Modelled from the spec: the condition tracker (the \<^verbatim>\<open>condition\<close> package that the
  controller imports) is not among the sources. The spec describes it as an ordered
  collection of named status entries (type, status true/false/unknown, reason, message,
  severity, transition time), unique by type, that supports marking an entry unknown or
  true. The transition time comes from the wall clock and is read by no function of the
  controller; it is left out of the entry. The properties proved below read a collection
  only through the set of its types and the statuses of its entries, never through the
  order of the list, so they hold as well of a tracker that sorts its entries.
\<close>

datatype ConditionStatus = ConditionTrue | ConditionFalse | ConditionUnknown

datatype ConditionSeverity = SeverityError | SeverityWarning | SeverityInfo | SeverityNone

record Condition =
  cond_Type :: string
  cond_Status :: ConditionStatus
  cond_Severity :: ConditionSeverity
  cond_Reason :: string
  cond_Message :: string

type_synonym Conditions = "Condition list"

text \<open>Names and texts that the \<^verbatim>\<open>condition\<close> package fixes.\<close>

record condition_consts =
  ReadyCondition :: string
  InitReason :: string
  ReadyReason :: string
  ReadyInitMessage :: string
  ReadyMessage :: string

definition UnknownCondition :: "string \<Rightarrow> string \<Rightarrow> string \<Rightarrow> Condition" where
  "UnknownCondition t reason message =
     \<lparr>cond_Type = t, cond_Status = ConditionUnknown, cond_Severity = SeverityNone,
      cond_Reason = reason, cond_Message = message\<rparr>"

definition TrueCondition :: "condition_consts \<Rightarrow> string \<Rightarrow> string \<Rightarrow> Condition" where
  "TrueCondition K t message =
     \<lparr>cond_Type = t, cond_Status = ConditionTrue, cond_Severity = SeverityNone,
      cond_Reason = ReadyReason K, cond_Message = message\<rparr>"

text \<open>
  Modelled from the spec: marking replaces the entry of the same type where there is one
  (the collection stays unique by type and keeps its order), and appends the entry
  otherwise.
\<close>

fun Set_cond :: "Condition \<Rightarrow> Conditions \<Rightarrow> Conditions" where
  "Set_cond c [] = [c]"
| "Set_cond c (x # xs) = (if cond_Type x = cond_Type c then c # xs else x # Set_cond c xs)"

definition MarkTrue :: "condition_consts \<Rightarrow> string \<Rightarrow> string \<Rightarrow> Conditions \<Rightarrow> Conditions" where
  "MarkTrue K t message conditions = Set_cond (TrueCondition K t message) conditions"

text \<open>
  Modelled from the spec: initialisation creates the full set in the unknown state, the
  generic Ready entry first, then every entry of the list handed in.
\<close>

definition Init_cond :: "condition_consts \<Rightarrow> Conditions \<Rightarrow> Conditions \<Rightarrow> Conditions" where
  "Init_cond K cl conditions =
     foldl (\<lambda>cs c. Set_cond c cs)
       (Set_cond (UnknownCondition (ReadyCondition K) (InitReason K) (ReadyInitMessage K)) conditions)
       cl"

definition cond_types :: "Conditions \<Rightarrow> string set" where
  "cond_types cs = set (map cond_Type cs)"

definition IsTrue :: "Conditions \<Rightarrow> string \<Rightarrow> bool" where
  "IsTrue cs t = (\<exists>c \<in> set cs. cond_Type c = t \<and> cond_Status c = ConditionTrue)"

definition IsUnknown :: "Conditions \<Rightarrow> string \<Rightarrow> bool" where
  "IsUnknown cs t = (\<exists>c \<in> set cs. cond_Type c = t \<and> cond_Status c = ConditionUnknown)"

text \<open>
  \<^verbatim>\<open>Status.Conditions\<close> is a slice that the controller compares with nil: \<open>None\<close> is the
  nil slice of a status that was never written.
\<close>

record SwiftStorageStatus =
  Conditions :: "Conditions option"

record SwiftStorage = ObjectMeta +
  Spec :: SwiftStorageSpec
  Status :: SwiftStorageStatus

section \<open>Resource generators\<close>

text \<open>\<^verbatim>\<open>getStorageConfigMapTemplates\<close>\<close>

definition getStorageConfigMapTemplates :: "SwiftStorage \<Rightarrow> labels \<Rightarrow> Template list" where
  "getStorageConfigMapTemplates instance labels =
     [\<lparr>tpl_Name = Name instance @ ''-config-data'',
       tpl_Namespace = Namespace instance,
       tpl_Type = TemplateTypeConfig,
       tpl_InstanceType = Kind instance,
       tpl_Labels = labels,
       tpl_ConfigOptions = [],
       tpl_AdditionalTemplate = [],
       tpl_CustomData = []\<rparr>,
      \<lparr>tpl_Name = Name instance @ ''-scripts'',
       tpl_Namespace = Namespace instance,
       tpl_Type = TemplateTypeScripts,
       tpl_InstanceType = Kind instance,
       tpl_Labels = labels,
       tpl_ConfigOptions = [],
       tpl_AdditionalTemplate =
         [(''swift-init.sh'', ''/common/swift-init.sh''), (''ring-sync.sh'', ''/common/ring-sync.sh'')],
       tpl_CustomData = []\<rparr>]"

text \<open>\<^verbatim>\<open>getStorageVolumes\<close>; the scripts volume has the default mode \<^verbatim>\<open>0755\<close> (octal).\<close>

definition getStorageVolumes :: "swift_consts \<Rightarrow> SwiftStorage \<Rightarrow> Volume list" where
  "getStorageVolumes C instance =
     (let scriptsVolumeDefaultMode = (493 :: int32) in
      [\<lparr>vol_Name = ClaimName C, vol_VolumeSource = PersistentVolumeClaimSource (ClaimName C)\<rparr>,
       \<lparr>vol_Name = ''config-data'',
        vol_VolumeSource = ConfigMapSource (Name instance @ ''-config-data'') None\<rparr>,
       \<lparr>vol_Name = ''swiftconf'',
        vol_VolumeSource = SecretSource (SwiftConfSecret (Spec instance))\<rparr>,
       \<lparr>vol_Name = ''ring-data'', vol_VolumeSource = ConfigMapSource (RingConfigMapName C) None\<rparr>,
       \<lparr>vol_Name = ''config-data-merged'', vol_VolumeSource = EmptyDirSource []\<rparr>,
       \<lparr>vol_Name = ''cache'', vol_VolumeSource = EmptyDirSource []\<rparr>,
       \<lparr>vol_Name = ''scripts'',
        vol_VolumeSource =
          ConfigMapSource (Name instance @ ''-scripts'') (Some scriptsVolumeDefaultMode)\<rparr>])"

text \<open>\<^verbatim>\<open>getStorageVolumeMounts\<close>\<close>

definition getStorageVolumeMounts :: "swift_consts \<Rightarrow> VolumeMount list" where
  "getStorageVolumeMounts C =
     [\<lparr>vm_Name = ClaimName C, vm_MountPath = ''/srv/node/d1'', vm_ReadOnly = False\<rparr>,
      \<lparr>vm_Name = ''config-data'', vm_MountPath = ''/var/lib/config-data/default'',
       vm_ReadOnly = True\<rparr>,
      \<lparr>vm_Name = ''swiftconf'', vm_MountPath = ''/var/lib/config-data/swiftconf'',
       vm_ReadOnly = True\<rparr>,
      \<lparr>vm_Name = ''ring-data'', vm_MountPath = ''/var/lib/config-data/rings'',
       vm_ReadOnly = True\<rparr>,
      \<lparr>vm_Name = ''config-data-merged'', vm_MountPath = ''/etc/swift'', vm_ReadOnly = False\<rparr>,
      \<lparr>vm_Name = ''cache'', vm_MountPath = ''/var/cache/swift'', vm_ReadOnly = False\<rparr>,
      \<lparr>vm_Name = ''scripts'', vm_MountPath = ''/usr/local/bin/container-scripts'',
       vm_ReadOnly = True\<rparr>]"

text \<open>\<^verbatim>\<open>getPorts\<close>\<close>

definition getPorts :: "int32 \<Rightarrow> string \<Rightarrow> ContainerPort list" where
  "getPorts port name = [\<lparr>cp_ContainerPort = port, cp_Name = name\<rparr>]"

text \<open>\<^verbatim>\<open>getStorageInitContainers\<close>\<close>

definition getStorageInitContainers :: "swift_consts \<Rightarrow> SwiftStorage \<Rightarrow> Container list" where
  "getStorageInitContainers C swiftstorage =
     (let securityContext = GetSecurityContext C in
      [\<lparr>ctr_Name = ''swift-init'',
        ctr_Image = ContainerImageAccount (Spec swiftstorage),
        ctr_ImagePullPolicy = PullIfNotPresent,
        ctr_SecurityContext = Some securityContext,
        ctr_Ports = [],
        ctr_VolumeMounts = getStorageVolumeMounts C,
        ctr_Command = [''/usr/local/bin/container-scripts/swift-init.sh'']\<rparr>])"

text \<open>
  \<^verbatim>\<open>getStorageContainers\<close>: the sixteen containers of a storage pod, in the order of the
  source. A container without \<^verbatim>\<open>Ports\<close> or \<^verbatim>\<open>VolumeMounts\<close> in the source has the nil
  slice, the empty list here.
\<close>

definition getStorageContainers :: "swift_consts \<Rightarrow> SwiftStorage \<Rightarrow> Container list" where
  "getStorageContainers C swiftstorage =
     (let securityContext = GetSecurityContext C in
      [\<lparr>ctr_Name = ''account-server'',
        ctr_Image = ContainerImageAccount (Spec swiftstorage),
        ctr_ImagePullPolicy = PullIfNotPresent,
        ctr_SecurityContext = Some securityContext,
        ctr_Ports = getPorts (AccountServerPort C) ''account'',
        ctr_VolumeMounts = getStorageVolumeMounts C,
        ctr_Command = [''/usr/bin/swift-account-server'', ''/etc/swift/account-server.conf'', ''-v'']\<rparr>,
       \<lparr>ctr_Name = ''account-replicator'',
        ctr_Image = ContainerImageAccount (Spec swiftstorage),
        ctr_ImagePullPolicy = PullIfNotPresent,
        ctr_SecurityContext = Some securityContext,
        ctr_Ports = [],
        ctr_VolumeMounts = getStorageVolumeMounts C,
        ctr_Command = [''/usr/bin/swift-account-replicator'', ''/etc/swift/account-server.conf'', ''-v'']\<rparr>,
       \<lparr>ctr_Name = ''account-auditor'',
        ctr_Image = ContainerImageAccount (Spec swiftstorage),
        ctr_ImagePullPolicy = PullIfNotPresent,
        ctr_SecurityContext = Some securityContext,
        ctr_Ports = [],
        ctr_VolumeMounts = getStorageVolumeMounts C,
        ctr_Command = [''/usr/bin/swift-account-auditor'', ''/etc/swift/account-server.conf'', ''-v'']\<rparr>,
       \<lparr>ctr_Name = ''account-reaper'',
        ctr_Image = ContainerImageAccount (Spec swiftstorage),
        ctr_ImagePullPolicy = PullIfNotPresent,
        ctr_SecurityContext = Some securityContext,
        ctr_Ports = [],
        ctr_VolumeMounts = getStorageVolumeMounts C,
        ctr_Command = [''/usr/bin/swift-account-reaper'', ''/etc/swift/account-server.conf'', ''-v'']\<rparr>,
       \<lparr>ctr_Name = ''container-server'',
        ctr_Image = ContainerImageContainer (Spec swiftstorage),
        ctr_ImagePullPolicy = PullIfNotPresent,
        ctr_SecurityContext = Some securityContext,
        ctr_Ports = getPorts (ContainerServerPort C) ''container'',
        ctr_VolumeMounts = getStorageVolumeMounts C,
        ctr_Command = [''/usr/bin/swift-container-server'', ''/etc/swift/container-server.conf'', ''-v'']\<rparr>,
       \<lparr>ctr_Name = ''container-replicator'',
        ctr_Image = ContainerImageContainer (Spec swiftstorage),
        ctr_ImagePullPolicy = PullIfNotPresent,
        ctr_SecurityContext = Some securityContext,
        ctr_Ports = [],
        ctr_VolumeMounts = getStorageVolumeMounts C,
        ctr_Command = [''/usr/bin/swift-container-replicator'', ''/etc/swift/container-server.conf'', ''-v'']\<rparr>,
       \<lparr>ctr_Name = ''container-auditor'',
        ctr_Image = ContainerImageContainer (Spec swiftstorage),
        ctr_ImagePullPolicy = PullIfNotPresent,
        ctr_SecurityContext = Some securityContext,
        ctr_Ports = [],
        ctr_VolumeMounts = getStorageVolumeMounts C,
        ctr_Command = [''/usr/bin/swift-container-replicator'', ''/etc/swift/container-server.conf'', ''-v'']\<rparr>,
       \<lparr>ctr_Name = ''container-updater'',
        ctr_Image = ContainerImageContainer (Spec swiftstorage),
        ctr_ImagePullPolicy = PullIfNotPresent,
        ctr_SecurityContext = Some securityContext,
        ctr_Ports = [],
        ctr_VolumeMounts = getStorageVolumeMounts C,
        ctr_Command = [''/usr/bin/swift-container-replicator'', ''/etc/swift/container-server.conf'', ''-v'']\<rparr>,
       \<lparr>ctr_Name = ''object-server'',
        ctr_Image = ContainerImageObject (Spec swiftstorage),
        ctr_ImagePullPolicy = PullIfNotPresent,
        ctr_SecurityContext = Some securityContext,
        ctr_Ports = getPorts (ObjectServerPort C) ''object'',
        ctr_VolumeMounts = getStorageVolumeMounts C,
        ctr_Command = [''/usr/bin/swift-object-server'', ''/etc/swift/object-server.conf'', ''-v'']\<rparr>,
       \<lparr>ctr_Name = ''object-replicator'',
        ctr_Image = ContainerImageObject (Spec swiftstorage),
        ctr_ImagePullPolicy = PullIfNotPresent,
        ctr_SecurityContext = Some securityContext,
        ctr_Ports = [],
        ctr_VolumeMounts = getStorageVolumeMounts C,
        ctr_Command = [''/usr/bin/swift-object-replicator'', ''/etc/swift/object-server.conf'', ''-v'']\<rparr>,
       \<lparr>ctr_Name = ''object-auditor'',
        ctr_Image = ContainerImageObject (Spec swiftstorage),
        ctr_ImagePullPolicy = PullIfNotPresent,
        ctr_SecurityContext = Some securityContext,
        ctr_Ports = [],
        ctr_VolumeMounts = getStorageVolumeMounts C,
        ctr_Command = [''/usr/bin/swift-object-replicator'', ''/etc/swift/object-server.conf'', ''-v'']\<rparr>,
       \<lparr>ctr_Name = ''object-updater'',
        ctr_Image = ContainerImageObject (Spec swiftstorage),
        ctr_ImagePullPolicy = PullIfNotPresent,
        ctr_SecurityContext = Some securityContext,
        ctr_Ports = [],
        ctr_VolumeMounts = getStorageVolumeMounts C,
        ctr_Command = [''/usr/bin/swift-object-replicator'', ''/etc/swift/object-server.conf'', ''-v'']\<rparr>,
       \<lparr>ctr_Name = ''object-expirer'',
        ctr_Image = ContainerImageProxy (Spec swiftstorage),
        ctr_ImagePullPolicy = PullIfNotPresent,
        ctr_SecurityContext = Some securityContext,
        ctr_Ports = [],
        ctr_VolumeMounts = getStorageVolumeMounts C,
        ctr_Command = [''/usr/bin/swift-object-expirer'', ''/etc/swift/object-expirer.conf'', ''-v'']\<rparr>,
       \<lparr>ctr_Name = ''rsync'',
        ctr_Image = ContainerImageObject (Spec swiftstorage),
        ctr_ImagePullPolicy = PullIfNotPresent,
        ctr_SecurityContext = Some securityContext,
        ctr_Ports = getPorts (RsyncPort C) ''rsync'',
        ctr_VolumeMounts = getStorageVolumeMounts C,
        ctr_Command = [''/usr/bin/rsync'', ''--daemon'', ''--no-detach'', ''--config=/etc/swift/rsyncd.conf'', ''--log-file=/dev/stdout'']\<rparr>,
       \<lparr>ctr_Name = ''memcached'',
        ctr_Image = ContainerImageMemcached (Spec swiftstorage),
        ctr_ImagePullPolicy = PullIfNotPresent,
        ctr_SecurityContext = Some securityContext,
        ctr_Ports = getPorts (MemcachedPort C) ''memcached'',
        ctr_VolumeMounts = [],
        ctr_Command = [''/usr/bin/memcached'', ''-p'', ''11211'', ''-u'', ''memcached'']\<rparr>,
       \<lparr>ctr_Name = ''ring-sync'',
        ctr_Image = ContainerImageProxy (Spec swiftstorage),
        ctr_ImagePullPolicy = PullIfNotPresent,
        ctr_SecurityContext = Some securityContext,
        ctr_Ports = [],
        ctr_VolumeMounts = getStorageVolumeMounts C,
        ctr_Command = [''/usr/local/bin/container-scripts/ring-sync.sh'']\<rparr>])"

text \<open>\<^verbatim>\<open>getStorageService\<close>: the headless service.\<close>

definition getStorageService :: "swift_consts \<Rightarrow> SwiftStorage \<Rightarrow> Service" where
  "getStorageService C swiftstorage =
     (let selector = GetLabelsStorage C in
      \<lparr>Kind = [], Name = Name swiftstorage, Namespace = Namespace swiftstorage,
       Labels = selector, DeletionTimestamp = None,
       svc_Spec =
          \<lparr>svc_Selector = selector,
           svc_Ports =
             [\<lparr>sp_Name = ''account'', sp_Port = AccountServerPort C, sp_Protocol = ProtocolTCP\<rparr>,
              \<lparr>sp_Name = ''container'', sp_Port = ContainerServerPort C,
               sp_Protocol = ProtocolTCP\<rparr>,
              \<lparr>sp_Name = ''object'', sp_Port = ObjectServerPort C, sp_Protocol = ProtocolTCP\<rparr>,
              \<lparr>sp_Name = ''rsync'', sp_Port = RsyncPort C, sp_Protocol = ProtocolTCP\<rparr>],
           svc_ClusterIP = ''None''\<rparr>\<rparr>)"

text \<open>\<^verbatim>\<open>getStorageNetworkPolicy\<close>\<close>

definition getStorageNetworkPolicy :: "swift_consts \<Rightarrow> SwiftStorage \<Rightarrow> NetworkPolicy" where
  "getStorageNetworkPolicy C swiftstorage =
     (let portAccountServer = FromInt32 (AccountServerPort C);
          portContainerServer = FromInt32 (ContainerServerPort C);
          portObjectServer = FromInt32 (ObjectServerPort C);
          portRsync = FromInt32 (RsyncPort C);
          storageLabels = GetLabelsStorage C;
          proxyLabels = GetLabelsProxy C
      in
      \<lparr>Kind = [], Name = ''np-'' @ Name swiftstorage, Namespace = Namespace swiftstorage,
       Labels = [], DeletionTimestamp = None,
       np_Spec =
          \<lparr>np_PodSelector = storageLabels,
           np_Ingress =
             [\<lparr>rule_Ports =
                 [\<lparr>npp_Protocol = None, npp_Port = Some portAccountServer\<rparr>,
                  \<lparr>npp_Protocol = None, npp_Port = Some portContainerServer\<rparr>,
                  \<lparr>npp_Protocol = None, npp_Port = Some portObjectServer\<rparr>,
                  \<lparr>npp_Protocol = None, npp_Port = Some portRsync\<rparr>],
               rule_From = [\<lparr>peer_PodSelector = Some storageLabels\<rparr>]\<rparr>,
              \<lparr>rule_Ports =
                 [\<lparr>npp_Protocol = None, npp_Port = Some portAccountServer\<rparr>,
                  \<lparr>npp_Protocol = None, npp_Port = Some portContainerServer\<rparr>,
                  \<lparr>npp_Protocol = None, npp_Port = Some portObjectServer\<rparr>],
               rule_From = [\<lparr>peer_PodSelector = Some proxyLabels\<rparr>]\<rparr>]\<rparr>\<rparr>)"


text \<open>
  \<^verbatim>\<open>getStorageStatefulSet\<close>. \<^verbatim>\<open>resource.MustParse\<close> panics on a string that is no quantity;
  the parser is a parameter, and the panic is the result \<open>None\<close>.
\<close>

definition getStorageStatefulSet ::
  "swift_consts \<Rightarrow> (string \<Rightarrow> Quantity option) \<Rightarrow> SwiftStorage \<Rightarrow> labels \<Rightarrow> StatefulSet option"
where
  "getStorageStatefulSet C ParseQuantity swiftstorage labels =
     (let trueVal = True;
          OnRootMismatch = FSGroupChangeOnRootMismatch;
          user = RunAsUser C
      in case ParseQuantity (StorageRequest (Spec swiftstorage)) of
        None \<Rightarrow> None
      | Some request \<Rightarrow> Some
         \<lparr>Kind = [], Name = Name swiftstorage, Namespace = Namespace swiftstorage,
          Labels = labels, DeletionTimestamp = None,
          ss_Spec =
            \<lparr>ss_ServiceName = Name swiftstorage,
             ss_Selector = Some labels,
             ss_Replicas = Some (Replicas (Spec swiftstorage)),
             ss_Template =
               \<lparr>tmpl_Labels = labels,
                tmpl_Spec =
                  \<lparr>pod_ServiceAccountName = ServiceAccount C,
                   pod_SecurityContext = Some
                     \<lparr>psc_FSGroup = Some user,
                      psc_FSGroupChangePolicy = Some OnRootMismatch,
                      psc_Sysctls =
                        [\<lparr>sysctl_Name = ''net.ipv4.ip_unprivileged_port_start'',
                          sysctl_Value = ''873''\<rparr>],
                      psc_RunAsNonRoot = Some trueVal,
                      psc_SeccompProfile = Some SeccompProfileTypeRuntimeDefault\<rparr>,
                   pod_Volumes = getStorageVolumes C swiftstorage,
                   pod_InitContainers = getStorageInitContainers C swiftstorage,
                   pod_Containers = getStorageContainers C swiftstorage\<rparr>\<rparr>,
             ss_VolumeClaimTemplates =
               [\<lparr>Kind = [], Name = ClaimName C, Namespace = [], Labels = [],
                 DeletionTimestamp = None,
                 pvc_Spec =
                   \<lparr>pvc_StorageClassName = Some (StorageClass (Spec swiftstorage)),
                    pvc_AccessModes = [ReadWriteOnce],
                    pvc_Requests = [(''storage'', request)]\<rparr>,
                 pvc_Status = \<lparr>pvc_Capacity = []\<rparr>\<rparr>]\<rparr>,
          ss_Status = \<lparr>ss_ReadyReplicas = 0\<rparr>\<rparr>)"

text \<open>\<^verbatim>\<open>getDeviceConfigMapTemplates\<close>\<close>

definition getDeviceConfigMapTemplates ::
  "swift_consts \<Rightarrow> SwiftStorage \<Rightarrow> string \<Rightarrow> Template list"
where
  "getDeviceConfigMapTemplates C instance devices =
     (let data = [(''devices.csv'', devices)] in
      [\<lparr>tpl_Name = DeviceConfigMapName C,
        tpl_Namespace = Namespace instance,
        tpl_Type = TemplateTypeNone,
        tpl_InstanceType = Kind instance,
        tpl_Labels = [],
        tpl_ConfigOptions = [],
        tpl_AdditionalTemplate = [],
        tpl_CustomData = data\<rparr>])"

section \<open>The platform\<close>

text \<open>
  Every call that leaves the controller (the API client and the helpers of the common
  library built on it) is an operation of the platform: it reads a world of type \<open>'w\<close>
  and returns its answer with the world that follows. Nothing is assumed about the
  answers. The controller's side of each call appends one event, the call with its
  answer, to a log, so that what a reconciliation did and in which order can be read
  off afterwards.
\<close>

datatype error = NotFound string | OtherError string

definition IsNotFound :: "error \<Rightarrow> bool" where
  "IsNotFound err = (case err of NotFound _ \<Rightarrow> True | OtherError _ \<Rightarrow> False)"

record Result =
  Requeue :: bool
  RequeueAfter :: Duration

definition Result_empty :: Result where
  "Result_empty = \<lparr>Requeue = False, RequeueAfter = 0\<rparr>"

text \<open>What a Go function of type \<^verbatim>\<open>(ctrl.Result, error)\<close> does: it returns, or it panics.\<close>

datatype outcome = Return Result "error option" | Panic string

text \<open>\<^verbatim>\<open>types.NamespacedName\<close>: namespace and name.\<close>

type_synonym NamespacedName = "string \<times> string"

datatype event =
    EvGet NamespacedName "error + SwiftStorage"
  | EvStatusUpdate SwiftStorage "error option"
  | EvEnsureConfigMaps "Template list" "error option"
  | EvGetConfigMap NamespacedName "error option"
  | EvServiceCreateOrPatch Service "Result \<times> error option"
  | EvNetworkPolicyCreateOrPatch NetworkPolicy "Result \<times> error option"
  | EvGetStatefulSet NamespacedName "error + StatefulSet"
  | EvUpdate SwiftStorage "error option"
  | EvStatefulSetCreateOrPatch StatefulSet "(Result \<times> error option) \<times> StatefulSet"
  | EvGetClaim NamespacedName "error + PersistentVolumeClaim"

record 'w platform =
  client_Get :: "NamespacedName \<Rightarrow> 'w \<Rightarrow> (error + SwiftStorage) \<times> 'w"
  client_Status_Update :: "SwiftStorage \<Rightarrow> 'w \<Rightarrow> error option \<times> 'w"
  client_Update :: "SwiftStorage \<Rightarrow> 'w \<Rightarrow> error option \<times> 'w"
  helper_NewHelper :: "SwiftStorage \<Rightarrow> error option"
  lib_EnsureConfigMaps :: "SwiftStorage \<Rightarrow> Template list \<Rightarrow> 'w \<Rightarrow> error option \<times> 'w"
  client_GetConfigMap :: "NamespacedName \<Rightarrow> 'w \<Rightarrow> error option \<times> 'w"
  lib_Service_CreateOrPatch ::
    "Service \<Rightarrow> labels \<Rightarrow> Duration \<Rightarrow> 'w \<Rightarrow> (Result \<times> error option) \<times> 'w"
  lib_NetworkPolicy_CreateOrPatch ::
    "NetworkPolicy \<Rightarrow> labels \<Rightarrow> Duration \<Rightarrow> 'w \<Rightarrow> (Result \<times> error option) \<times> 'w"
  lib_GetStatefulSetWithName :: "NamespacedName \<Rightarrow> 'w \<Rightarrow> (error + StatefulSet) \<times> 'w"
  lib_StatefulSet_CreateOrPatch ::
    "StatefulSet \<Rightarrow> Duration \<Rightarrow> 'w \<Rightarrow> ((Result \<times> error option) \<times> StatefulSet) \<times> 'w"
  client_GetClaim :: "NamespacedName \<Rightarrow> 'w \<Rightarrow> (error + PersistentVolumeClaim) \<times> 'w"
  resource_ParseQuantity :: "string \<Rightarrow> Quantity option"

type_synonym 'w state = "'w \<times> event list"

definition call :: "('w \<Rightarrow> 'a \<times> 'w) \<Rightarrow> ('a \<Rightarrow> event) \<Rightarrow> 'w state \<Rightarrow> 'a \<times> 'w state" where
  "call op ev s = (case op (fst s) of (a, w') \<Rightarrow> (a, (w', snd s @ [ev a])))"


subsection \<open>The controller's calls\<close>

definition r_Get :: "'w platform \<Rightarrow> NamespacedName \<Rightarrow> 'w state \<Rightarrow> (error + SwiftStorage) \<times> 'w state"
where
  "r_Get P req = call (client_Get P req) (EvGet req)"

text \<open>
  \<^verbatim>\<open>r.Status().Update\<close> and \<^verbatim>\<open>r.Client.Update\<close> send the instance. The client also writes the
  stored object of the answer back into \<^verbatim>\<open>instance\<close>; the stored object is taken to be the
  one sent, so \<^verbatim>\<open>instance\<close> is the same after the call.
\<close>

definition r_Status_Update :: "'w platform \<Rightarrow> SwiftStorage \<Rightarrow> 'w state \<Rightarrow> error option \<times> 'w state"
where
  "r_Status_Update P instance = call (client_Status_Update P instance) (EvStatusUpdate instance)"

definition r_Client_Update :: "'w platform \<Rightarrow> SwiftStorage \<Rightarrow> 'w state \<Rightarrow> error option \<times> 'w state"
where
  "r_Client_Update P instance = call (client_Update P instance) (EvUpdate instance)"

definition configmap_EnsureConfigMaps ::
  "'w platform \<Rightarrow> SwiftStorage \<Rightarrow> Template list \<Rightarrow> 'w state \<Rightarrow> error option \<times> 'w state"
where
  "configmap_EnsureConfigMaps P instance tpl =
     call (lib_EnsureConfigMaps P instance tpl) (EvEnsureConfigMaps tpl)"

text \<open>
  Modelled from the spec: \<^verbatim>\<open>configmap.GetConfigMap\<close> belongs to the common library, whose
  code is not part of the controller file. It looks the bundle up in the namespace of the
  object. As step 5 of the specification has it, a bundle that is absent (the lookup
  reports not found) is no error but a request to retry after the timeout handed in,
  which the controller sets to five seconds; any other failure of the lookup is returned
  as the error (a text that the library may wrap around it is left out). The lookup
  itself is an operation of the platform.
\<close>

definition configmap_GetConfigMap ::
  "'w platform \<Rightarrow> SwiftStorage \<Rightarrow> string \<Rightarrow> Duration \<Rightarrow> 'w state
     \<Rightarrow> (Result \<times> error option) \<times> 'w state"
where
  "configmap_GetConfigMap P object configMapName requeueTimeout s =
     (case call (client_GetConfigMap P (Namespace object, configMapName))
             (EvGetConfigMap (Namespace object, configMapName)) s of
        (None, s') \<Rightarrow> ((Result_empty, None), s')
      | (Some err, s') \<Rightarrow>
          if IsNotFound err
          then ((\<lparr>Requeue = False, RequeueAfter = requeueTimeout\<rparr>, None), s')
          else ((Result_empty, Some err), s'))"

definition service_CreateOrPatch ::
  "'w platform \<Rightarrow> Service \<Rightarrow> labels \<Rightarrow> Duration \<Rightarrow> 'w state \<Rightarrow> (Result \<times> error option) \<times> 'w state"
where
  "service_CreateOrPatch P svc ls timeout =
     call (lib_Service_CreateOrPatch P svc ls timeout) (EvServiceCreateOrPatch svc)"

definition networkpolicy_CreateOrPatch ::
  "'w platform \<Rightarrow> NetworkPolicy \<Rightarrow> labels \<Rightarrow> Duration \<Rightarrow> 'w state
     \<Rightarrow> (Result \<times> error option) \<times> 'w state"
where
  "networkpolicy_CreateOrPatch P np ls timeout =
     call (lib_NetworkPolicy_CreateOrPatch P np ls timeout) (EvNetworkPolicyCreateOrPatch np)"

definition statefulset_GetStatefulSetWithName ::
  "'w platform \<Rightarrow> string \<Rightarrow> string \<Rightarrow> 'w state \<Rightarrow> (error + StatefulSet) \<times> 'w state"
where
  "statefulset_GetStatefulSetWithName P name namespace =
     call (lib_GetStatefulSetWithName P (namespace, name)) (EvGetStatefulSet (namespace, name))"

text \<open>
  \<^verbatim>\<open>sset.CreateOrPatch\<close>; the second component of the answer is the object that
  \<^verbatim>\<open>sset.GetStatefulSet()\<close> yields afterwards.
\<close>

definition statefulset_CreateOrPatch ::
  "'w platform \<Rightarrow> StatefulSet \<Rightarrow> Duration \<Rightarrow> 'w state
     \<Rightarrow> ((Result \<times> error option) \<times> StatefulSet) \<times> 'w state"
where
  "statefulset_CreateOrPatch P sset timeout =
     call (lib_StatefulSet_CreateOrPatch P sset timeout) (EvStatefulSetCreateOrPatch sset)"

definition h_GetClient_Get ::
  "'w platform \<Rightarrow> NamespacedName \<Rightarrow> 'w state \<Rightarrow> (error + PersistentVolumeClaim) \<times> 'w state"
where
  "h_GetClient_Get P key = call (client_GetClaim P key) (EvGetClaim key)"

section \<open>The capacity discoverer\<close>

text \<open>The verb \<^verbatim>\<open>%d\<close> of \<^verbatim>\<open>fmt.Sprintf\<close>: decimal digits, with a minus sign below zero.\<close>

fun decimal :: "nat \<Rightarrow> string" where
  "decimal n =
     (if n < 10 then [''0123456789'' ! n]
      else decimal (n div 10) @ [''0123456789'' ! (n mod 10)])"

declare decimal.simps [simp del]

definition Sprintf_d :: "int \<Rightarrow> string" where
  "Sprintf_d i = (if i < 0 then CHR ''-'' # decimal (nat (- i)) else decimal (nat i))"

text \<open>Go's \<^verbatim>\<open>/\<close> on \<^verbatim>\<open>int64\<close>: the quotient truncated towards zero.\<close>

definition int64_div :: "int64 \<Rightarrow> int64 \<Rightarrow> int64" where
  "int64_div a b = word_of_int (sint a sdiv sint b)"

text \<open>
  \<^verbatim>\<open>getDeviceList\<close>. The loop variable \<^verbatim>\<open>replica\<close> is a Go \<^verbatim>\<open>int\<close> that stays below an
  \<^verbatim>\<open>int32\<close>; \<open>devices\<close> is the content of the string builder. Each \<^verbatim>\<open>Get\<close> fills
  \<^verbatim>\<open>foundClaim\<close> with the claim read. The second result of \<^verbatim>\<open>AsInt64\<close> is dropped, as in
  the source.
\<close>

function getDeviceList_loop ::
  "'w platform \<Rightarrow> swift_consts \<Rightarrow> SwiftStorage \<Rightarrow> int \<Rightarrow> string \<Rightarrow> 'w state
     \<Rightarrow> (error + string) \<times> 'w state"
where
  "getDeviceList_loop P C instance replica devices s =
     (if replica < sint (Replicas (Spec instance)) then
        (let cn = ClaimName C @ ''-'' @ Name instance @ ''-'' @ Sprintf_d replica in
         case h_GetClient_Get P (Namespace instance, cn) s of
           (Inr foundClaim, s') \<Rightarrow>
             (let fsc = resource_index (pvc_Capacity (pvc_Status foundClaim)) ''storage'';
                  c = fst (AsInt64 fsc);
                  c = int64_div c (1000 * 1000 * 1000);
                  host = Name instance @ ''-'' @ Sprintf_d replica @ ''.'' @ Name instance
              in getDeviceList_loop P C instance (replica + 1)
                   (devices @ host @ '','' @ ''d1'' @ '','' @ Sprintf_d (sint c) @ [CHR 0x0A]) s')
         | (Inl err, s') \<Rightarrow> (Inl err, s'))
      else (Inr devices, s))"
  by pat_completeness auto
termination
  by (relation "measure (\<lambda>(P, C, instance, replica, devices, s).
        nat (sint (Replicas (Spec instance)) - replica))") auto

declare getDeviceList_loop.simps [simp del]

definition getDeviceList ::
  "'w platform \<Rightarrow> swift_consts \<Rightarrow> SwiftStorage \<Rightarrow> 'w state \<Rightarrow> (error + string) \<times> 'w state"
where
  "getDeviceList P C instance s = getDeviceList_loop P C instance 0 [] s"


section \<open>The reconciler\<close>

text \<open>
  \<^verbatim>\<open>Reconcile\<close> is one Go function; it is cut here at its comments into the parts that the
  spec numbers as steps, each part ending in a return or in the part that follows it in
  the source. The variable \<^verbatim>\<open>instance\<close> is passed along with the changes made to it.
\<close>

definition with_Conditions :: "(Conditions \<Rightarrow> Conditions) \<Rightarrow> SwiftStorage \<Rightarrow> SwiftStorage" where
  "with_Conditions f instance =
     instance\<lparr>Status := (Status instance)
       \<lparr>Conditions := Some (f (case Conditions (Status instance) of None \<Rightarrow> [] | Some cs \<Rightarrow> cs))\<rparr>\<rparr>"

text \<open>Lines 184 to 204: readiness check, device manifest, ready conditions.\<close>

definition Reconcile_readiness ::
  "'w platform \<Rightarrow> swift_consts \<Rightarrow> condition_consts \<Rightarrow> SwiftStorage \<Rightarrow> StatefulSet \<Rightarrow> 'w state
     \<Rightarrow> outcome \<times> 'w state"
where
  "Reconcile_readiness P C K instance live s =
     (if ss_ReadyReplicas (ss_Status live) = Replicas (Spec instance) then
        (case getDeviceList P C instance s of
           (Inl err, s1) \<Rightarrow> (Return Result_empty (Some err), s1)
         | (Inr devices, s1) \<Rightarrow>
             (let tpl = getDeviceConfigMapTemplates C instance devices in
              case configmap_EnsureConfigMaps P instance tpl s1 of
                (Some err, s2) \<Rightarrow> (Return Result_empty (Some err), s2)
              | (None, s2) \<Rightarrow>
                  (let instance =
                         with_Conditions (MarkTrue K (ReadyCondition K) (ReadyMessage K)) instance;
                       instance =
                         with_Conditions
                           (MarkTrue K (SwiftStorageReadyCondition C) (ReadyMessage K)) instance
                   in case r_Status_Update P instance s2 of
                        (Some err, s3) \<Rightarrow> (Return Result_empty (Some err), s3)
                      | (None, s3) \<Rightarrow> (Return Result_empty None, s3))))
      else (Return Result_empty None, s))"

text \<open>Lines 175 to 182: the workload is generated from \<^verbatim>\<open>instance\<close> and applied.\<close>

definition Reconcile_apply ::
  "'w platform \<Rightarrow> swift_consts \<Rightarrow> condition_consts \<Rightarrow> SwiftStorage \<Rightarrow> labels \<Rightarrow> 'w state
     \<Rightarrow> outcome \<times> 'w state"
where
  "Reconcile_apply P C K instance ls s =
     (case getStorageStatefulSet C (resource_ParseQuantity P) instance ls of
        None \<Rightarrow> (Panic ''resource.MustParse'', s)
      | Some sset \<Rightarrow>
          (case statefulset_CreateOrPatch P sset (5 * Second) s of
             (((ctrlResult, Some err), live), s1) \<Rightarrow> (Return ctrlResult (Some err), s1)
           | (((ctrlResult, None), live), s1) \<Rightarrow>
               if ctrlResult \<noteq> Result_empty then (Return ctrlResult None, s1)
               else Reconcile_readiness P C K instance live s1))"

text \<open>
  Lines 159 to 173: the guard against downsizing. \<^verbatim>\<open>*found.Spec.Replicas\<close> dereferences
  a pointer; on nil the function panics.
\<close>

definition Reconcile_workload ::
  "'w platform \<Rightarrow> swift_consts \<Rightarrow> condition_consts \<Rightarrow> SwiftStorage \<Rightarrow> labels \<Rightarrow> Result
     \<Rightarrow> 'w state \<Rightarrow> outcome \<times> 'w state"
where
  "Reconcile_workload P C K instance ls ctrlResult s =
     (case statefulset_GetStatefulSetWithName P (Name instance) (Namespace instance) s of
        (Inl err, s1) \<Rightarrow>
          if \<not> IsNotFound err then (Return ctrlResult (Some err), s1)
          else Reconcile_apply P C K instance ls s1
      | (Inr found, s1) \<Rightarrow>
          (case ss_Replicas (ss_Spec found) of
             None \<Rightarrow> (Panic ''nil pointer dereference'', s1)
           | Some foundReplicas \<Rightarrow>
               if sint foundReplicas > sint (Replicas (Spec instance)) then
                 (let instance = instance\<lparr>Spec := (Spec instance)\<lparr>Replicas := foundReplicas\<rparr>\<rparr> in
                  case r_Client_Update P instance s1 of
                    (Some err, s2) \<Rightarrow> (Return Result_empty (Some err), s2)
                  | (None, s2) \<Rightarrow> Reconcile_apply P C K instance ls s2)
               else Reconcile_apply P C K instance ls s1))"

text \<open>Lines 141 to 157: headless service and network policy.\<close>

definition Reconcile_network ::
  "'w platform \<Rightarrow> swift_consts \<Rightarrow> condition_consts \<Rightarrow> SwiftStorage \<Rightarrow> labels \<Rightarrow> 'w state
     \<Rightarrow> outcome \<times> 'w state"
where
  "Reconcile_network P C K instance ls s =
     (case service_CreateOrPatch P (getStorageService C instance) ls (5 * Second) s of
        ((ctrlResult, Some err), s1) \<Rightarrow> (Return ctrlResult (Some err), s1)
      | ((ctrlResult, None), s1) \<Rightarrow>
          if ctrlResult \<noteq> Result_empty then (Return ctrlResult None, s1)
          else
            (case networkpolicy_CreateOrPatch P (getStorageNetworkPolicy C instance) ls
                    (5 * Second) s1 of
               ((ctrlResult, Some err), s2) \<Rightarrow> (Return ctrlResult (Some err), s2)
             | ((ctrlResult, None), s2) \<Rightarrow>
                 if ctrlResult \<noteq> Result_empty then (Return ctrlResult None, s2)
                 else Reconcile_workload P C K instance ls ctrlResult s2))"

text \<open>Lines 112 to 139: helper, configuration bundle, ring bundle.\<close>

definition Reconcile_config ::
  "'w platform \<Rightarrow> swift_consts \<Rightarrow> condition_consts \<Rightarrow> SwiftStorage \<Rightarrow> 'w state
     \<Rightarrow> outcome \<times> 'w state"
where
  "Reconcile_config P C K instance s =
     (case helper_NewHelper P instance of
        Some err \<Rightarrow> (Return Result_empty (Some err), s)
      | None \<Rightarrow>
          (let ls = GetLabelsStorage C;
               tpl = getStorageConfigMapTemplates instance ls
           in case configmap_EnsureConfigMaps P instance tpl s of
                (Some err, s1) \<Rightarrow> (Return Result_empty (Some err), s1)
              | (None, s1) \<Rightarrow>
                  (case configmap_GetConfigMap P instance (RingConfigMapName C) (5 * Second) s1 of
                     ((ctrlResult, Some err), s2) \<Rightarrow> (Return ctrlResult (Some err), s2)
                   | ((ctrlResult, None), s2) \<Rightarrow>
                       if ctrlResult \<noteq> Result_empty then (Return ctrlResult None, s2)
                       else Reconcile_network P C K instance ls s2)))"

text \<open>Lines 94 to 106: the conditions of a status that has none.\<close>

definition Reconcile_initConditions ::
  "'w platform \<Rightarrow> swift_consts \<Rightarrow> condition_consts \<Rightarrow> SwiftStorage \<Rightarrow> 'w state
     \<Rightarrow> (error + SwiftStorage) \<times> 'w state"
where
  "Reconcile_initConditions P C K instance s =
     (if Conditions (Status instance) = None then
        (let instance = instance\<lparr>Status := (Status instance)\<lparr>Conditions := Some []\<rparr>\<rparr>;
             cl = [UnknownCondition (ReadyCondition K) (InitReason K) (ReadyInitMessage K),
                   UnknownCondition (SwiftStorageReadyCondition C) (InitReason K)
                     (ReadyInitMessage K)];
             instance = with_Conditions (Init_cond K cl) instance
         in case r_Status_Update P instance s of
              (Some err, s1) \<Rightarrow> (Inl err, s1)
            | (None, s1) \<Rightarrow> (Inr instance, s1))
      else (Inr instance, s))"

text \<open>\<^verbatim>\<open>Reconcile\<close>, from line 77.\<close>

definition Reconcile ::
  "'w platform \<Rightarrow> swift_consts \<Rightarrow> condition_consts \<Rightarrow> NamespacedName \<Rightarrow> 'w state
     \<Rightarrow> outcome \<times> 'w state"
where
  "Reconcile P C K req s =
     (case r_Get P req s of
        (Inl err, s1) \<Rightarrow>
          if IsNotFound err then (Return Result_empty None, s1)
          else (Return Result_empty (Some err), s1)
      | (Inr instance, s1) \<Rightarrow>
          (case Reconcile_initConditions P C K instance s1 of
             (Inl err, s2) \<Rightarrow> (Return Result_empty (Some err), s2)
           | (Inr instance, s2) \<Rightarrow>
               if DeletionTimestamp instance \<noteq> None then (Return Result_empty None, s2)
               else Reconcile_config P C K instance s2))"


section \<open>Reading a log\<close>

datatype call_kind =
    KGet | KStatusUpdate | KEnsureConfigMaps | KGetConfigMap | KServiceCreateOrPatch
  | KNetworkPolicyCreateOrPatch | KGetStatefulSet | KUpdate | KStatefulSetCreateOrPatch
  | KGetClaim

fun kind_of :: "event \<Rightarrow> call_kind" where
  "kind_of (EvGet _ _) = KGet"
| "kind_of (EvStatusUpdate _ _) = KStatusUpdate"
| "kind_of (EvEnsureConfigMaps _ _) = KEnsureConfigMaps"
| "kind_of (EvGetConfigMap _ _) = KGetConfigMap"
| "kind_of (EvServiceCreateOrPatch _ _) = KServiceCreateOrPatch"
| "kind_of (EvNetworkPolicyCreateOrPatch _ _) = KNetworkPolicyCreateOrPatch"
| "kind_of (EvGetStatefulSet _ _) = KGetStatefulSet"
| "kind_of (EvUpdate _ _) = KUpdate"
| "kind_of (EvStatefulSetCreateOrPatch _ _) = KStatefulSetCreateOrPatch"
| "kind_of (EvGetClaim _ _) = KGetClaim"

text \<open>The commands of the containers of a given name.\<close>

definition commands_of :: "Container list \<Rightarrow> string \<Rightarrow> string list list" where
  "commands_of cs n = map ctr_Command (filter (\<lambda>c. ctr_Name c = n) cs)"

text \<open>The log of a reconciliation that starts with an empty log, and its outcome.\<close>

definition log_of :: "outcome \<times> 'w state \<Rightarrow> event list" where
  "log_of r = snd (snd r)"

definition outcome_of :: "outcome \<times> 'w state \<Rightarrow> outcome" where
  "outcome_of r = fst r"

text \<open>
  Whether a condition type is true in the status of an instance, and the condition types
  the status holds; a status without a condition list holds none.
\<close>

definition instance_IsTrue :: "SwiftStorage \<Rightarrow> string \<Rightarrow> bool" where
  "instance_IsTrue i t = (case Conditions (Status i) of None \<Rightarrow> False | Some cs \<Rightarrow> IsTrue cs t)"

definition instance_types :: "SwiftStorage \<Rightarrow> string set" where
  "instance_types i = (case Conditions (Status i) of None \<Rightarrow> {} | Some cs \<Rightarrow> cond_types cs)"

text \<open>
  Orderings within one log: some event with \<open>p\<close> lies before the first event with \<open>q\<close>.
\<close>

definition happens_before :: "(event \<Rightarrow> bool) \<Rightarrow> (event \<Rightarrow> bool) \<Rightarrow> event list \<Rightarrow> bool" where
  "happens_before p q tr = (\<exists>e \<in> set (takeWhile (\<lambda>e. \<not> q e) tr). p e)"

text \<open>
  The events the properties below look for: a lookup that found the ring bundle, an
  update of the resource that stored a given replica count, the application of the
  workload, and the calls that only the workload phase and the readiness phase make.
\<close>

fun ring_found :: "swift_consts \<Rightarrow> event \<Rightarrow> bool" where
  "ring_found C (EvGetConfigMap key None) = (snd key = RingConfigMapName C)"
| "ring_found C _ = False"

fun persisted_replicas :: "int32 \<Rightarrow> event \<Rightarrow> bool" where
  "persisted_replicas f (EvUpdate i None) = (Replicas (Spec i) = f)"
| "persisted_replicas f _ = False"

definition is_apply :: "event \<Rightarrow> bool" where
  "is_apply x = (kind_of x = KStatefulSetCreateOrPatch)"

definition late_event :: "event \<Rightarrow> bool" where
  "late_event x \<longleftrightarrow>
     kind_of x \<in> {KGetStatefulSet, KUpdate, KStatefulSetCreateOrPatch, KGetClaim}"

text \<open>
  A history of the workload's replica count over several reconciliations. A log
  \<^emph>\<open>observes\<close> the count \<open>n\<close> when every lookup of the workload in it finds a workload with
  \<open>n\<close> replicas. The counts \<open>n\<^sub>0, n\<^sub>1, \<dots>\<close> \<^emph>\<open>evolve\<close> along the logs when each log observes
  the count before it and the count after it is either the same or one that the log
  applied: the workload is changed by the reconciler only.
\<close>

fun observes :: "int32 \<Rightarrow> event \<Rightarrow> bool" where
  "observes n (EvGetStatefulSet key (Inr found)) = (ss_Replicas (ss_Spec found) = Some n)"
| "observes n (EvGetStatefulSet key (Inl err)) = False"
| "observes n _ = True"

fun applied_replicas :: "event \<Rightarrow> int32 list" where
  "applied_replicas (EvStatefulSetCreateOrPatch sset a) =
     (case ss_Replicas (ss_Spec sset) of None \<Rightarrow> [] | Some n \<Rightarrow> [n])"
| "applied_replicas _ = []"

fun evolves :: "int32 list \<Rightarrow> event list list \<Rightarrow> bool" where
  "evolves [n] [] = True"
| "evolves (n # n' # ns) (tr # trs) =
     (list_all (observes n) tr
      \<and> (n' = n \<or> n' \<in> set (concat (map applied_replicas tr)))
      \<and> evolves (n' # ns) trs)"
| "evolves _ _ = False"


section \<open>The logs a reconciliation can leave\<close>

text \<open>
  The calls of one reconciliation, phase by phase, as a disjunction of the paths through
  the phase: each disjunct gives the events of a path, in order, with the responses that
  lead to it, and the outcome. The predicates say nothing about the state of the platform.
  That every run of \<^const>\<open>Reconcile\<close> leaves such a log is proved below
  (\<open>Reconcile_sound\<close>).
\<close>

text \<open>
  The reads of the capacity discoverer: claims that were found, then possibly one read
  that failed.
\<close>

definition found_claims :: "(NamespacedName \<times> PersistentVolumeClaim) list \<Rightarrow> event list" where
  "found_claims cs = map (\<lambda>(key, claim). EvGetClaim key (Inr claim)) cs"

definition claims_log :: "error + string \<Rightarrow> event list \<Rightarrow> bool" where
  "claims_log r d =
     (case r of
        Inr _ \<Rightarrow> \<exists>cs. d = found_claims cs
      | Inl err \<Rightarrow> \<exists>cs key. d = found_claims cs @ [EvGetClaim key (Inl err)])"

text \<open>
  The instance after lines 94 to 106 when it came without conditions, after the two
  \<^verbatim>\<open>MarkTrue\<close> calls of lines 192 to 194, and after the replica count was raised at line 166.
\<close>

definition init_list :: "swift_consts \<Rightarrow> condition_consts \<Rightarrow> Conditions" where
  "init_list C K =
     Init_cond K
       [UnknownCondition (ReadyCondition K) (InitReason K) (ReadyInitMessage K),
        UnknownCondition (SwiftStorageReadyCondition C) (InitReason K) (ReadyInitMessage K)] []"

definition initialised :: "swift_consts \<Rightarrow> condition_consts \<Rightarrow> SwiftStorage \<Rightarrow> SwiftStorage" where
  "initialised C K inst = inst\<lparr>Status := (Status inst)\<lparr>Conditions := Some (init_list C K)\<rparr>\<rparr>"

definition marked_ready :: "swift_consts \<Rightarrow> condition_consts \<Rightarrow> SwiftStorage \<Rightarrow> SwiftStorage" where
  "marked_ready C K inst =
     with_Conditions (MarkTrue K (SwiftStorageReadyCondition C) (ReadyMessage K))
       (with_Conditions (MarkTrue K (ReadyCondition K) (ReadyMessage K)) inst)"

definition resized :: "int32 \<Rightarrow> SwiftStorage \<Rightarrow> SwiftStorage" where
  "resized f inst = inst\<lparr>Spec := (Spec inst)\<lparr>Replicas := f\<rparr>\<rparr>"

definition loaded_instance :: "swift_consts \<Rightarrow> condition_consts \<Rightarrow> SwiftStorage \<Rightarrow> SwiftStorage" where
  "loaded_instance C K inst = (if Conditions (Status inst) = None then initialised C K inst else inst)"

definition readiness_log ::
  "swift_consts \<Rightarrow> condition_consts \<Rightarrow> SwiftStorage \<Rightarrow> StatefulSet \<Rightarrow> outcome \<Rightarrow> event list \<Rightarrow> bool"
where
  "readiness_log C K inst live out d \<longleftrightarrow>
     (ss_ReadyReplicas (ss_Status live) \<noteq> Replicas (Spec inst) \<and> d = [] \<and> out = Return Result_empty None)
   \<or> (ss_ReadyReplicas (ss_Status live) = Replicas (Spec inst) \<and>
        (\<exists>cs key err. d = found_claims cs @ [EvGetClaim key (Inl err)]
           \<and> out = Return Result_empty (Some err)))
   \<or> (ss_ReadyReplicas (ss_Status live) = Replicas (Spec inst) \<and>
        (\<exists>cs devices err.
           d = found_claims cs
                 @ [EvEnsureConfigMaps (getDeviceConfigMapTemplates C inst devices) (Some err)]
           \<and> out = Return Result_empty (Some err)))
   \<or> (ss_ReadyReplicas (ss_Status live) = Replicas (Spec inst) \<and>
        (\<exists>cs devices e.
           d = found_claims cs
                 @ [EvEnsureConfigMaps (getDeviceConfigMapTemplates C inst devices) None,
                    EvStatusUpdate (marked_ready C K inst) e]
           \<and> out = Return Result_empty e))"

definition apply_log ::
  "'w platform \<Rightarrow> swift_consts \<Rightarrow> condition_consts \<Rightarrow> SwiftStorage \<Rightarrow> labels \<Rightarrow> outcome \<Rightarrow> event list \<Rightarrow> bool"
where
  "apply_log P C K inst ls out d \<longleftrightarrow>
     (getStorageStatefulSet C (resource_ParseQuantity P) inst ls = None
        \<and> d = [] \<and> out = Panic ''resource.MustParse'')
   \<or> (\<exists>sset res e live.
        getStorageStatefulSet C (resource_ParseQuantity P) inst ls = Some sset
        \<and> (e \<noteq> None \<or> res \<noteq> Result_empty)
        \<and> d = [EvStatefulSetCreateOrPatch sset ((res, e), live)] \<and> out = Return res e)
   \<or> (\<exists>sset live d'.
        getStorageStatefulSet C (resource_ParseQuantity P) inst ls = Some sset
        \<and> d = EvStatefulSetCreateOrPatch sset ((Result_empty, None), live) # d'
        \<and> readiness_log C K inst live out d')"

definition workload_log ::
  "'w platform \<Rightarrow> swift_consts \<Rightarrow> condition_consts \<Rightarrow> SwiftStorage \<Rightarrow> labels \<Rightarrow> Result \<Rightarrow> outcome
     \<Rightarrow> event list \<Rightarrow> bool"
where
  "workload_log P C K inst ls ctrlResult out d \<longleftrightarrow>
     (\<exists>err. \<not> IsNotFound err
        \<and> d = [EvGetStatefulSet (Namespace inst, Name inst) (Inl err)]
        \<and> out = Return ctrlResult (Some err))
   \<or> (\<exists>found. ss_Replicas (ss_Spec found) = None
        \<and> d = [EvGetStatefulSet (Namespace inst, Name inst) (Inr found)]
        \<and> out = Panic ''nil pointer dereference'')
   \<or> (\<exists>found f err. ss_Replicas (ss_Spec found) = Some f
        \<and> sint (Replicas (Spec inst)) < sint f
        \<and> d = [EvGetStatefulSet (Namespace inst, Name inst) (Inr found),
               EvUpdate (resized f inst) (Some err)]
        \<and> out = Return Result_empty (Some err))
   \<or> (\<exists>err A. IsNotFound err
        \<and> d = EvGetStatefulSet (Namespace inst, Name inst) (Inl err) # A
        \<and> apply_log P C K inst ls out A)
   \<or> (\<exists>found f A. ss_Replicas (ss_Spec found) = Some f
        \<and> \<not> sint (Replicas (Spec inst)) < sint f
        \<and> d = EvGetStatefulSet (Namespace inst, Name inst) (Inr found) # A
        \<and> apply_log P C K inst ls out A)
   \<or> (\<exists>found f A. ss_Replicas (ss_Spec found) = Some f
        \<and> sint (Replicas (Spec inst)) < sint f
        \<and> d = EvGetStatefulSet (Namespace inst, Name inst) (Inr found)
               # EvUpdate (resized f inst) None # A
        \<and> apply_log P C K (resized f inst) ls out A)"

definition network_log ::
  "'w platform \<Rightarrow> swift_consts \<Rightarrow> condition_consts \<Rightarrow> SwiftStorage \<Rightarrow> labels \<Rightarrow> outcome
     \<Rightarrow> event list \<Rightarrow> bool"
where
  "network_log P C K inst ls out d \<longleftrightarrow>
     (\<exists>res e. (e \<noteq> None \<or> res \<noteq> Result_empty) \<and>
        d = [EvServiceCreateOrPatch (getStorageService C inst) (res, e)] \<and> out = Return res e)
   \<or> (\<exists>res e. (e \<noteq> None \<or> res \<noteq> Result_empty) \<and>
        d = [EvServiceCreateOrPatch (getStorageService C inst) (Result_empty, None),
             EvNetworkPolicyCreateOrPatch (getStorageNetworkPolicy C inst) (res, e)]
        \<and> out = Return res e)
   \<or> (\<exists>d'. d = EvServiceCreateOrPatch (getStorageService C inst) (Result_empty, None)
               # EvNetworkPolicyCreateOrPatch (getStorageNetworkPolicy C inst) (Result_empty, None)
               # d'
        \<and> workload_log P C K inst ls Result_empty out d')"

definition config_log ::
  "'w platform \<Rightarrow> swift_consts \<Rightarrow> condition_consts \<Rightarrow> SwiftStorage \<Rightarrow> outcome \<Rightarrow> event list \<Rightarrow> bool"
where
  "config_log P C K inst out d \<longleftrightarrow>
     (\<exists>err. helper_NewHelper P inst = Some err \<and> d = [] \<and> out = Return Result_empty (Some err))
   \<or> (\<exists>err. helper_NewHelper P inst = None
        \<and> d = [EvEnsureConfigMaps
                 (getStorageConfigMapTemplates inst (GetLabelsStorage C)) (Some err)]
        \<and> out = Return Result_empty (Some err))
   \<or> (\<exists>err. helper_NewHelper P inst = None
        \<and> d = [EvEnsureConfigMaps
                 (getStorageConfigMapTemplates inst (GetLabelsStorage C)) None,
               EvGetConfigMap (Namespace inst, RingConfigMapName C) (Some err)]
        \<and> out = (if IsNotFound err
                  then Return \<lparr>Requeue = False, RequeueAfter = 5 * Second\<rparr> None
                  else Return Result_empty (Some err)))
   \<or> (\<exists>d'. helper_NewHelper P inst = None
        \<and> d = EvEnsureConfigMaps
                 (getStorageConfigMapTemplates inst (GetLabelsStorage C)) None
               # EvGetConfigMap (Namespace inst, RingConfigMapName C) None # d'
        \<and> network_log P C K inst (GetLabelsStorage C) out d')"

definition guarded_log ::
  "'w platform \<Rightarrow> swift_consts \<Rightarrow> condition_consts \<Rightarrow> SwiftStorage \<Rightarrow> outcome \<Rightarrow> event list \<Rightarrow> bool"
where
  "guarded_log P C K inst out d \<longleftrightarrow>
     (DeletionTimestamp inst \<noteq> None \<and> d = [] \<and> out = Return Result_empty None)
   \<or> (DeletionTimestamp inst = None \<and> config_log P C K inst out d)"

definition Reconcile_log ::
  "'w platform \<Rightarrow> swift_consts \<Rightarrow> condition_consts \<Rightarrow> NamespacedName \<Rightarrow> outcome \<Rightarrow> event list \<Rightarrow> bool"
where
  "Reconcile_log P C K req out tr \<longleftrightarrow>
     (\<exists>err. tr = [EvGet req (Inl err)]
        \<and> out = Return Result_empty (if IsNotFound err then None else Some err))
   \<or> (\<exists>inst err. Conditions (Status inst) = None
        \<and> tr = [EvGet req (Inr inst), EvStatusUpdate (initialised C K inst) (Some err)]
        \<and> out = Return Result_empty (Some err))
   \<or> (\<exists>inst d. Conditions (Status inst) = None
        \<and> tr = EvGet req (Inr inst) # EvStatusUpdate (initialised C K inst) None # d
        \<and> guarded_log P C K (initialised C K inst) out d)
   \<or> (\<exists>inst d. Conditions (Status inst) \<noteq> None
        \<and> tr = EvGet req (Inr inst) # d
        \<and> guarded_log P C K inst out d)"

text \<open>
  The events of a run up to the lookup of the workload, when every call before it
  succeeded.
\<close>

definition early_events ::
  "swift_consts \<Rightarrow> condition_consts \<Rightarrow> NamespacedName \<Rightarrow> SwiftStorage \<Rightarrow> event list"
where
  "early_events C K req inst =
     EvGet req (Inr inst) #
     (if Conditions (Status inst) = None then [EvStatusUpdate (initialised C K inst) None] else []) @
     [EvEnsureConfigMaps
        (getStorageConfigMapTemplates (loaded_instance C K inst) (GetLabelsStorage C)) None,
      EvGetConfigMap (Namespace inst, RingConfigMapName C) None,
      EvServiceCreateOrPatch (getStorageService C (loaded_instance C K inst)) (Result_empty, None),
      EvNetworkPolicyCreateOrPatch (getStorageNetworkPolicy C (loaded_instance C K inst))
        (Result_empty, None)]"


section \<open>The device manifest as the specification words it\<close>

text \<open>
  The claim of replica \<open>i\<close> is named \<^verbatim>\<open>{claim-prefix}-{name}-{i}\<close>; its manifest line is
  \<^verbatim>\<open>{name}-{i}.{name},d1,{capacity}\<close>; the manifest has one line per replica index in
  ascending order, the capacity being the bytes divided by \<open>10\<^sup>9\<close>.
\<close>

definition spec_claim_name :: "string \<Rightarrow> string \<Rightarrow> int \<Rightarrow> string" where
  "spec_claim_name prefix n i = prefix @ ''-'' @ n @ ''-'' @ Sprintf_d i"



section \<open>A small cluster to run the controller on\<close>

text \<open>
  Concrete values for the parameters, and a platform that keeps the resources in
  association lists (the newest entry first) and never fails except by reporting a
  resource as not found. They serve to evaluate the controller on concrete inputs.
\<close>

definition example_consts :: swift_consts where
  "example_consts =
     \<lparr>AccountServerPort = 6202, ContainerServerPort = 6201, ObjectServerPort = 6200,
      RsyncPort = 873, MemcachedPort = 11211, ClaimName = ''srv'',
      ServiceAccount = ''swift-swift'', RunAsUser = 42445,
      GetLabelsStorage = [(''app.kubernetes.io/name'', ''SwiftStorage'')],
      GetLabelsProxy = [(''app.kubernetes.io/name'', ''SwiftProxy'')],
      GetSecurityContext =
        \<lparr>sc_RunAsUser = Some 42445, sc_RunAsGroup = Some 42445, sc_RunAsNonRoot = Some True,
         sc_AllowPrivilegeEscalation = Some False\<rparr>,
      RingConfigMapName = ''swift-ring-files'', DeviceConfigMapName = ''swift-devices'',
      SwiftStorageReadyCondition = ''SwiftStorageReady''\<rparr>"

definition example_conditions :: condition_consts where
  "example_conditions =
     \<lparr>ReadyCondition = ''Ready'', InitReason = ''Init'', ReadyReason = ''Ready'',
      ReadyInitMessage = ''Setup started'', ReadyMessage = ''Setup complete''\<rparr>"

definition alpha :: "int32 \<Rightarrow> SwiftStorage" where
  "alpha n =
     \<lparr>Kind = ''SwiftStorage'', Name = ''alpha'', Namespace = ''openstack'', Labels = [],
      DeletionTimestamp = None,
      Spec =
        \<lparr>Replicas = n,
         ContainerImageAccount = ''swift-account'',
         ContainerImageContainer = ''swift-container'',
         ContainerImageObject = ''swift-object'',
         ContainerImageProxy = ''swift-proxy'',
         ContainerImageMemcached = ''memcached'',
         SwiftConfSecret = ''swift-conf'',
         StorageClass = ''local-storage'',
         StorageRequest = ''10Gi''\<rparr>,
      Status = \<lparr>Conditions = None\<rparr>\<rparr>"

definition alpha_key :: NamespacedName where
  "alpha_key = (''openstack'', ''alpha'')"

record cluster =
  cl_instances :: "(NamespacedName \<times> SwiftStorage) list"
  cl_configmaps :: "NamespacedName list"
  cl_workloads :: "(NamespacedName \<times> StatefulSet) list"
  cl_claims :: "(NamespacedName \<times> PersistentVolumeClaim) list"

definition key_of :: "'a ObjectMeta_scheme \<Rightarrow> NamespacedName" where
  "key_of obj = (Namespace obj, Name obj)"

definition lookup :: "(NamespacedName \<times> 'a) list \<Rightarrow> NamespacedName \<Rightarrow> error + 'a" where
  "lookup store key = (case map_of store key of None \<Rightarrow> Inl (NotFound (snd key)) | Some x \<Rightarrow> Inr x)"

definition cluster_platform :: "cluster platform" where
  "cluster_platform =
     \<lparr>client_Get = (\<lambda>key w. (lookup (cl_instances w) key, w)),
      client_Status_Update = (\<lambda>inst w.
        case map_of (cl_instances w) (key_of inst) of
          None \<Rightarrow> (Some (NotFound (Name inst)), w)
        | Some old \<Rightarrow>
            (None, w\<lparr>cl_instances := (key_of inst, old\<lparr>Status := Status inst\<rparr>) # cl_instances w\<rparr>)),
      client_Update = (\<lambda>inst w.
        case map_of (cl_instances w) (key_of inst) of
          None \<Rightarrow> (Some (NotFound (Name inst)), w)
        | Some old \<Rightarrow>
            (None, w\<lparr>cl_instances := (key_of inst, old\<lparr>Spec := Spec inst\<rparr>) # cl_instances w\<rparr>)),
      helper_NewHelper = (\<lambda>inst. None),
      lib_EnsureConfigMaps = (\<lambda>inst tpl w.
        (None, w\<lparr>cl_configmaps :=
                   map (\<lambda>t. (tpl_Namespace t, tpl_Name t)) tpl @ cl_configmaps w\<rparr>)),
      client_GetConfigMap = (\<lambda>key w.
        (if key \<in> set (cl_configmaps w) then None else Some (NotFound (snd key)), w)),
      lib_Service_CreateOrPatch = (\<lambda>svc ls timeout w. ((Result_empty, None), w)),
      lib_NetworkPolicy_CreateOrPatch = (\<lambda>np ls timeout w. ((Result_empty, None), w)),
      lib_GetStatefulSetWithName = (\<lambda>key w. (lookup (cl_workloads w) key, w)),
      lib_StatefulSet_CreateOrPatch = (\<lambda>sset timeout w.
        let live = (case map_of (cl_workloads w) (key_of sset) of
                      None \<Rightarrow> sset
                    | Some old \<Rightarrow> sset\<lparr>ss_Status := ss_Status old\<rparr>)
        in (((Result_empty, None), live),
            w\<lparr>cl_workloads := (key_of sset, live) # cl_workloads w\<rparr>)),
      client_GetClaim = (\<lambda>key w. (lookup (cl_claims w) key, w)),
      resource_ParseQuantity = (\<lambda>s.
        if s = ''10Gi'' then Some (QuantityInt64 10737418240) else None)\<rparr>"

definition bound_claim :: "string \<Rightarrow> int64 \<Rightarrow> NamespacedName \<times> PersistentVolumeClaim" where
  "bound_claim n bytes =
     ((''openstack'', n),
      \<lparr>Kind = ''PersistentVolumeClaim'', Name = n, Namespace = ''openstack'', Labels = [],
       DeletionTimestamp = None,
       pvc_Spec = \<lparr>pvc_StorageClassName = Some ''local-storage'', pvc_AccessModes = [ReadWriteOnce],
                   pvc_Requests = [(''storage'', QuantityInt64 bytes)]\<rparr>,
       pvc_Status = \<lparr>pvc_Capacity = [(''storage'', QuantityInt64 bytes)]\<rparr>\<rparr>)"

text \<open>A claim that exists and is still pending: no capacity is recorded in its status.\<close>

definition unbound_claim :: "string \<Rightarrow> NamespacedName \<times> PersistentVolumeClaim" where
  "unbound_claim n =
     ((''openstack'', n),
      \<lparr>Kind = ''PersistentVolumeClaim'', Name = n, Namespace = ''openstack'', Labels = [],
       DeletionTimestamp = None,
       pvc_Spec = \<lparr>pvc_StorageClassName = Some ''local-storage'', pvc_AccessModes = [ReadWriteOnce],
                   pvc_Requests = [(''storage'', QuantityInt64 10737418240)]\<rparr>,
       pvc_Status = \<lparr>pvc_Capacity = []\<rparr>\<rparr>)"

text \<open>A workload named like the DesiredState, with its replica count and ready replicas.\<close>

definition workload :: "int32 \<Rightarrow> int32 \<Rightarrow> NamespacedName \<times> StatefulSet" where
  "workload n ready =
     (alpha_key,
      \<lparr>Kind = ''StatefulSet'', Name = ''alpha'', Namespace = ''openstack'', Labels = [],
       DeletionTimestamp = None,
       ss_Spec =
         \<lparr>ss_ServiceName = ''alpha'', ss_Selector = None, ss_Replicas = Some n,
          ss_Template =
            \<lparr>tmpl_Labels = [],
             tmpl_Spec = \<lparr>pod_ServiceAccountName = [], pod_SecurityContext = None,
                          pod_Volumes = [], pod_InitContainers = [], pod_Containers = []\<rparr>\<rparr>,
          ss_VolumeClaimTemplates = []\<rparr>,
       ss_Status = \<lparr>ss_ReadyReplicas = ready\<rparr>\<rparr>)"

definition ring_bundle :: NamespacedName where
  "ring_bundle = (''openstack'', ''swift-ring-files'')"

text \<open>
  Clusters for the scenarios of the specification: both claims bound; the second claim
  missing; a claim that is still pending; no ring bundle; a workload with one replica not
  ready; a workload of three replicas with one requested, and with four requested; an
  instance marked for deletion.
\<close>

definition two_claims :: cluster where
  "two_claims =
     \<lparr>cl_instances = [(alpha_key, alpha 2)], cl_configmaps = [ring_bundle],
      cl_workloads = [workload 2 2],
      cl_claims = [bound_claim ''srv-alpha-0'' 10000000000,
                   bound_claim ''srv-alpha-1'' 21000000000]\<rparr>"

definition one_claim_missing :: cluster where
  "one_claim_missing =
     \<lparr>cl_instances = [(alpha_key, alpha 2)], cl_configmaps = [ring_bundle],
      cl_workloads = [workload 2 2],
      cl_claims = [bound_claim ''srv-alpha-0'' 10000000000]\<rparr>"

definition pending_claim :: cluster where
  "pending_claim =
     \<lparr>cl_instances = [(alpha_key, alpha 1)], cl_configmaps = [ring_bundle],
      cl_workloads = [workload 1 1],
      cl_claims = [unbound_claim ''srv-alpha-0'']\<rparr>"

definition ring_absent :: cluster where
  "ring_absent =
     \<lparr>cl_instances = [(alpha_key, alpha 1)], cl_configmaps = [],
      cl_workloads = [], cl_claims = []\<rparr>"

definition not_ready :: cluster where
  "not_ready =
     \<lparr>cl_instances = [(alpha_key, alpha 2)], cl_configmaps = [ring_bundle],
      cl_workloads = [workload 2 1],
      cl_claims = [bound_claim ''srv-alpha-0'' 10000000000,
                   bound_claim ''srv-alpha-1'' 21000000000]\<rparr>"

definition downsized :: cluster where
  "downsized =
     \<lparr>cl_instances = [(alpha_key, alpha 1)], cl_configmaps = [ring_bundle],
      cl_workloads = [workload 3 3],
      cl_claims = []\<rparr>"

definition regrown :: cluster where
  "regrown =
     \<lparr>cl_instances = [(alpha_key, alpha 4)], cl_configmaps = [ring_bundle],
      cl_workloads = [workload 3 3],
      cl_claims = []\<rparr>"

definition being_deleted :: cluster where
  "being_deleted =
     \<lparr>cl_instances = [(alpha_key, (alpha 1)\<lparr>DeletionTimestamp := Some 1\<rparr>)],
      cl_configmaps = [ring_bundle], cl_workloads = [], cl_claims = []\<rparr>"

text \<open>
  One reconciliation of \<^verbatim>\<open>openstack/alpha\<close> on a cluster.
\<close>

definition reconcile_alpha :: "cluster \<Rightarrow> outcome \<times> cluster state" where
  "reconcile_alpha w =
     Reconcile cluster_platform example_consts example_conditions alpha_key (w, [])"


section \<open>Verified properties\<close>

subsection \<open>Resource generators\<close>

text \<open>
  C6. The headless service lists exactly four ports, account, container, object and rsync
  in this order, each with the port number of the port table; no port is named
  \<^verbatim>\<open>memcached\<close>, and where the port table gives the cache its own number that number is
  not among the service's ports.
\<close>

theorem getStorageService_ports:
  "svc_Ports (svc_Spec (getStorageService C swiftstorage)) =
     [\<lparr>sp_Name = ''account'', sp_Port = AccountServerPort C, sp_Protocol = ProtocolTCP\<rparr>,
      \<lparr>sp_Name = ''container'', sp_Port = ContainerServerPort C, sp_Protocol = ProtocolTCP\<rparr>,
      \<lparr>sp_Name = ''object'', sp_Port = ObjectServerPort C, sp_Protocol = ProtocolTCP\<rparr>,
      \<lparr>sp_Name = ''rsync'', sp_Port = RsyncPort C, sp_Protocol = ProtocolTCP\<rparr>]
   \<and> ''memcached'' \<notin> sp_Name ` set (svc_Ports (svc_Spec (getStorageService C swiftstorage)))
   \<and> (MemcachedPort C \<notin>
          {AccountServerPort C, ContainerServerPort C, ObjectServerPort C, RsyncPort C}
        \<longrightarrow> MemcachedPort C \<notin>
              sp_Port ` set (svc_Ports (svc_Spec (getStorageService C swiftstorage))))"
  by (simp add: getStorageService_def Let_def)

theorem getStorageService_ports_witness:
  "MemcachedPort example_consts \<notin>
     {AccountServerPort example_consts, ContainerServerPort example_consts,
      ObjectServerPort example_consts, RsyncPort example_consts}
   \<and> map sp_Port (svc_Ports (svc_Spec (getStorageService example_consts (alpha 1))))
       = [6202, 6201, 6200, 873]
   \<and> MemcachedPort example_consts \<notin>
       sp_Port ` set (svc_Ports (svc_Spec (getStorageService example_consts (alpha 1))))"
proof -
  have distinct: "MemcachedPort example_consts \<notin>
     {AccountServerPort example_consts, ContainerServerPort example_consts,
      ObjectServerPort example_consts, RsyncPort example_consts}"
    by (simp add: example_consts_def)
  note ports = getStorageService_ports [of example_consts "alpha 1"]
  have "map sp_Port (svc_Ports (svc_Spec (getStorageService example_consts (alpha 1))))
       = [6202, 6201, 6200, 873]"
    using ports by (simp add: example_consts_def)
  moreover have "MemcachedPort example_consts \<notin>
       sp_Port ` set (svc_Ports (svc_Spec (getStorageService example_consts (alpha 1))))"
    using ports distinct by blast
  ultimately show ?thesis
    using distinct by blast
qed

text \<open>
  C7. The network policy has exactly two ingress rules. The first admits the account,
  container, object and rsync ports from pods with the storage labels; the second admits
  the account, container and object ports from pods with the proxy labels, and where the
  port table gives rsync its own number that number is not among the ports of the second
  rule.
\<close>

theorem getStorageNetworkPolicy_ingress:
  "np_Ingress (np_Spec (getStorageNetworkPolicy C swiftstorage)) =
     [\<lparr>rule_Ports =
         [\<lparr>npp_Protocol = None, npp_Port = Some (IntVal (AccountServerPort C))\<rparr>,
          \<lparr>npp_Protocol = None, npp_Port = Some (IntVal (ContainerServerPort C))\<rparr>,
          \<lparr>npp_Protocol = None, npp_Port = Some (IntVal (ObjectServerPort C))\<rparr>,
          \<lparr>npp_Protocol = None, npp_Port = Some (IntVal (RsyncPort C))\<rparr>],
       rule_From = [\<lparr>peer_PodSelector = Some (GetLabelsStorage C)\<rparr>]\<rparr>,
      \<lparr>rule_Ports =
         [\<lparr>npp_Protocol = None, npp_Port = Some (IntVal (AccountServerPort C))\<rparr>,
          \<lparr>npp_Protocol = None, npp_Port = Some (IntVal (ContainerServerPort C))\<rparr>,
          \<lparr>npp_Protocol = None, npp_Port = Some (IntVal (ObjectServerPort C))\<rparr>],
       rule_From = [\<lparr>peer_PodSelector = Some (GetLabelsProxy C)\<rparr>]\<rparr>]
   \<and> (RsyncPort C \<notin> {AccountServerPort C, ContainerServerPort C, ObjectServerPort C}
        \<longrightarrow> Some (IntVal (RsyncPort C)) \<notin>
              npp_Port ` set (rule_Ports (np_Ingress (np_Spec (getStorageNetworkPolicy C swiftstorage)) ! 1)))"
  by (simp add: getStorageNetworkPolicy_def Let_def FromInt32_def)

theorem getStorageNetworkPolicy_ingress_witness:
  "RsyncPort example_consts \<notin>
     {AccountServerPort example_consts, ContainerServerPort example_consts,
      ObjectServerPort example_consts}
   \<and> map (\<lambda>r. (map npp_Port (rule_Ports r), rule_From r))
         (np_Ingress (np_Spec (getStorageNetworkPolicy example_consts (alpha 1))))
       = [([Some (IntVal 6202), Some (IntVal 6201), Some (IntVal 6200), Some (IntVal 873)],
           [\<lparr>peer_PodSelector = Some [(''app.kubernetes.io/name'', ''SwiftStorage'')]\<rparr>]),
          ([Some (IntVal 6202), Some (IntVal 6201), Some (IntVal 6200)],
           [\<lparr>peer_PodSelector = Some [(''app.kubernetes.io/name'', ''SwiftProxy'')]\<rparr>])]
   \<and> Some (IntVal (RsyncPort example_consts)) \<notin>
       npp_Port ` set (rule_Ports
         (np_Ingress (np_Spec (getStorageNetworkPolicy example_consts (alpha 1))) ! 1))"
proof -
  have distinct: "RsyncPort example_consts \<notin>
     {AccountServerPort example_consts, ContainerServerPort example_consts,
      ObjectServerPort example_consts}"
    by (simp add: example_consts_def)
  note ingress = getStorageNetworkPolicy_ingress [of example_consts "alpha 1"]
  have "map (\<lambda>r. (map npp_Port (rule_Ports r), rule_From r))
         (np_Ingress (np_Spec (getStorageNetworkPolicy example_consts (alpha 1))))
       = [([Some (IntVal 6202), Some (IntVal 6201), Some (IntVal 6200), Some (IntVal 873)],
           [\<lparr>peer_PodSelector = Some [(''app.kubernetes.io/name'', ''SwiftStorage'')]\<rparr>]),
          ([Some (IntVal 6202), Some (IntVal 6201), Some (IntVal 6200)],
           [\<lparr>peer_PodSelector = Some [(''app.kubernetes.io/name'', ''SwiftProxy'')]\<rparr>])]"
    using ingress by (simp add: example_consts_def)
  moreover have "Some (IntVal (RsyncPort example_consts)) \<notin>
       npp_Port ` set (rule_Ports
         (np_Ingress (np_Spec (getStorageNetworkPolicy example_consts (alpha 1))) ! 1))"
    using ingress distinct by blast
  ultimately show ?thesis
    using distinct by blast
qed

text \<open>
  The commands in the list that \<^verbatim>\<open>getStorageContainers\<close> builds, and the place of that list
  in the workload: \<^verbatim>\<open>getStorageStatefulSet\<close> puts it into the pod template as the containers
  of the pod.
\<close>

lemma getStorageContainers_commands:
  "commands_of (getStorageContainers C swiftstorage) ''container-replicator''
     = [[''/usr/bin/swift-container-replicator'', ''/etc/swift/container-server.conf'', ''-v'']]
   \<and> commands_of (getStorageContainers C swiftstorage) ''container-auditor''
     = [[''/usr/bin/swift-container-replicator'', ''/etc/swift/container-server.conf'', ''-v'']]
   \<and> commands_of (getStorageContainers C swiftstorage) ''container-updater''
     = [[''/usr/bin/swift-container-replicator'', ''/etc/swift/container-server.conf'', ''-v'']]
   \<and> commands_of (getStorageContainers C swiftstorage) ''object-replicator''
     = [[''/usr/bin/swift-object-replicator'', ''/etc/swift/object-server.conf'', ''-v'']]
   \<and> commands_of (getStorageContainers C swiftstorage) ''object-auditor''
     = [[''/usr/bin/swift-object-replicator'', ''/etc/swift/object-server.conf'', ''-v'']]
   \<and> commands_of (getStorageContainers C swiftstorage) ''object-updater''
     = [[''/usr/bin/swift-object-replicator'', ''/etc/swift/object-server.conf'', ''-v'']]"
  by (simp add: getStorageContainers_def commands_of_def Let_def)

lemma getStorageStatefulSet_containers:
  assumes "getStorageStatefulSet C ParseQuantity swiftstorage ls = Some sset"
  shows "pod_Containers (tmpl_Spec (ss_Template (ss_Spec sset))) = getStorageContainers C swiftstorage"
  using assms by (auto simp: getStorageStatefulSet_def Let_def split: option.splits)

lemma getStorageStatefulSet_parses:
  "getStorageStatefulSet C ParseQuantity swiftstorage ls = None
     \<longleftrightarrow> ParseQuantity (StorageRequest (Spec swiftstorage)) = None"
  by (simp add: getStorageStatefulSet_def Let_def split: option.splits)

text \<open>
  C9. Let \<open>sset\<close> be the workload that \<^verbatim>\<open>getStorageStatefulSet\<close> generates (the storage request
  parses). In the containers of its pod template, the containers \<^verbatim>\<open>container-auditor\<close> and
  \<^verbatim>\<open>container-updater\<close> run the command of \<^verbatim>\<open>container-replicator\<close>, which is
  \<^verbatim>\<open>/usr/bin/swift-container-replicator\<close>, and the containers \<^verbatim>\<open>object-auditor\<close> and
  \<^verbatim>\<open>object-updater\<close> run the command of \<^verbatim>\<open>object-replicator\<close>, which is
  \<^verbatim>\<open>/usr/bin/swift-object-replicator\<close>. There is one container of each of these names.
\<close>

theorem getStorageStatefulSet_replicator_commands:
  assumes "getStorageStatefulSet C ParseQuantity swiftstorage ls = Some sset"
  shows "commands_of (pod_Containers (tmpl_Spec (ss_Template (ss_Spec sset)))) ''container-replicator''
     = [[''/usr/bin/swift-container-replicator'', ''/etc/swift/container-server.conf'', ''-v'']]
   \<and> commands_of (pod_Containers (tmpl_Spec (ss_Template (ss_Spec sset)))) ''container-auditor''
     = commands_of (pod_Containers (tmpl_Spec (ss_Template (ss_Spec sset)))) ''container-replicator''
   \<and> commands_of (pod_Containers (tmpl_Spec (ss_Template (ss_Spec sset)))) ''container-updater''
     = commands_of (pod_Containers (tmpl_Spec (ss_Template (ss_Spec sset)))) ''container-replicator''
   \<and> commands_of (pod_Containers (tmpl_Spec (ss_Template (ss_Spec sset)))) ''object-replicator''
     = [[''/usr/bin/swift-object-replicator'', ''/etc/swift/object-server.conf'', ''-v'']]
   \<and> commands_of (pod_Containers (tmpl_Spec (ss_Template (ss_Spec sset)))) ''object-auditor''
     = commands_of (pod_Containers (tmpl_Spec (ss_Template (ss_Spec sset)))) ''object-replicator''
   \<and> commands_of (pod_Containers (tmpl_Spec (ss_Template (ss_Spec sset)))) ''object-updater''
     = commands_of (pod_Containers (tmpl_Spec (ss_Template (ss_Spec sset)))) ''object-replicator''"
  unfolding getStorageStatefulSet_containers[OF assms]
  using getStorageContainers_commands[of C swiftstorage] by simp

text \<open>
  The workload generated for \<^verbatim>\<open>alpha\<close>, whose storage request \<^verbatim>\<open>10Gi\<close> parses.
\<close>

theorem getStorageStatefulSet_replicator_commands_witness:
  "getStorageStatefulSet example_consts (resource_ParseQuantity cluster_platform) (alpha 1)
       (GetLabelsStorage example_consts) \<noteq> None
   \<and> commands_of (pod_Containers (tmpl_Spec (ss_Template (ss_Spec (the
        (getStorageStatefulSet example_consts (resource_ParseQuantity cluster_platform) (alpha 1)
           (GetLabelsStorage example_consts)))))))
        ''container-auditor''
     = [[''/usr/bin/swift-container-replicator'', ''/etc/swift/container-server.conf'', ''-v'']]
   \<and> commands_of (pod_Containers (tmpl_Spec (ss_Template (ss_Spec (the
        (getStorageStatefulSet example_consts (resource_ParseQuantity cluster_platform) (alpha 1)
           (GetLabelsStorage example_consts)))))))
        ''object-updater''
     = [[''/usr/bin/swift-object-replicator'', ''/etc/swift/object-server.conf'', ''-v'']]"
proof -
  have "resource_ParseQuantity cluster_platform (StorageRequest (Spec (alpha 1))) \<noteq> None"
    by (simp add: cluster_platform_def alpha_def)
  then have "getStorageStatefulSet example_consts (resource_ParseQuantity cluster_platform) (alpha 1)
       (GetLabelsStorage example_consts) \<noteq> None"
    by (simp add: getStorageStatefulSet_parses)
  then obtain sset where
    generated: "getStorageStatefulSet example_consts (resource_ParseQuantity cluster_platform)
                  (alpha 1) (GetLabelsStorage example_consts) = Some sset"
    by blast
  from getStorageStatefulSet_replicator_commands[OF generated] show ?thesis
    unfolding generated by simp
qed


subsection \<open>The device manifest\<close>






subsection \<open>Calls and their logs\<close>

lemma reconcile_alpha_run:
  obtains out w' tr where
    "Reconcile cluster_platform example_consts example_conditions alpha_key (W, []) = (out, (w', tr))"
    "outcome_of (reconcile_alpha W) = out" "log_of (reconcile_alpha W) = tr"
  by (cases "Reconcile cluster_platform example_consts example_conditions alpha_key (W, [])")
     (auto simp: reconcile_alpha_def outcome_of_def log_of_def)

lemma call_eq:
  "call op ev (w, tr) = (a, (w', tr')) \<longleftrightarrow> op w = (a, w') \<and> tr' = tr @ [ev a]"
  by (auto simp: call_def split: prod.splits)

lemma claims_log_InrI: "claims_log (Inr devices) (found_claims cs)"
  by (auto simp: claims_log_def)

lemma claims_log_InlI: "claims_log (Inl err) (found_claims cs @ [EvGetClaim key (Inl err)])"
  by (auto simp: claims_log_def)

lemma claims_log_Cons:
  assumes "claims_log r d"
  shows "claims_log r (EvGetClaim key (Inr claim) # d)"
proof (cases r)
  case (Inr devs)
  with assms obtain cs where "d = found_claims cs"
    by (auto simp: claims_log_def)
  then have "EvGetClaim key (Inr claim) # d = found_claims ((key, claim) # cs)"
    by (simp add: found_claims_def)
  then show ?thesis
    unfolding Inr by (simp only: claims_log_InrI)
next
  case (Inl err)
  with assms obtain k cs where "d = found_claims cs @ [EvGetClaim k (Inl err)]"
    by (auto simp: claims_log_def)
  then have "EvGetClaim key (Inr claim) # d
               = found_claims ((key, claim) # cs) @ [EvGetClaim k (Inl err)]"
    by (simp add: found_claims_def)
  then show ?thesis
    unfolding Inl by (simp only: claims_log_InlI)
qed

lemma getDeviceList_loop_log:
  "getDeviceList_loop P C inst k devices s = (r, s')
     \<Longrightarrow> \<exists>d. snd s' = snd s @ d \<and> claims_log r d"
proof (induction P C inst k devices s rule: getDeviceList_loop.induct)
  case (1 P C inst replica devices s)
  show ?case
  proof (cases "replica < sint (Replicas (Spec inst))")
    case False
    with "1.prems" have "r = Inr devices" "s' = s"
      by (subst (asm) getDeviceList_loop.simps, auto)+
    then have "snd s' = snd s @ []" "claims_log r (found_claims [])"
      by (simp_all add: claims_log_InrI)
    then show ?thesis
      unfolding found_claims_def by auto
  next
    case True
    let ?key = "(Namespace inst, ClaimName C @ ''-'' @ Name inst @ ''-'' @ Sprintf_d replica)"
    obtain a w1 where get: "client_GetClaim P ?key (fst s) = (a, w1)"
      by (cases "client_GetClaim P ?key (fst s)")
    then have c: "h_GetClient_Get P ?key s = (a, (w1, snd s @ [EvGetClaim ?key a]))"
      by (simp add: h_GetClient_Get_def call_def)
    show ?thesis
    proof (cases a)
      case (Inl err)
      with "1.prems" True c have "r = Inl err" "snd s' = snd s @ [EvGetClaim ?key (Inl err)]"
        by (subst (asm) getDeviceList_loop.simps, auto simp add: Let_def)+
      moreover have "claims_log (Inl err) (found_claims [] @ [EvGetClaim ?key (Inl err)])"
        by (rule claims_log_InlI)
      ultimately show ?thesis
        by (auto simp: found_claims_def)
    next
      case (Inr claim)
      note IH = "1.IH"[OF True refl c[unfolded Inr, symmetric] refl refl refl refl refl]
      from "1.prems" True c Inr have
        "\<exists>d. snd s' = (snd s @ [EvGetClaim ?key (Inr claim)]) @ d \<and> claims_log r d"
        apply (subst (asm) getDeviceList_loop.simps)
        apply (simp only: if_True Let_def prod.case sum.case)
        apply (drule IH)
        apply (simp only: snd_conv)
        done
      then obtain d where d: "snd s' = snd s @ EvGetClaim ?key (Inr claim) # d" "claims_log r d"
        by auto
      from claims_log_Cons[OF d(2)] d(1) show ?thesis
        by blast
    qed
  qed
qed

lemma getDeviceList_log:
  "getDeviceList P C inst (w, tr) = (r, (w', tr')) \<Longrightarrow> \<exists>d. tr' = tr @ d \<and> claims_log r d"
  unfolding getDeviceList_def by (drule getDeviceList_loop_log) simp

lemmas call_defs = r_Get_def r_Status_Update_def r_Client_Update_def configmap_EnsureConfigMaps_def
  configmap_GetConfigMap_def service_CreateOrPatch_def networkpolicy_CreateOrPatch_def
  statefulset_GetStatefulSetWithName_def statefulset_CreateOrPatch_def h_GetClient_Get_def

lemma found_claims_mem [simp]:
  "x \<in> set (found_claims cs) \<longleftrightarrow> (\<exists>key claim. (key, claim) \<in> set cs \<and> x = EvGetClaim key (Inr claim))"
  by (auto simp: found_claims_def)

lemma claims_log_kinds: "claims_log r d \<Longrightarrow> \<forall>e\<in>set d. kind_of e = KGetClaim"
  by (cases r) (auto simp: claims_log_def)

lemma readiness_kinds:
  assumes "Reconcile_readiness P C K inst live (w, tr) = (out, (w', tr'))"
  shows "\<exists>d. tr' = tr @ d \<and> (\<forall>e\<in>set d. kind_of e \<notin> {KGet, KGetConfigMap, KServiceCreateOrPatch,
        KNetworkPolicyCreateOrPatch, KGetStatefulSet, KUpdate, KStatefulSetCreateOrPatch})"
proof (cases "ss_ReadyReplicas (ss_Status live) = Replicas (Spec inst)")
  case False
  with assms show ?thesis by (simp add: Reconcile_readiness_def)
next
  case True
  obtain r w1 tr1 where g: "getDeviceList P C inst (w, tr) = (r, (w1, tr1))"
    by (metis surj_pair)
  then obtain dc where dc: "tr1 = tr @ dc" "claims_log r dc"
    by (blast dest: getDeviceList_log)
  from claims_log_kinds[OF dc(2)] have k: "\<forall>e\<in>set dc. kind_of e = KGetClaim" .
  show ?thesis
    using assms True g dc(1) k
    unfolding Reconcile_readiness_def call_defs
    by (auto simp: call_eq Let_def split: prod.splits sum.splits option.splits)
qed

lemma apply_kinds:
  assumes "Reconcile_apply P C K inst ls (w, tr) = (out, (w', tr'))"
  shows "\<exists>d. tr' = tr @ d \<and>
    (\<forall>e\<in>set d. kind_of e \<notin> {KGet, KGetConfigMap, KServiceCreateOrPatch,
        KNetworkPolicyCreateOrPatch, KGetStatefulSet, KUpdate})"
  using assms unfolding Reconcile_apply_def call_defs
  by (auto simp: call_eq Let_def split: prod.splits sum.splits option.splits if_splits
        dest!: readiness_kinds)

lemma workload_kinds:
  assumes "Reconcile_workload P C K inst ls cr (w, tr) = (out, (w', tr'))"
  shows "\<exists>d. tr' = tr @ d \<and>
    (\<forall>e\<in>set d. kind_of e \<notin> {KGet, KGetConfigMap, KServiceCreateOrPatch,
        KNetworkPolicyCreateOrPatch})"
  using assms unfolding Reconcile_workload_def call_defs
  by (auto simp: call_eq Let_def split: prod.splits sum.splits option.splits if_splits
        dest!: apply_kinds)

lemma network_kinds:
  assumes "Reconcile_network P C K inst ls (w, tr) = (out, (w', tr'))"
  shows "\<exists>d. tr' = tr @ d \<and>
    (\<forall>e\<in>set d. kind_of e \<notin> {KGet, KGetConfigMap})"
  using assms unfolding Reconcile_network_def call_defs
  by (auto simp: call_eq Let_def split: prod.splits sum.splits option.splits if_splits
        dest!: workload_kinds)


subsection \<open>Initial conditions\<close>

lemma Set_cond_types: "cond_types (Set_cond c cs) = insert (cond_Type c) (cond_types cs)"
  by (induction cs) (auto simp: cond_types_def)

lemma Set_cond_all: "P c \<Longrightarrow> \<forall>x\<in>set cs. P x \<Longrightarrow> \<forall>x\<in>set (Set_cond c cs). P x"
  by (induction cs) auto

lemma foldl_Set_cond_types:
  "cond_types (foldl (\<lambda>cs c. Set_cond c cs) cs0 cl) = cond_Type ` set cl \<union> cond_types cs0"
  by (induction cl arbitrary: cs0) (auto simp: Set_cond_types)

lemma foldl_Set_cond_all:
  "\<forall>x\<in>set cl. P x \<Longrightarrow> \<forall>x\<in>set cs0. P x \<Longrightarrow> \<forall>x\<in>set (foldl (\<lambda>cs c. Set_cond c cs) cs0 cl). P x"
proof (induction cl arbitrary: cs0)
  case Nil
  then show ?case by simp
next
  case (Cons c cl)
  have "\<forall>x\<in>set (Set_cond c cs0). P x"
    using Cons.prems by (intro Set_cond_all) simp_all
  with Cons show ?case by simp
qed

lemma init_list_types:
  "cond_types (init_list C K) = {ReadyCondition K, SwiftStorageReadyCondition C}"
  by (auto simp: init_list_def Init_cond_def foldl_Set_cond_types Set_cond_types UnknownCondition_def
        cond_types_def)

lemma init_list_unknown: "\<forall>c\<in>set (init_list C K). cond_Status c = ConditionUnknown"
  unfolding init_list_def Init_cond_def
  by (rule foldl_Set_cond_all) (simp_all add: UnknownCondition_def)

lemma initialised_simps [simp]:
  "Conditions (Status (initialised C K inst)) = Some (init_list C K)"
  "Spec (initialised C K inst) = Spec inst"
  "Name (initialised C K inst) = Name inst"
  "Namespace (initialised C K inst) = Namespace inst"
  "Kind (initialised C K inst) = Kind inst"
  "DeletionTimestamp (initialised C K inst) = DeletionTimestamp inst"
  by (simp_all add: initialised_def)

lemma initialised_alt:
  "Conditions (Status inst) = None \<Longrightarrow>
   with_Conditions (Init_cond K
       [UnknownCondition (ReadyCondition K) (InitReason K) (ReadyInitMessage K),
        UnknownCondition (SwiftStorageReadyCondition C) (InitReason K) (ReadyInitMessage K)])
     (inst\<lparr>Status := (Status inst)\<lparr>Conditions := Some []\<rparr>\<rparr>) = initialised C K inst"
  by (simp add: initialised_def init_list_def with_Conditions_def)

lemma init_cases:
  assumes "Reconcile_initConditions P C K inst (w, tr) = (r, (w', tr'))"
  shows "(Conditions (Status inst) \<noteq> None \<and> r = Inr inst \<and> w' = w \<and> tr' = tr)
       \<or> (Conditions (Status inst) = None \<and>
           (\<exists>e. client_Status_Update P (initialised C K inst) w = (e, w')
              \<and> tr' = tr @ [EvStatusUpdate (initialised C K inst) e]
              \<and> r = (case e of None \<Rightarrow> Inr (initialised C K inst) | Some err \<Rightarrow> Inl err)))"
proof (cases "Conditions (Status inst) = None")
  case False
  with assms show ?thesis by (auto simp: Reconcile_initConditions_def)
next
  case True
  obtain e w1 where u: "client_Status_Update P (initialised C K inst) w = (e, w1)"
    by (metis surj_pair)
  with assms True show ?thesis
    unfolding Reconcile_initConditions_def Let_def initialised_alt[OF True] r_Status_Update_def
    by (cases e) (simp_all add: call_def)
qed

text \<open>
  C10. When the instance that \<^verbatim>\<open>Get\<close> returns has no condition list and carries a deletion
  timestamp, the reconciliation makes exactly two calls: the \<^verbatim>\<open>Get\<close>, and a status update
  of the instance with a condition list that holds the generic ready condition and the
  storage ready condition, every entry unknown. It then returns what the status update
  returned, nothing else having been called.
\<close>

theorem Reconcile_conditions_before_deletion:
  assumes run: "Reconcile P C K req (w, []) = (out, (w', tr))"
    and get: "client_Get P req w = (Inr inst, w1)"
    and nil: "Conditions (Status inst) = None"
    and del: "DeletionTimestamp inst \<noteq> None"
  shows "\<exists>cs e. tr = [EvGet req (Inr inst),
                      EvStatusUpdate (inst\<lparr>Status := (Status inst)\<lparr>Conditions := Some cs\<rparr>\<rparr>) e]
           \<and> cond_types cs = {ReadyCondition K, SwiftStorageReadyCondition C}
           \<and> (\<forall>c\<in>set cs. cond_Status c = ConditionUnknown)
           \<and> out = Return Result_empty e"
proof -
  obtain r w2 tr2 where i: "Reconcile_initConditions P C K inst (w1, [EvGet req (Inr inst)]) = (r, (w2, tr2))"
    by (metis surj_pair)
  from init_cases[OF i] nil obtain e where
    e: "tr2 = [EvGet req (Inr inst), EvStatusUpdate (initialised C K inst) e]"
       "r = (case e of None \<Rightarrow> Inr (initialised C K inst) | Some err \<Rightarrow> Inl err)"
    by auto
  have "tr = tr2 \<and> out = Return Result_empty e"
    using run get i e del
    unfolding Reconcile_def r_Get_def
    by (cases e) (simp_all add: call_def)
  then show ?thesis
    using e(1) init_list_types[of C K] init_list_unknown[of C K]
    unfolding initialised_def by blast
qed

text \<open>
  The instance \<^verbatim>\<open>alpha\<close>, marked for deletion.
\<close>

theorem Reconcile_conditions_before_deletion_witness:
  "client_Get cluster_platform alpha_key being_deleted
     = (Inr ((alpha 1)\<lparr>DeletionTimestamp := Some 1\<rparr>), being_deleted)
   \<and> Conditions (Status ((alpha 1)\<lparr>DeletionTimestamp := Some 1\<rparr>)) = None
   \<and> DeletionTimestamp ((alpha 1)\<lparr>DeletionTimestamp := Some 1\<rparr>) \<noteq> None
   \<and> map kind_of (log_of (reconcile_alpha being_deleted)) = [KGet, KStatusUpdate]"
proof -
  obtain out w' tr where
    run: "Reconcile cluster_platform example_consts example_conditions alpha_key (being_deleted, [])
            = (out, (w', tr))"
    and tr: "log_of (reconcile_alpha being_deleted) = tr"
    by (rule reconcile_alpha_run)
  have get: "client_Get cluster_platform alpha_key being_deleted
     = (Inr ((alpha 1)\<lparr>DeletionTimestamp := Some 1\<rparr>), being_deleted)"
    by (simp add: cluster_platform_def being_deleted_def lookup_def)
  have nil: "Conditions (Status ((alpha 1)\<lparr>DeletionTimestamp := Some 1\<rparr>)) = None"
    by (simp add: alpha_def)
  have del: "DeletionTimestamp ((alpha 1)\<lparr>DeletionTimestamp := Some 1\<rparr>) \<noteq> None"
    by simp
  from Reconcile_conditions_before_deletion[OF run get nil del] have "map kind_of tr = [KGet, KStatusUpdate]"
    by auto
  with get nil del show ?thesis
    unfolding tr by simp
qed


subsection \<open>The lookup of the ring bundle\<close>

lemma Reconcile_ring_lookup:
  assumes run: "Reconcile P C K req (w, []) = (out, (w', tr))"
  shows "(\<forall>key err. EvGetConfigMap key (Some err) \<in> set tr \<and> IsNotFound err \<longrightarrow>
            out = Return \<lparr>Requeue = False, RequeueAfter = 5 * Second\<rparr> None
          \<and> snd key = RingConfigMapName C
          \<and> last tr = EvGetConfigMap key (Some err)
          \<and> (map kind_of tr = [KGet, KEnsureConfigMaps, KGetConfigMap]
              \<or> map kind_of tr = [KGet, KStatusUpdate, KEnsureConfigMaps, KGetConfigMap]))
       \<and> ((\<exists>e\<in>set tr. kind_of e = KStatefulSetCreateOrPatch) \<longrightarrow>
            happens_before (ring_found C) (\<lambda>e. kind_of e = KStatefulSetCreateOrPatch) tr)"
  using assms
  unfolding Reconcile_def Reconcile_config_def r_Get_def configmap_EnsureConfigMaps_def
    configmap_GetConfigMap_def
  apply (clarsimp simp: call_eq Let_def Second_def Result_empty_def happens_before_def
        split: prod.splits sum.splits option.splits if_splits
        dest!: init_cases network_kinds)
  apply force+
  done


subsection \<open>Every run leaves one of the described logs\<close>

lemma readiness_sound:
  assumes "Reconcile_readiness P C K inst live (w, tr) = (out, (w', tr'))"
  shows "\<exists>d. tr' = tr @ d \<and> readiness_log C K inst live out d"
proof (cases "ss_ReadyReplicas (ss_Status live) = Replicas (Spec inst)")
  case False
  with assms show ?thesis by (simp add: Reconcile_readiness_def readiness_log_def)
next
  case True
  obtain r w1 tr1 where g: "getDeviceList P C inst (w, tr) = (r, (w1, tr1))"
    by (metis surj_pair)
  then obtain dc where dc: "tr1 = tr @ dc" "claims_log r dc"
    by (blast dest: getDeviceList_log)
  show ?thesis
  proof (cases r)
    case (Inl err)
    with dc obtain cs key where "dc = found_claims cs @ [EvGetClaim key (Inl err)]"
      by (auto simp: claims_log_def)
    with assms True g dc Inl show ?thesis
      by (auto simp: Reconcile_readiness_def readiness_log_def)
  next
    case (Inr devices)
    with dc obtain cs where "dc = found_claims cs"
      by (auto simp: claims_log_def)
    with assms True g dc Inr show ?thesis
      unfolding Reconcile_readiness_def readiness_log_def marked_ready_def
        configmap_EnsureConfigMaps_def r_Status_Update_def
      by (auto simp: call_eq Let_def split: prod.splits option.splits)
  qed
qed

lemma apply_sound:
  assumes "Reconcile_apply P C K inst ls (w, tr) = (out, (w', tr'))"
  shows "\<exists>d. tr' = tr @ d \<and> apply_log P C K inst ls out d"
  using assms unfolding Reconcile_apply_def apply_log_def statefulset_CreateOrPatch_def
  by (fastforce simp: call_eq split: prod.splits option.splits if_splits dest!: readiness_sound)

lemma workload_sound:
  assumes "Reconcile_workload P C K inst ls cr (w, tr) = (out, (w', tr'))"
  shows "\<exists>d. tr' = tr @ d \<and> workload_log P C K inst ls cr out d"
  using assms unfolding Reconcile_workload_def workload_log_def statefulset_GetStatefulSetWithName_def
    r_Client_Update_def resized_def
  by (fastforce simp: call_eq Let_def split: prod.splits sum.splits option.splits if_splits
        dest!: apply_sound)

lemma statefulset_replicas:
  "getStorageStatefulSet C pq inst ls = Some sset
     \<Longrightarrow> ss_Replicas (ss_Spec sset) = Some (Replicas (Spec inst))
       \<and> Name sset = Name inst \<and> Namespace sset = Namespace inst"
  by (auto simp: getStorageStatefulSet_def Let_def split: option.splits)

lemma statefulset_replicas_simp:
  "getStorageStatefulSet C pq inst ls = Some sset
     \<Longrightarrow> ss_Replicas (ss_Spec sset) = Some (Replicas (Spec inst))"
  by (simp add: statefulset_replicas)

lemma apply_facts [rule_format]:
  assumes "apply_log P C K inst ls out d"
  shows "(\<forall>x\<in>set d. kind_of x \<notin> {KGet, KGetConfigMap, KServiceCreateOrPatch,
            KNetworkPolicyCreateOrPatch, KGetStatefulSet, KUpdate})"
    and "\<forall>sset a. EvStatefulSetCreateOrPatch sset a \<in> set d \<longrightarrow>
           ss_Replicas (ss_Spec sset) = Some (Replicas (Spec inst)) \<and> hd d = EvStatefulSetCreateOrPatch sset a"
    and "\<forall>sset res e live. EvStatefulSetCreateOrPatch sset ((res, e), live) \<in> set d
            \<and> ss_ReadyReplicas (ss_Status live) \<noteq> Replicas (Spec inst)
          \<longrightarrow> d = [EvStatefulSetCreateOrPatch sset ((res, e), live)]"
    and "\<forall>i e. EvStatusUpdate i e \<in> set d \<longrightarrow>
           i = marked_ready C K inst \<and> last d = EvStatusUpdate i e \<and> out = Return Result_empty e \<and>
           (\<exists>sset live. hd d = EvStatefulSetCreateOrPatch sset ((Result_empty, None), live)
              \<and> ss_ReadyReplicas (ss_Status live) = Replicas (Spec inst))"
    and "\<forall>key err. EvGetClaim key (Inl err) \<in> set d \<longrightarrow>
           out = Return Result_empty (Some err) \<and> last d = EvGetClaim key (Inl err) \<and>
           (\<forall>x\<in>set d. kind_of x \<notin> {KStatusUpdate, KEnsureConfigMaps})"
    and "\<forall>tpl e. EvEnsureConfigMaps tpl e \<in> set d \<longrightarrow>
           (\<exists>sset live. hd d = EvStatefulSetCreateOrPatch sset ((Result_empty, None), live)
              \<and> ss_ReadyReplicas (ss_Status live) = Replicas (Spec inst))"
    and "\<forall>x\<in>set d. kind_of x = KGetClaim \<longrightarrow>
           (\<exists>sset live. hd d = EvStatefulSetCreateOrPatch sset ((Result_empty, None), live)
              \<and> ss_ReadyReplicas (ss_Status live) = Replicas (Spec inst))"
proof -
  show "(\<forall>x\<in>set d. kind_of x \<notin> {KGet, KGetConfigMap, KServiceCreateOrPatch,
            KNetworkPolicyCreateOrPatch, KGetStatefulSet, KUpdate})"
    using assms unfolding apply_log_def readiness_log_def
    by (auto simp: statefulset_replicas_simp split: option.splits)
  show "\<forall>sset a. EvStatefulSetCreateOrPatch sset a \<in> set d \<longrightarrow>
           ss_Replicas (ss_Spec sset) = Some (Replicas (Spec inst)) \<and> hd d = EvStatefulSetCreateOrPatch sset a"
    using assms unfolding apply_log_def readiness_log_def
    by (auto simp: statefulset_replicas_simp split: option.splits)
  show "\<forall>sset res e live. EvStatefulSetCreateOrPatch sset ((res, e), live) \<in> set d
            \<and> ss_ReadyReplicas (ss_Status live) \<noteq> Replicas (Spec inst)
          \<longrightarrow> d = [EvStatefulSetCreateOrPatch sset ((res, e), live)]"
    using assms unfolding apply_log_def readiness_log_def
    by (auto simp: statefulset_replicas_simp split: option.splits)
  show "\<forall>i e. EvStatusUpdate i e \<in> set d \<longrightarrow>
           i = marked_ready C K inst \<and> last d = EvStatusUpdate i e \<and> out = Return Result_empty e \<and>
           (\<exists>sset live. hd d = EvStatefulSetCreateOrPatch sset ((Result_empty, None), live)
              \<and> ss_ReadyReplicas (ss_Status live) = Replicas (Spec inst))"
    using assms unfolding apply_log_def readiness_log_def
    by (auto simp: statefulset_replicas_simp split: option.splits)
  show "\<forall>key err. EvGetClaim key (Inl err) \<in> set d \<longrightarrow>
           out = Return Result_empty (Some err) \<and> last d = EvGetClaim key (Inl err) \<and>
           (\<forall>x\<in>set d. kind_of x \<notin> {KStatusUpdate, KEnsureConfigMaps})"
    using assms unfolding apply_log_def readiness_log_def
    by (auto simp: statefulset_replicas_simp split: option.splits)
  show "\<forall>tpl e. EvEnsureConfigMaps tpl e \<in> set d \<longrightarrow>
           (\<exists>sset live. hd d = EvStatefulSetCreateOrPatch sset ((Result_empty, None), live)
              \<and> ss_ReadyReplicas (ss_Status live) = Replicas (Spec inst))"
    using assms unfolding apply_log_def readiness_log_def
    by (auto simp: statefulset_replicas_simp split: option.splits)
  show "\<forall>x\<in>set d. kind_of x = KGetClaim \<longrightarrow>
           (\<exists>sset live. hd d = EvStatefulSetCreateOrPatch sset ((Result_empty, None), live)
              \<and> ss_ReadyReplicas (ss_Status live) = Replicas (Spec inst))"
    using assms unfolding apply_log_def readiness_log_def
    by (auto simp: statefulset_replicas_simp split: option.splits)
qed

lemma network_sound:
  assumes "Reconcile_network P C K inst ls (w, tr) = (out, (w', tr'))"
  shows "\<exists>d. tr' = tr @ d \<and> network_log P C K inst ls out d"
  using assms unfolding Reconcile_network_def network_log_def service_CreateOrPatch_def
    networkpolicy_CreateOrPatch_def
  by (fastforce simp: call_eq Let_def split: prod.splits sum.splits option.splits if_splits
        dest!: workload_sound)

lemma config_sound:
  assumes "Reconcile_config P C K inst (w, tr) = (out, (w', tr'))"
  shows "\<exists>d. tr' = tr @ d \<and> config_log P C K inst out d"
  using assms unfolding Reconcile_config_def config_log_def configmap_EnsureConfigMaps_def
    configmap_GetConfigMap_def
  by (fastforce simp: call_eq Let_def Second_def Result_empty_def
        split: prod.splits sum.splits option.splits if_splits
        dest!: network_sound)

lemma Reconcile_sound:
  assumes "Reconcile P C K req (w, []) = (out, (w', tr))"
  shows "Reconcile_log P C K req out tr"
  using assms unfolding Reconcile_def Reconcile_log_def guarded_log_def r_Get_def
  by (fastforce simp: call_eq Let_def split: prod.splits sum.splits option.splits if_splits
        dest!: init_cases config_sound)

lemma workload_cases [consumes 1, case_names lookup_failed nil_replicas update_failed absent kept resized]:
  assumes "workload_log P C K inst ls cr out d"
  obtains
    (lookup_failed) err where
      "d = [EvGetStatefulSet (Namespace inst, Name inst) (Inl err)]" "\<not> IsNotFound err"
      "out = Return cr (Some err)"
  | (nil_replicas) found where
      "d = [EvGetStatefulSet (Namespace inst, Name inst) (Inr found)]"
      "ss_Replicas (ss_Spec found) = None" "out = Panic ''nil pointer dereference''"
  | (update_failed) found f err where
      "d = [EvGetStatefulSet (Namespace inst, Name inst) (Inr found),
            EvUpdate (resized f inst) (Some err)]"
      "ss_Replicas (ss_Spec found) = Some f" "sint (Replicas (Spec inst)) < sint f"
      "out = Return Result_empty (Some err)"
  | (absent) err A where
      "d = EvGetStatefulSet (Namespace inst, Name inst) (Inl err) # A" "IsNotFound err"
      "apply_log P C K inst ls out A"
  | (kept) found f A where
      "d = EvGetStatefulSet (Namespace inst, Name inst) (Inr found) # A"
      "ss_Replicas (ss_Spec found) = Some f" "\<not> sint (Replicas (Spec inst)) < sint f"
      "apply_log P C K inst ls out A"
  | (resized) found f A where
      "d = EvGetStatefulSet (Namespace inst, Name inst) (Inr found)
             # EvUpdate (resized f inst) None # A"
      "ss_Replicas (ss_Spec found) = Some f" "sint (Replicas (Spec inst)) < sint f"
      "apply_log P C K (resized f inst) ls out A"
  using assms unfolding workload_log_def
  by blast

lemma network_late:
  assumes "network_log P C K inst ls out d" "\<exists>x\<in>set d. late_event x"
  shows "\<exists>d'. d = [EvServiceCreateOrPatch (getStorageService C inst) (Result_empty, None),
                    EvNetworkPolicyCreateOrPatch (getStorageNetworkPolicy C inst) (Result_empty, None)]
                   @ d'
              \<and> workload_log P C K inst ls Result_empty out d'"
  using assms unfolding network_log_def late_event_def by auto

lemma config_late:
  assumes "config_log P C K inst out d" "\<exists>x\<in>set d. late_event x"
  shows "\<exists>d'. d = [EvEnsureConfigMaps (getStorageConfigMapTemplates inst (GetLabelsStorage C)) None,
                    EvGetConfigMap (Namespace inst, RingConfigMapName C) None,
                    EvServiceCreateOrPatch (getStorageService C inst) (Result_empty, None),
                    EvNetworkPolicyCreateOrPatch (getStorageNetworkPolicy C inst) (Result_empty, None)]
                   @ d'
              \<and> workload_log P C K inst (GetLabelsStorage C) Result_empty out d'"
proof -
  from assms obtain d1 where
    d1: "d = EvEnsureConfigMaps (getStorageConfigMapTemplates inst (GetLabelsStorage C)) None
              # EvGetConfigMap (Namespace inst, RingConfigMapName C) None # d1"
        "network_log P C K inst (GetLabelsStorage C) out d1"
    unfolding config_log_def late_event_def by auto
  with assms(2) have "\<exists>x\<in>set d1. late_event x"
    by (auto simp: late_event_def)
  from network_late[OF d1(2) this] d1(1) show ?thesis
    by auto
qed

lemma Reconcile_log_cases [consumes 1, case_names not_loaded init_failed fresh known]:
  assumes "Reconcile_log P C K req out tr"
  obtains
    (not_loaded) err where "tr = [EvGet req (Inl err)]"
      "out = Return Result_empty (if IsNotFound err then None else Some err)"
  | (init_failed) inst err where "Conditions (Status inst) = None"
      "tr = [EvGet req (Inr inst), EvStatusUpdate (initialised C K inst) (Some err)]"
      "out = Return Result_empty (Some err)"
  | (fresh) inst d where "Conditions (Status inst) = None"
      "tr = EvGet req (Inr inst) # EvStatusUpdate (initialised C K inst) None # d"
      "guarded_log P C K (initialised C K inst) out d"
  | (known) inst d where "Conditions (Status inst) \<noteq> None"
      "tr = EvGet req (Inr inst) # d" "guarded_log P C K inst out d"
  using assms unfolding Reconcile_log_def by blast

lemma Reconcile_late:
  assumes "Reconcile_log P C K req out tr" "\<exists>x\<in>set tr. late_event x"
  shows "\<exists>inst d. DeletionTimestamp inst = None \<and> tr = early_events C K req inst @ d
           \<and> workload_log P C K (loaded_instance C K inst) (GetLabelsStorage C) Result_empty out d"
proof -
  from assms(1) show ?thesis
  proof (cases rule: Reconcile_log_cases)
    case (not_loaded err)
    with assms(2) show ?thesis by (simp add: late_event_def)
  next
    case (init_failed inst err)
    with assms(2) show ?thesis by (simp add: late_event_def)
  next
    case (fresh inst d)
    with assms(2) have l: "\<exists>x\<in>set d. late_event x"
      by (auto simp: late_event_def)
    with fresh(3) have del: "DeletionTimestamp inst = None"
      and c: "config_log P C K (initialised C K inst) out d"
      by (auto simp: guarded_log_def)
    from config_late[OF c l] obtain d2 where
      "d = [EvEnsureConfigMaps (getStorageConfigMapTemplates (initialised C K inst) (GetLabelsStorage C)) None,
                    EvGetConfigMap (Namespace (initialised C K inst), RingConfigMapName C) None,
                    EvServiceCreateOrPatch (getStorageService C (initialised C K inst)) (Result_empty, None),
                    EvNetworkPolicyCreateOrPatch (getStorageNetworkPolicy C (initialised C K inst)) (Result_empty, None)]
                   @ d2"
      "workload_log P C K (initialised C K inst) (GetLabelsStorage C) Result_empty out d2"
      by blast
    with fresh(1,2) del show ?thesis
      by (intro exI[of _ inst] exI[of _ d2]) (simp add: early_events_def loaded_instance_def)
  next
    case (known inst d)
    with assms(2) have l: "\<exists>x\<in>set d. late_event x"
      by (auto simp: late_event_def)
    with known(3) have del: "DeletionTimestamp inst = None"
      and c: "config_log P C K inst out d"
      by (auto simp: guarded_log_def)
    from config_late[OF c l] obtain d2 where
      "d = [EvEnsureConfigMaps (getStorageConfigMapTemplates inst (GetLabelsStorage C)) None,
                    EvGetConfigMap (Namespace inst, RingConfigMapName C) None,
                    EvServiceCreateOrPatch (getStorageService C inst) (Result_empty, None),
                    EvNetworkPolicyCreateOrPatch (getStorageNetworkPolicy C inst) (Result_empty, None)]
                   @ d2"
      "workload_log P C K inst (GetLabelsStorage C) Result_empty out d2"
      by blast
    with known(1,2) del show ?thesis
      by (intro exI[of _ inst] exI[of _ d2]) (auto simp: early_events_def loaded_instance_def)
  qed
qed

lemma workload_is_late: "workload_log P C K i ls cr out d \<Longrightarrow> \<exists>x\<in>set d. late_event x"
  by (erule workload_cases) (auto simp: late_event_def)

lemma Reconcile_early:
  assumes "Reconcile_log P C K req out tr" "\<not> (\<exists>x\<in>set tr. late_event x)"
  shows "(\<forall>i e. EvStatusUpdate i e \<in> set tr \<longrightarrow>
            (\<exists>inst. hd tr = EvGet req (Inr inst) \<and> i = initialised C K inst
                  \<and> Conditions (Status inst) = None))
       \<and> (\<forall>tpl e. EvEnsureConfigMaps tpl e \<in> set tr \<longrightarrow>
            (\<exists>i. tpl = getStorageConfigMapTemplates i (GetLabelsStorage C)))"
proof -
  have n: "network_log P C K i ls out d \<Longrightarrow> \<forall>x\<in>set d. \<not> late_event x \<Longrightarrow>
            (\<forall>j e. EvStatusUpdate j e \<notin> set d) \<and> (\<forall>tpl e. EvEnsureConfigMaps tpl e \<notin> set d)" for i ls d
    unfolding network_log_def by (auto dest!: workload_is_late)
  have c: "config_log P C K i out d \<Longrightarrow> \<forall>x\<in>set d. \<not> late_event x \<Longrightarrow>
            (\<forall>j e. EvStatusUpdate j e \<notin> set d) \<and>
            (\<forall>tpl e. EvEnsureConfigMaps tpl e \<in> set d \<longrightarrow>
               tpl = getStorageConfigMapTemplates i (GetLabelsStorage C))" for i d
    unfolding config_log_def by (auto simp: late_event_def dest!: n)
  have g: "guarded_log P C K i out d \<Longrightarrow> \<forall>x\<in>set d. \<not> late_event x \<Longrightarrow>
            (\<forall>j e. EvStatusUpdate j e \<notin> set d) \<and>
            (\<forall>tpl e. EvEnsureConfigMaps tpl e \<in> set d \<longrightarrow>
               tpl = getStorageConfigMapTemplates i (GetLabelsStorage C))" for i d
  proof -
    assume a: "guarded_log P C K i out d" and b: "\<forall>x\<in>set d. \<not> late_event x"
    from a consider "d = []" | "config_log P C K i out d"
      unfolding guarded_log_def by auto
    then show ?thesis
    proof cases
      case 1
      then show ?thesis by simp
    next
      case 2
      from c[OF 2 b] show ?thesis .
    qed
  qed
  from assms(1) show ?thesis
  proof (cases rule: Reconcile_log_cases)
    case (not_loaded err)
    then show ?thesis by simp
  next
    case (init_failed inst err)
    then show ?thesis by auto
  next
    case (fresh inst d)
    with assms(2) have "\<forall>x\<in>set d. \<not> late_event x" by simp
    from g[OF fresh(3) this] fresh(1,2) show ?thesis by auto
  next
    case (known inst d)
    with assms(2) have "\<forall>x\<in>set d. \<not> late_event x" by simp
    from g[OF known(3) this] known(1,2) show ?thesis by auto
  qed
qed

lemma initialised_not_true [simp]: "\<not> instance_IsTrue (initialised C K inst) t"
  using init_list_unknown[of C K] by (auto simp: instance_IsTrue_def IsTrue_def)

lemma marked_ready_simps [simp]:
  "Spec (marked_ready C K inst) = Spec inst"
  "Name (marked_ready C K inst) = Name inst"
  "Namespace (marked_ready C K inst) = Namespace inst"
  by (simp_all add: marked_ready_def with_Conditions_def)

lemma resized_simps [simp]:
  "Replicas (Spec (resized f inst)) = f"
  "Spec (resized f inst) = (Spec inst)\<lparr>Replicas := f\<rparr>"
  "Status (resized f inst) = Status inst"
  "Name (resized f inst) = Name inst"
  "Namespace (resized f inst) = Namespace inst"
  by (simp_all add: resized_def)

lemma loaded_instance_simps [simp]:
  "Spec (loaded_instance C K inst) = Spec inst"
  "Name (loaded_instance C K inst) = Name inst"
  "Namespace (loaded_instance C K inst) = Namespace inst"
  by (simp_all add: loaded_instance_def)

lemma early_events_not_late: "x \<in> set (early_events C K req inst) \<Longrightarrow> \<not> late_event x"
  by (auto simp: early_events_def late_event_def split: if_splits)

lemma early_events_SU:
  "EvStatusUpdate i e \<in> set (early_events C K req inst)
     \<Longrightarrow> i = initialised C K inst \<and> Conditions (Status inst) = None \<and> e = None"
  by (auto simp: early_events_def split: if_splits)

lemma early_events_ENS:
  "EvEnsureConfigMaps tpl e \<in> set (early_events C K req inst)
     \<Longrightarrow> tpl = getStorageConfigMapTemplates (loaded_instance C K inst) (GetLabelsStorage C)"
  by (auto simp: early_events_def split: if_splits)

lemma base_templates_no_data:
  "t \<in> set (getStorageConfigMapTemplates i ls) \<Longrightarrow> tpl_CustomData t = []"
  by (auto simp: getStorageConfigMapTemplates_def)

lemma late_run:
  assumes "Reconcile P C K req (w, []) = (out, (w', tr))" "x \<in> set tr" "late_event x"
  obtains inst d where "DeletionTimestamp inst = None" "tr = early_events C K req inst @ d"
    "workload_log P C K (loaded_instance C K inst) (GetLabelsStorage C) Result_empty out d"
    "x \<in> set d"
proof -
  from Reconcile_late[OF Reconcile_sound[OF assms(1)]] assms(2,3)
  obtain inst d where a: "DeletionTimestamp inst = None" "tr = early_events C K req inst @ d"
    "workload_log P C K (loaded_instance C K inst) (GetLabelsStorage C) Result_empty out d"
    by blast
  with assms(2,3) have "x \<in> set d"
    by (auto dest: early_events_not_late)
  with a show ?thesis
    by (rule that)
qed

lemma workload_nonempty: "workload_log P C K i ls cr out d \<Longrightarrow> d \<noteq> []"
  by (erule workload_cases) auto

lemma apply_no_lookup:
  "apply_log P C K inst ls out A \<Longrightarrow> x \<in> set A \<Longrightarrow> kind_of x \<noteq> KGetStatefulSet \<and> kind_of x \<noteq> KUpdate"
  using apply_facts(1)[of P C K inst ls out A x] by auto


subsection \<open>The ring bundle\<close>

lemma happens_before_append:
  "happens_before p q d \<Longrightarrow> \<forall>x\<in>set pre. \<not> q x \<Longrightarrow> happens_before p q (pre @ d)"
  by (auto simp: happens_before_def takeWhile_append2)

lemma Reconcile_ring_first:
  assumes run: "Reconcile P C K req (w, []) = (out, (w', tr))"
    and ex: "\<exists>e\<in>set tr. kind_of e \<in> {KServiceCreateOrPatch, KNetworkPolicyCreateOrPatch,
                                       KStatefulSetCreateOrPatch}"
  shows "happens_before (ring_found C)
           (\<lambda>e. kind_of e \<in> {KServiceCreateOrPatch, KNetworkPolicyCreateOrPatch,
                               KStatefulSetCreateOrPatch}) tr"
proof -
  let ?q = "\<lambda>e. kind_of e \<in> {KServiceCreateOrPatch, KNetworkPolicyCreateOrPatch,
                               KStatefulSetCreateOrPatch}"
  have g: "happens_before (ring_found C) ?q d"
    if "guarded_log P C K i out d" "\<exists>e\<in>set d. ?q e" for i d
    using that unfolding guarded_log_def config_log_def
    by (auto simp: happens_before_def)
  have pre: "happens_before (ring_found C) ?q (pre @ d)"
    if "happens_before (ring_found C) ?q d" "\<forall>x\<in>set pre. \<not> ?q x" for pre d
    using that by (rule happens_before_append)
  from Reconcile_sound[OF run] show ?thesis
  proof (cases rule: Reconcile_log_cases)
    case (not_loaded err)
    with ex show ?thesis by simp
  next
    case (init_failed inst err)
    with ex show ?thesis by simp
  next
    case (fresh inst d)
    with ex have "\<exists>e\<in>set d. ?q e" by simp
    from pre[OF g[OF fresh(3) this],
        of "[EvGet req (Inr inst), EvStatusUpdate (initialised C K inst) None]"]
    show ?thesis unfolding fresh(2) by simp
  next
    case (known inst d)
    with ex have "\<exists>e\<in>set d. ?q e" by simp
    from pre[OF g[OF known(3) this], of "[EvGet req (Inr inst)]"]
    show ?thesis unfolding known(2) by simp
  qed
qed

text \<open>
  C2. When the lookup of a configuration bundle reports that it is not found, the bundle
  looked up is the ring bundle, the lookup is the last call, and the reconciliation
  returns a requeue after five seconds without an error. Its calls are the \<^verbatim>\<open>Get\<close>, the
  status update of the initial conditions if there were none, \<^verbatim>\<open>EnsureConfigMaps\<close> and the
  lookup: no service, network policy or workload is created or patched. In every
  reconciliation that applies the workload, a lookup that found the ring bundle lies
  before the application; and in every reconciliation that creates or patches the
  service, the network policy or the workload, a lookup that found the ring bundle lies
  before the first of these calls.
\<close>

theorem Reconcile_ring_absent:
  assumes run: "Reconcile P C K req (w, []) = (out, (w', tr))"
  shows "(\<forall>key err. EvGetConfigMap key (Some err) \<in> set tr \<and> IsNotFound err \<longrightarrow>
            out = Return \<lparr>Requeue = False, RequeueAfter = 5 * Second\<rparr> None
          \<and> snd key = RingConfigMapName C
          \<and> last tr = EvGetConfigMap key (Some err)
          \<and> (map kind_of tr = [KGet, KEnsureConfigMaps, KGetConfigMap]
              \<or> map kind_of tr = [KGet, KStatusUpdate, KEnsureConfigMaps, KGetConfigMap]))
       \<and> ((\<exists>e\<in>set tr. kind_of e = KStatefulSetCreateOrPatch) \<longrightarrow>
            happens_before (ring_found C) (\<lambda>e. kind_of e = KStatefulSetCreateOrPatch) tr)
       \<and> ((\<exists>e\<in>set tr. kind_of e \<in> {KServiceCreateOrPatch, KNetworkPolicyCreateOrPatch,
                                       KStatefulSetCreateOrPatch}) \<longrightarrow>
            happens_before (ring_found C)
              (\<lambda>e. kind_of e \<in> {KServiceCreateOrPatch, KNetworkPolicyCreateOrPatch,
                                  KStatefulSetCreateOrPatch}) tr)"
proof -
  note lookup = Reconcile_ring_lookup[OF run]
  have first: "(\<exists>e\<in>set tr. kind_of e \<in> {KServiceCreateOrPatch, KNetworkPolicyCreateOrPatch,
                                       KStatefulSetCreateOrPatch}) \<longrightarrow>
            happens_before (ring_found C)
              (\<lambda>e. kind_of e \<in> {KServiceCreateOrPatch, KNetworkPolicyCreateOrPatch,
                                  KStatefulSetCreateOrPatch}) tr"
    by (rule impI, rule Reconcile_ring_first[OF run], assumption)
  show ?thesis
    apply (rule conjI)
     apply (rule lookup[THEN conjunct1])
    apply (rule conjI)
     apply (rule lookup[THEN conjunct2])
    apply (rule first)
    done
qed

text \<open>
  A cluster without the ring bundle, and the cluster with both claims, where the service,
  the network policy and the workload are applied.
\<close>

theorem Reconcile_ring_absent_witness:
  "EvGetConfigMap ring_bundle (Some (NotFound ''swift-ring-files''))
     \<in> set (log_of (reconcile_alpha ring_absent))
   \<and> IsNotFound (NotFound ''swift-ring-files'')
   \<and> outcome_of (reconcile_alpha ring_absent)
       = Return \<lparr>Requeue = False, RequeueAfter = 5 * Second\<rparr> None
   \<and> map kind_of (log_of (reconcile_alpha ring_absent))
       = [KGet, KStatusUpdate, KEnsureConfigMaps, KGetConfigMap]
   \<and> happens_before (ring_found example_consts) (\<lambda>e. kind_of e = KStatefulSetCreateOrPatch)
       (log_of (reconcile_alpha two_claims))
   \<and> happens_before (ring_found example_consts)
       (\<lambda>e. kind_of e \<in> {KServiceCreateOrPatch, KNetworkPolicyCreateOrPatch,
                           KStatefulSetCreateOrPatch})
       (log_of (reconcile_alpha two_claims))"
proof -
  obtain out w' tr where
    run: "Reconcile cluster_platform example_consts example_conditions alpha_key (ring_absent, [])
            = (out, (w', tr))"
    and out: "outcome_of (reconcile_alpha ring_absent) = out"
    and tr: "log_of (reconcile_alpha ring_absent) = tr"
    by (rule reconcile_alpha_run)
  obtain out2 w2 tr2 where
    run2: "Reconcile cluster_platform example_consts example_conditions alpha_key (two_claims, [])
            = (out2, (w2, tr2))"
    and tr2: "log_of (reconcile_alpha two_claims) = tr2"
    by (rule reconcile_alpha_run)
  have absent: "EvGetConfigMap ring_bundle (Some (NotFound ''swift-ring-files''))
                  \<in> set (log_of (reconcile_alpha ring_absent))"
    by code_simp
  have nf: "IsNotFound (NotFound ''swift-ring-files'')"
    by (simp add: IsNotFound_def)
  have init: "KStatusUpdate \<in> set (map kind_of (log_of (reconcile_alpha ring_absent)))"
    by code_simp
  have applies: "\<exists>e\<in>set (log_of (reconcile_alpha two_claims)). kind_of e = KStatefulSetCreateOrPatch"
    by code_simp
  have changes: "\<exists>e\<in>set (log_of (reconcile_alpha two_claims)).
                   kind_of e \<in> {KServiceCreateOrPatch, KNetworkPolicyCreateOrPatch,
                                 KStatefulSetCreateOrPatch}"
    by code_simp
  from Reconcile_ring_absent[OF run] absent[unfolded tr] nf
  have "out = Return \<lparr>Requeue = False, RequeueAfter = 5 * Second\<rparr> None"
    and "map kind_of tr = [KGet, KEnsureConfigMaps, KGetConfigMap]
           \<or> map kind_of tr = [KGet, KStatusUpdate, KEnsureConfigMaps, KGetConfigMap]"
    by blast+
  moreover from Reconcile_ring_absent[OF run2, THEN conjunct2, THEN conjunct1] applies[unfolded tr2]
  have "happens_before (ring_found example_consts) (\<lambda>e. kind_of e = KStatefulSetCreateOrPatch) tr2"
    by blast
  moreover from Reconcile_ring_absent[OF run2, THEN conjunct2, THEN conjunct2] changes[unfolded tr2]
  have "happens_before (ring_found example_consts)
       (\<lambda>e. kind_of e \<in> {KServiceCreateOrPatch, KNetworkPolicyCreateOrPatch,
                           KStatefulSetCreateOrPatch}) tr2"
    by blast
  ultimately show ?thesis
    using absent nf init unfolding tr tr2 out by auto
qed


subsection \<open>Storage claims that cannot be read\<close>

lemma workload_claim_failure:
  assumes "workload_log P C K inst ls cr out d" "EvGetClaim key (Inl err) \<in> set d"
  shows "out = Return Result_empty (Some err) \<and> last d = EvGetClaim key (Inl err)
       \<and> (\<forall>x\<in>set d. kind_of x \<notin> {KStatusUpdate, KEnsureConfigMaps})"
  using assms(1)
proof (cases rule: workload_cases)
  case (absent e A)
  with assms(2) have m: "EvGetClaim key (Inl err) \<in> set A" by simp
  then have "A \<noteq> []" by auto
  with apply_facts(5)[OF absent(3) m] absent(1) show ?thesis by simp
next
  case (kept found f A)
  with assms(2) have m: "EvGetClaim key (Inl err) \<in> set A" by simp
  then have "A \<noteq> []" by auto
  with apply_facts(5)[OF kept(4) m] kept(1) show ?thesis by simp
next
  case (resized found f A)
  with assms(2) have m: "EvGetClaim key (Inl err) \<in> set A" by simp
  then have "A \<noteq> []" by auto
  with apply_facts(5)[OF resized(4) m] resized(1) show ?thesis by simp
qed (use assms(2) in auto)

lemma getDeviceList_failure:
  assumes "getDeviceList P C inst (w, []) = (r, (w', tr))"
    and "EvGetClaim key (Inl err) \<in> set tr"
  shows "r = Inl err \<and> last tr = EvGetClaim key (Inl err)"
proof -
  from getDeviceList_log[OF assms(1)] have l: "claims_log r tr"
    by simp
  show ?thesis
  proof (cases r)
    case (Inl e)
    with l obtain cs k where "tr = found_claims cs @ [EvGetClaim k (Inl e)]"
      by (auto simp: claims_log_def)
    with assms(2) Inl show ?thesis
      by (auto simp: found_claims_def)
  next
    case (Inr devices)
    with l obtain cs where "tr = found_claims cs"
      by (auto simp: claims_log_def)
    with assms(2) show ?thesis
      by (auto simp: found_claims_def)
  qed
qed

lemma Reconcile_claim_failure:
  assumes run: "Reconcile P C K req (w, []) = (out, (w', tr))"
    and failed: "EvGetClaim key (Inl err) \<in> set tr"
  shows "out = Return Result_empty (Some err)
       \<and> last tr = EvGetClaim key (Inl err)
       \<and> (\<forall>tpl e. EvEnsureConfigMaps tpl e \<in> set tr \<longrightarrow> (\<forall>t\<in>set tpl. tpl_CustomData t = []))
       \<and> (\<forall>i e. EvStatusUpdate i e \<in> set tr \<longrightarrow>
             \<not> instance_IsTrue i (ReadyCondition K)
           \<and> \<not> instance_IsTrue i (SwiftStorageReadyCondition C))"
proof -
  have "late_event (EvGetClaim key (Inl err))"
    by (simp add: late_event_def)
  from late_run[OF run failed this] obtain inst d where
    tr: "tr = early_events C K req inst @ d"
    and wl: "workload_log P C K (loaded_instance C K inst) (GetLabelsStorage C) Result_empty out d"
    and d: "EvGetClaim key (Inl err) \<in> set d"
    by blast
  from workload_claim_failure[OF wl d] have
    f: "out = Return Result_empty (Some err)" "last d = EvGetClaim key (Inl err)"
       "\<forall>x\<in>set d. kind_of x \<notin> {KStatusUpdate, KEnsureConfigMaps}"
    by auto
  from d have "d \<noteq> []" by auto
  then have "last tr = last d"
    unfolding tr by simp
  moreover have "\<forall>tpl e. EvEnsureConfigMaps tpl e \<in> set tr \<longrightarrow> (\<forall>t\<in>set tpl. tpl_CustomData t = [])"
    unfolding tr using f(3) by (auto dest!: early_events_ENS simp: base_templates_no_data)
  moreover have "\<forall>i e. EvStatusUpdate i e \<in> set tr \<longrightarrow>
             \<not> instance_IsTrue i (ReadyCondition K)
           \<and> \<not> instance_IsTrue i (SwiftStorageReadyCondition C)"
    unfolding tr using f(3) by (auto dest!: early_events_SU)
  ultimately show ?thesis
    using f(1,2) by simp
qed

text \<open>
  A claim that is missing: if the read of the claim of some replica index \<open>k\<close> fails from
  every state that the reads can reach, the loop does not get past \<open>k\<close>.
\<close>

lemma getDeviceList_loop_missing:
  assumes "I (fst s)"
    and "\<forall>key w r w'. I w \<and> client_GetClaim P key w = (r, w') \<longrightarrow> I w'"
    and "\<forall>w. I w \<longrightarrow>
           (\<exists>err w'. client_GetClaim P
              (Namespace inst, spec_claim_name (ClaimName C) (Name inst) k) w = (Inl err, w'))"
    and "j \<le> k" "k < sint (Replicas (Spec inst))"
  shows "\<exists>err. fst (getDeviceList_loop P C inst j devices s) = Inl err"
  using assms
proof (induction P C inst j devices s rule: getDeviceList_loop.induct)
  case (1 P C inst replica devices s)
  let ?cn = "ClaimName C @ ''-'' @ Name inst @ ''-'' @ Sprintf_d replica"
  from "1.prems"(4,5) have lt: "replica < sint (Replicas (Spec inst))"
    by simp
  obtain r w' where get: "client_GetClaim P (Namespace inst, ?cn) (fst s) = (r, w')"
    by (cases "client_GetClaim P (Namespace inst, ?cn) (fst s)")
  with "1.prems"(1,2) have inv: "I w'"
    by blast
  have call: "h_GetClient_Get P (Namespace inst, ?cn) s
                = (r, (w', snd s @ [EvGetClaim (Namespace inst, ?cn) r]))"
    using get by (simp add: h_GetClient_Get_def call_def)
  show ?case
  proof (cases r)
    case (Inl err)
    show ?thesis
      apply (subst getDeviceList_loop.simps)
      apply (simp only: lt if_True Let_def call[unfolded Inl] prod.case sum.case fst_conv)
      apply blast
      done
  next
    case (Inr claim)
    have "replica \<noteq> k"
    proof
      assume "replica = k"
      with "1.prems"(1,3) get Inr show False
        by (auto simp: spec_claim_name_def)
    qed
    with "1.prems"(4) have le: "replica + 1 \<le> k"
      by simp
    have inv': "I (fst (w', snd s @ [EvGetClaim (Namespace inst, ?cn) (Inr claim)]))"
      using inv by simp
    note IH = "1.IH"[OF lt refl call[unfolded Inr, symmetric] refl refl refl refl refl inv'
        "1.prems"(2,3) le "1.prems"(5)]
    show ?thesis
      apply (subst getDeviceList_loop.simps)
      apply (simp only: lt if_True Let_def call[unfolded Inr] prod.case sum.case)
      apply (rule IH)
      done
  qed
qed

lemma getDeviceList_missing:
  assumes "I (fst s)"
    and "\<forall>key w r w'. I w \<and> client_GetClaim P key w = (r, w') \<longrightarrow> I w'"
    and "\<forall>w. I w \<longrightarrow>
           (\<exists>err w'. client_GetClaim P
              (Namespace inst, spec_claim_name (ClaimName C) (Name inst) k) w = (Inl err, w'))"
    and "0 \<le> k" "k < sint (Replicas (Spec inst))"
  shows "\<exists>err. fst (getDeviceList P C inst s) = Inl err"
  unfolding getDeviceList_def by (rule getDeviceList_loop_missing[OF assms])

text \<open>
  C4, for a claim whose lookup fails (the claim is missing, or the read fails otherwise);
  a claim that is found but not bound is the example after the theorem.
  First, let \<open>I\<close> hold of the platform state at the call and be kept by every read of a
  claim. If for some replica index \<open>k\<close> from \<open>0\<close> below the replica count the read of the
  claim \<^verbatim>\<open>{claim-prefix}-{name}-{k}\<close> fails from every state with \<open>I\<close>, then \<^verbatim>\<open>getDeviceList\<close>
  returns an error and no manifest. Second, if the log of a call of \<^verbatim>\<open>getDeviceList\<close> holds
  a failed lookup of a claim, the call returned the error of that lookup and no manifest,
  the lookup being its last call. Third, if the log of a reconciliation holds a failed
  lookup of a claim, the reconciliation returned the error of that lookup, the lookup
  being its last call; it published no bundle with custom data (so no device manifest)
  and wrote no status in which a ready condition is true.
\<close>

theorem claim_lookup_failure_is_fatal:
  "(I (fst s)
      \<and> (\<forall>key w r w'. I w \<and> client_GetClaim P key w = (r, w') \<longrightarrow> I w')
      \<and> (\<forall>w. I w \<longrightarrow>
            (\<exists>err w'. client_GetClaim P
               (Namespace inst, spec_claim_name (ClaimName C) (Name inst) k) w = (Inl err, w')))
      \<and> 0 \<le> k \<and> k < sint (Replicas (Spec inst))
    \<longrightarrow> (\<exists>err. fst (getDeviceList P C inst s) = Inl err))
   \<and> (EvGetClaim key (Inl err) \<in> set tr \<and> getDeviceList P C inst (w, []) = (r, (w', tr))
    \<longrightarrow> r = Inl err \<and> last tr = EvGetClaim key (Inl err))
   \<and> (EvGetClaim key (Inl err) \<in> set tr \<and> Reconcile P C K req (w, []) = (out, (w', tr))
    \<longrightarrow> out = Return Result_empty (Some err)
      \<and> last tr = EvGetClaim key (Inl err)
      \<and> (\<forall>tpl e. EvEnsureConfigMaps tpl e \<in> set tr \<longrightarrow> (\<forall>t\<in>set tpl. tpl_CustomData t = []))
      \<and> (\<forall>i e. EvStatusUpdate i e \<in> set tr \<longrightarrow>
            \<not> instance_IsTrue i (ReadyCondition K)
          \<and> \<not> instance_IsTrue i (SwiftStorageReadyCondition C)))"
proof -
  have A: "\<exists>err. fst (getDeviceList P C inst s) = Inl err"
    if "I (fst s)
      \<and> (\<forall>key w r w'. I w \<and> client_GetClaim P key w = (r, w') \<longrightarrow> I w')
      \<and> (\<forall>w. I w \<longrightarrow>
            (\<exists>err w'. client_GetClaim P
               (Namespace inst, spec_claim_name (ClaimName C) (Name inst) k) w = (Inl err, w')))
      \<and> 0 \<le> k \<and> k < sint (Replicas (Spec inst))"
  proof -
    from that have a: "I (fst s)"
      "\<forall>key w r w'. I w \<and> client_GetClaim P key w = (r, w') \<longrightarrow> I w'"
      "\<forall>w. I w \<longrightarrow>
            (\<exists>err w'. client_GetClaim P
               (Namespace inst, spec_claim_name (ClaimName C) (Name inst) k) w = (Inl err, w'))"
      "0 \<le> k" "k < sint (Replicas (Spec inst))"
      by blast+
    show ?thesis
      by (rule getDeviceList_missing[OF a])
  qed
  have B: "r = Inl err \<and> last tr = EvGetClaim key (Inl err)"
    if "EvGetClaim key (Inl err) \<in> set tr \<and> getDeviceList P C inst (w, []) = (r, (w', tr))"
    using getDeviceList_failure[of P C inst w r w' tr key err] that by blast
  have R: "out = Return Result_empty (Some err)
      \<and> last tr = EvGetClaim key (Inl err)
      \<and> (\<forall>tpl e. EvEnsureConfigMaps tpl e \<in> set tr \<longrightarrow> (\<forall>t\<in>set tpl. tpl_CustomData t = []))
      \<and> (\<forall>i e. EvStatusUpdate i e \<in> set tr \<longrightarrow>
            \<not> instance_IsTrue i (ReadyCondition K)
          \<and> \<not> instance_IsTrue i (SwiftStorageReadyCondition C))"
    if "EvGetClaim key (Inl err) \<in> set tr \<and> Reconcile P C K req (w, []) = (out, (w', tr))"
  proof -
    from that have run: "Reconcile P C K req (w, []) = (out, (w', tr))"
      and failed: "EvGetClaim key (Inl err) \<in> set tr"
      by simp_all
    show ?thesis
      by (rule Reconcile_claim_failure[OF run failed])
  qed
  show ?thesis
    apply (rule conjI)
     apply (rule impI)
     apply (erule A)
    apply (rule conjI)
     apply (rule impI)
     apply (erule B)
    apply (rule impI)
    apply (erule R)
    done
qed

text \<open>
  The cluster in which the claim of replica 1 is missing.
\<close>

theorem claim_lookup_failure_is_fatal_witness:
  "lookup (cl_claims one_claim_missing) (''openstack'', ''srv-alpha-1'')
     = Inl (NotFound ''srv-alpha-1'')
   \<and> fst (getDeviceList cluster_platform example_consts (alpha 2) (one_claim_missing, []))
       = Inl (NotFound ''srv-alpha-1'')
   \<and> EvGetClaim (''openstack'', ''srv-alpha-1'') (Inl (NotFound ''srv-alpha-1''))
     \<in> set (log_of (reconcile_alpha one_claim_missing))
   \<and> outcome_of (reconcile_alpha one_claim_missing)
       = Return Result_empty (Some (NotFound ''srv-alpha-1''))
   \<and> last (log_of (reconcile_alpha one_claim_missing))
       = EvGetClaim (''openstack'', ''srv-alpha-1'') (Inl (NotFound ''srv-alpha-1''))"
proof -
  let ?e = "EvGetClaim (''openstack'', ''srv-alpha-1'') (Inl (NotFound ''srv-alpha-1''))"
  obtain out w' tr where
    run: "Reconcile cluster_platform example_consts example_conditions alpha_key
            (one_claim_missing, []) = (out, (w', tr))"
    and out: "outcome_of (reconcile_alpha one_claim_missing) = out"
    and tr: "log_of (reconcile_alpha one_claim_missing) = tr"
    by (rule reconcile_alpha_run)
  obtain r w1 d where
    get: "getDeviceList cluster_platform example_consts (alpha 2) (one_claim_missing, [])
            = (r, (w1, d))"
    by (metis prod_cases3)
  have missing: "lookup (cl_claims one_claim_missing) (''openstack'', ''srv-alpha-1'')
                   = Inl (NotFound ''srv-alpha-1'')"
    by (simp add: one_claim_missing_def lookup_def bound_claim_def)
  have reads: "\<forall>key w r w'. w = one_claim_missing \<and> client_GetClaim cluster_platform key w = (r, w')
                 \<longrightarrow> w' = one_claim_missing"
    by (simp add: cluster_platform_def)
  have fails: "\<forall>w. w = one_claim_missing \<longrightarrow>
            (\<exists>err w'. client_GetClaim cluster_platform
               (Namespace (alpha 2), spec_claim_name (ClaimName example_consts) (Name (alpha 2)) 1) w
               = (Inl err, w'))"
    using missing
    by (simp add: cluster_platform_def alpha_def example_consts_def spec_claim_name_def
          Sprintf_d_def decimal.simps)
  have two: "(0::int) \<le> 1 \<and> 1 < sint (Replicas (Spec (alpha 2)))"
    by (simp add: alpha_def)
  have failed: "?e \<in> set (log_of (reconcile_alpha one_claim_missing))"
    by code_simp
  have failed': "?e \<in> set (snd (snd (getDeviceList cluster_platform example_consts (alpha 2)
                     (one_claim_missing, []))))"
    by code_simp
  note fatal = claim_lookup_failure_is_fatal
  from fatal[THEN conjunct1, rule_format,
      of "\<lambda>w. w = one_claim_missing" "(one_claim_missing, [])" cluster_platform "alpha 2"
         example_consts 1] reads fails two
  have err: "\<exists>err. fst (getDeviceList cluster_platform example_consts (alpha 2)
                         (one_claim_missing, [])) = Inl err"
    by simp
  from fatal[THEN conjunct2, THEN conjunct1, rule_format,
      of "(''openstack'', ''srv-alpha-1'')" "NotFound ''srv-alpha-1''" d cluster_platform
         example_consts "alpha 2" one_claim_missing r w1]
    failed'[unfolded get snd_conv] get
  have r: "r = Inl (NotFound ''srv-alpha-1'')"
    by blast
  from fatal[THEN conjunct2, THEN conjunct2, rule_format,
      of "(''openstack'', ''srv-alpha-1'')" "NotFound ''srv-alpha-1''" tr cluster_platform
         example_consts example_conditions alpha_key one_claim_missing out w']
    failed[unfolded tr] run
  have "out = Return Result_empty (Some (NotFound ''srv-alpha-1''))" "last tr = ?e"
    by blast+
  with r err missing failed show ?thesis
    unfolding tr out get by simp
qed

text \<open>
  A claim that is found but not bound has no capacity in its status. The lookup of the
  capacity in the empty list gives the zero quantity, the flag of \<^verbatim>\<open>AsInt64\<close> is dropped,
  and nothing else in \<^verbatim>\<open>getDeviceList\<close> looks at the claim: the manifest gets the line
  \<^verbatim>\<open>alpha-0.alpha,d1,0\<close>, and the reconciliation publishes it, marks the instance ready and
  returns no error.
\<close>

theorem getDeviceList_unbound_claim:
  "lookup (cl_claims pending_claim) (''openstack'', ''srv-alpha-0'')
     = Inr (snd (unbound_claim ''srv-alpha-0''))
   \<and> pvc_Capacity (pvc_Status (snd (unbound_claim ''srv-alpha-0''))) = []
   \<and> fst (getDeviceList cluster_platform example_consts (alpha 1) (pending_claim, []))
       = Inr (''alpha-0.alpha,d1,0'' @ [CHR 0x0A])
   \<and> outcome_of (Reconcile cluster_platform example_consts example_conditions alpha_key
        (pending_claim, [])) = Return Result_empty None
   \<and> map kind_of (log_of (Reconcile cluster_platform example_consts example_conditions alpha_key
        (pending_claim, [])))
       = [KGet, KStatusUpdate, KEnsureConfigMaps, KGetConfigMap, KServiceCreateOrPatch,
          KNetworkPolicyCreateOrPatch, KGetStatefulSet, KStatefulSetCreateOrPatch, KGetClaim,
          KEnsureConfigMaps, KStatusUpdate]
   \<and> EvEnsureConfigMaps
         (getDeviceConfigMapTemplates example_consts
            (initialised example_consts example_conditions (alpha 1))
            (''alpha-0.alpha,d1,0'' @ [CHR 0x0A])) None
       \<in> set (log_of (Reconcile cluster_platform example_consts example_conditions alpha_key
            (pending_claim, [])))
   \<and> last (log_of (Reconcile cluster_platform example_consts example_conditions alpha_key
        (pending_claim, [])))
       = EvStatusUpdate
           (marked_ready example_consts example_conditions
              (initialised example_consts example_conditions (alpha 1))) None
   \<and> instance_IsTrue
         (marked_ready example_consts example_conditions
            (initialised example_consts example_conditions (alpha 1)))
         (ReadyCondition example_conditions)"
  by code_simp


subsection \<open>Readiness\<close>

lemma workload_applies:
  assumes "workload_log P C K inst ls cr out d"
  obtains (no_apply) "\<forall>x\<in>set d. kind_of x \<notin> {KStatefulSetCreateOrPatch, KGetClaim, KStatusUpdate, KEnsureConfigMaps}"
  | (applied) W inst2 A where "d = W @ A" "apply_log P C K inst2 ls out A" "A \<noteq> []"
      "\<forall>x\<in>set W. kind_of x \<in> {KGetStatefulSet, KUpdate}"
      "inst2 = inst \<or> (\<exists>f. inst2 = resized f inst)"
  using assms
proof (cases rule: workload_cases)
  case (absent err A)
  show ?thesis
  proof (cases "A = []")
    case True
    with absent show ?thesis by (intro no_apply) simp
  next
    case False
    with absent show ?thesis
      by (intro applied[of "[EvGetStatefulSet (Namespace inst, Name inst) (Inl err)]" A inst]) simp_all
  qed
next
  case (kept found f A)
  show ?thesis
  proof (cases "A = []")
    case True
    with kept show ?thesis by (intro no_apply) simp
  next
    case False
    with kept show ?thesis
      by (intro applied[of "[EvGetStatefulSet (Namespace inst, Name inst) (Inr found)]" A inst]) simp_all
  qed
next
  case (resized found f A)
  show ?thesis
  proof (cases "A = []")
    case True
    with resized show ?thesis by (intro no_apply) simp
  next
    case False
    with resized show ?thesis
      by (intro applied[of "[EvGetStatefulSet (Namespace inst, Name inst) (Inr found),
            EvUpdate (resized f inst) None]" A "resized f inst"]) auto
  qed
qed (auto intro!: no_apply)

lemma workload_ready:
  assumes "workload_log P C K inst ls cr out d"
  shows "(\<forall>i e. EvStatusUpdate i e \<in> set d \<longrightarrow>
            (\<exists>sset live. EvStatefulSetCreateOrPatch sset ((Result_empty, None), live) \<in> set d
               \<and> ss_ReadyReplicas (ss_Status live) = Replicas (Spec i)
               \<and> ss_Replicas (ss_Spec sset) = Some (Replicas (Spec i))))
       \<and> (\<forall>sset res e live. EvStatefulSetCreateOrPatch sset ((res, e), live) \<in> set d
              \<and> Some (ss_ReadyReplicas (ss_Status live)) \<noteq> ss_Replicas (ss_Spec sset)
            \<longrightarrow> last d = EvStatefulSetCreateOrPatch sset ((res, e), live)
              \<and> (\<forall>x\<in>set d. kind_of x \<notin> {KGetClaim, KStatusUpdate, KEnsureConfigMaps}))"
  using assms
proof (cases rule: workload_applies)
  case no_apply
  then show ?thesis by fastforce
next
  case (applied W inst2 A)
  have su: "\<exists>sset live. EvStatefulSetCreateOrPatch sset ((Result_empty, None), live) \<in> set d
               \<and> ss_ReadyReplicas (ss_Status live) = Replicas (Spec i)
               \<and> ss_Replicas (ss_Spec sset) = Some (Replicas (Spec i))"
    if "EvStatusUpdate i e \<in> set d" for i e
  proof -
    from that applied(1,4) have m: "EvStatusUpdate i e \<in> set A" by auto
    from apply_facts(4)[OF applied(2) m] obtain sset live where
      i: "i = marked_ready C K inst2"
      and h: "hd A = EvStatefulSetCreateOrPatch sset ((Result_empty, None), live)"
             "ss_ReadyReplicas (ss_Status live) = Replicas (Spec inst2)"
      by blast
    from h(1) applied(3) have hm: "EvStatefulSetCreateOrPatch sset ((Result_empty, None), live) \<in> set A"
      by (metis hd_in_set)
    from apply_facts(2)[OF applied(2) hm] have "ss_Replicas (ss_Spec sset) = Some (Replicas (Spec inst2))"
      by simp
    with hm h(2) i applied(1) show ?thesis
      by (intro exI[of _ sset] exI[of _ live]) simp
  qed
  have ap: "last d = EvStatefulSetCreateOrPatch sset ((res, e), live)
              \<and> (\<forall>x\<in>set d. kind_of x \<notin> {KGetClaim, KStatusUpdate, KEnsureConfigMaps})"
    if "EvStatefulSetCreateOrPatch sset ((res, e), live) \<in> set d"
       "Some (ss_ReadyReplicas (ss_Status live)) \<noteq> ss_Replicas (ss_Spec sset)" for sset res e live
  proof -
    from that(1) applied(1,4) have m: "EvStatefulSetCreateOrPatch sset ((res, e), live) \<in> set A" by auto
    from apply_facts(2)[OF applied(2) m] that(2)
    have "ss_ReadyReplicas (ss_Status live) \<noteq> Replicas (Spec inst2)" by simp
    from apply_facts(3)[OF applied(2) conjI[OF m this]] have "A = [EvStatefulSetCreateOrPatch sset ((res, e), live)]" .
    with applied(1,4) show ?thesis by auto
  qed
  from su ap show ?thesis by blast
qed

text \<open>
  C5. If a reconciliation writes a status in which the generic ready condition or the
  storage ready condition is true, then it applied the workload without error, with the
  replica count requested by the written instance, and the live workload that the
  application returned has as many ready replicas as requested. If the ready replicas
  of the live workload differ from the replica count applied, the application is the last
  call: no claim is read, no bundle with custom data is published, and no status with a
  true ready condition is written.
\<close>

theorem Reconcile_readiness_gate:
  assumes run: "Reconcile P C K req (w, []) = (out, (w', tr))"
  shows "(\<forall>i e. EvStatusUpdate i e \<in> set tr
            \<and> (instance_IsTrue i (ReadyCondition K) \<or> instance_IsTrue i (SwiftStorageReadyCondition C))
          \<longrightarrow> (\<exists>sset live. EvStatefulSetCreateOrPatch sset ((Result_empty, None), live) \<in> set tr
               \<and> ss_ReadyReplicas (ss_Status live) = Replicas (Spec i)
               \<and> ss_Replicas (ss_Spec sset) = Some (Replicas (Spec i))))
       \<and> (\<forall>sset res e live. EvStatefulSetCreateOrPatch sset ((res, e), live) \<in> set tr
              \<and> Some (ss_ReadyReplicas (ss_Status live)) \<noteq> ss_Replicas (ss_Spec sset)
            \<longrightarrow> last tr = EvStatefulSetCreateOrPatch sset ((res, e), live)
              \<and> (\<forall>x\<in>set tr. kind_of x \<noteq> KGetClaim)
              \<and> (\<forall>tpl e'. EvEnsureConfigMaps tpl e' \<in> set tr \<longrightarrow> (\<forall>t\<in>set tpl. tpl_CustomData t = []))
              \<and> (\<forall>i e'. EvStatusUpdate i e' \<in> set tr \<longrightarrow>
                    \<not> instance_IsTrue i (ReadyCondition K)
                  \<and> \<not> instance_IsTrue i (SwiftStorageReadyCondition C)))"
proof (cases "\<exists>x\<in>set tr. late_event x")
  case False
  from Reconcile_early[OF Reconcile_sound[OF run] False] have
    su: "\<forall>i e. EvStatusUpdate i e \<in> set tr \<longrightarrow> (\<exists>inst. i = initialised C K inst \<and> Conditions (Status inst) = None)"
    by blast
  have "\<not> instance_IsTrue i t" if "EvStatusUpdate i e \<in> set tr" for i e t
    using su that by auto
  moreover have "EvStatefulSetCreateOrPatch sset a \<notin> set tr" for sset a
    using False by (auto simp: late_event_def)
  ultimately show ?thesis by blast
next
  case True
  then obtain x where "x \<in> set tr" "late_event x" by blast
  from late_run[OF run this] obtain inst d where
    tr: "tr = early_events C K req inst @ d"
    and wl: "workload_log P C K (loaded_instance C K inst) (GetLabelsStorage C) Result_empty out d"
    by blast
  note r = workload_ready[OF wl]
  have d: "d \<noteq> []" by (rule workload_nonempty[OF wl])
  have early_su: "\<not> instance_IsTrue i t" if "EvStatusUpdate i e \<in> set (early_events C K req inst)" for i e t
    using early_events_SU[OF that] by simp
  have early_ap: "EvStatefulSetCreateOrPatch sset a \<notin> set (early_events C K req inst)" for sset a
    by (auto simp: early_events_def split: if_splits)
  have early_cl: "x \<in> set (early_events C K req inst) \<Longrightarrow> kind_of x \<noteq> KGetClaim" for x
    by (auto simp: early_events_def split: if_splits)
  have early_ens: "EvEnsureConfigMaps tpl e \<in> set (early_events C K req inst) \<Longrightarrow> \<forall>t\<in>set tpl. tpl_CustomData t = []" for tpl e
    by (auto dest!: early_events_ENS simp: base_templates_no_data)
  have A: "\<exists>sset live. EvStatefulSetCreateOrPatch sset ((Result_empty, None), live) \<in> set tr
               \<and> ss_ReadyReplicas (ss_Status live) = Replicas (Spec i)
               \<and> ss_Replicas (ss_Spec sset) = Some (Replicas (Spec i))"
    if "EvStatusUpdate i e \<in> set tr"
       "instance_IsTrue i (ReadyCondition K) \<or> instance_IsTrue i (SwiftStorageReadyCondition C)" for i e
  proof -
    from that early_su have "EvStatusUpdate i e \<in> set d"
      unfolding tr by auto
    with r obtain sset live where
      "EvStatefulSetCreateOrPatch sset ((Result_empty, None), live) \<in> set d"
      "ss_ReadyReplicas (ss_Status live) = Replicas (Spec i)"
      "ss_Replicas (ss_Spec sset) = Some (Replicas (Spec i))"
      by blast
    then show ?thesis
      unfolding tr by (intro exI[of _ sset] exI[of _ live]) simp
  qed
  have B: "last tr = EvStatefulSetCreateOrPatch sset ((res, e), live)
              \<and> (\<forall>x\<in>set tr. kind_of x \<noteq> KGetClaim)
              \<and> (\<forall>tpl e'. EvEnsureConfigMaps tpl e' \<in> set tr \<longrightarrow> (\<forall>t\<in>set tpl. tpl_CustomData t = []))
              \<and> (\<forall>i e'. EvStatusUpdate i e' \<in> set tr \<longrightarrow>
                    \<not> instance_IsTrue i (ReadyCondition K)
                  \<and> \<not> instance_IsTrue i (SwiftStorageReadyCondition C))"
    if "EvStatefulSetCreateOrPatch sset ((res, e), live) \<in> set tr"
       "Some (ss_ReadyReplicas (ss_Status live)) \<noteq> ss_Replicas (ss_Spec sset)" for sset res e live
  proof -
    from that(1) early_ap have "EvStatefulSetCreateOrPatch sset ((res, e), live) \<in> set d"
      unfolding tr by auto
    with r that(2) have l: "last d = EvStatefulSetCreateOrPatch sset ((res, e), live)"
      and k: "\<forall>x\<in>set d. kind_of x \<notin> {KGetClaim, KStatusUpdate, KEnsureConfigMaps}"
      by blast+
    from l d have "last tr = EvStatefulSetCreateOrPatch sset ((res, e), live)"
      unfolding tr by simp
    moreover have "\<forall>x\<in>set tr. kind_of x \<noteq> KGetClaim"
      unfolding tr using k early_cl by auto
    moreover have "\<forall>tpl e'. EvEnsureConfigMaps tpl e' \<in> set tr \<longrightarrow> (\<forall>t\<in>set tpl. tpl_CustomData t = [])"
      unfolding tr using k early_ens by fastforce
    moreover have "\<forall>i e'. EvStatusUpdate i e' \<in> set tr \<longrightarrow>
                    \<not> instance_IsTrue i (ReadyCondition K)
                  \<and> \<not> instance_IsTrue i (SwiftStorageReadyCondition C)"
      unfolding tr using k early_su by fastforce
    ultimately show ?thesis by blast
  qed
  from A B show ?thesis by blast
qed

text \<open>
  The cluster with one replica not ready, and the cluster with both replicas ready.
\<close>

theorem Reconcile_readiness_gate_witness:
  "outcome_of (reconcile_alpha two_claims) = Return Result_empty None
   \<and> map kind_of (log_of (reconcile_alpha not_ready))
       = [KGet, KStatusUpdate, KEnsureConfigMaps, KGetConfigMap, KServiceCreateOrPatch,
          KNetworkPolicyCreateOrPatch, KGetStatefulSet, KStatefulSetCreateOrPatch]
   \<and> kind_of (last (log_of (reconcile_alpha not_ready))) = KStatefulSetCreateOrPatch
   \<and> kind_of (last (log_of (reconcile_alpha two_claims))) = KStatusUpdate"
proof -
  obtain out w' tr where
    run: "Reconcile cluster_platform example_consts example_conditions alpha_key (not_ready, [])
            = (out, (w', tr))"
    and tr: "log_of (reconcile_alpha not_ready) = tr"
    by (rule reconcile_alpha_run)
  obtain out2 w2 tr2 where
    run2: "Reconcile cluster_platform example_consts example_conditions alpha_key (two_claims, [])
            = (out2, (w2, tr2))"
    and tr2: "log_of (reconcile_alpha two_claims) = tr2"
    by (rule reconcile_alpha_run)
  have kinds: "map kind_of (log_of (reconcile_alpha not_ready))
       = [KGet, KStatusUpdate, KEnsureConfigMaps, KGetConfigMap, KServiceCreateOrPatch,
          KNetworkPolicyCreateOrPatch, KGetStatefulSet, KStatefulSetCreateOrPatch]"
    by code_simp
  have ok: "outcome_of (reconcile_alpha two_claims) = Return Result_empty None"
    by code_simp
  have differ: "case last (log_of (reconcile_alpha not_ready)) of
                  EvStatefulSetCreateOrPatch sset a \<Rightarrow>
                    Some (ss_ReadyReplicas (ss_Status (snd a))) \<noteq> ss_Replicas (ss_Spec sset)
                | _ \<Rightarrow> False"
    by code_simp
  have marked: "case last (log_of (reconcile_alpha two_claims)) of
                  EvStatusUpdate i e \<Rightarrow> instance_IsTrue i (ReadyCondition example_conditions)
                | _ \<Rightarrow> False"
    by code_simp
  from differ obtain sset res e live where
    l: "last tr = EvStatefulSetCreateOrPatch sset ((res, e), live)"
    and ne: "Some (ss_ReadyReplicas (ss_Status live)) \<noteq> ss_Replicas (ss_Spec sset)"
    unfolding tr by (cases "last tr") auto
  from kinds have "tr \<noteq> []"
    unfolding tr by auto
  with l have m: "EvStatefulSetCreateOrPatch sset ((res, e), live) \<in> set tr"
    by (metis last_in_set)
  from Reconcile_readiness_gate[OF run] m ne have "\<forall>x\<in>set tr. kind_of x \<noteq> KGetClaim"
    by blast
  from marked obtain i e2 where
    l2: "last tr2 = EvStatusUpdate i e2" and t: "instance_IsTrue i (ReadyCondition example_conditions)"
    unfolding tr2 by (cases "last tr2") auto
  have "log_of (reconcile_alpha two_claims) \<noteq> []"
    by code_simp
  then have "tr2 \<noteq> []"
    unfolding tr2 .
  with l2 have m2: "EvStatusUpdate i e2 \<in> set tr2"
    by (metis last_in_set)
  from Reconcile_readiness_gate[OF run2] m2 t have "\<exists>sset live.
      EvStatefulSetCreateOrPatch sset ((Result_empty, None), live) \<in> set tr2
      \<and> ss_ReadyReplicas (ss_Status live) = Replicas (Spec i)"
    by blast
  with kinds ok l l2 show ?thesis
    unfolding tr tr2 by simp
qed


subsection \<open>Conditions are initialised first and kept\<close>

lemma instance_types_initialised [simp]:
  "instance_types (initialised C K inst) = {ReadyCondition K, SwiftStorageReadyCondition C}"
  by (simp add: instance_types_def init_list_types)

lemma instance_types_resized [simp]: "instance_types (resized f inst) = instance_types inst"
  by (simp add: instance_types_def)

lemma instance_types_marked_ready [simp]:
  "instance_types (marked_ready C K inst)
     = {ReadyCondition K, SwiftStorageReadyCondition C} \<union> instance_types inst"
proof -
  have empty: "cond_types [] = {}"
    by (simp add: cond_types_def)
  show ?thesis
    by (cases "Conditions (Status inst)")
      (simp_all add: instance_types_def marked_ready_def with_Conditions_def MarkTrue_def
        Set_cond_types TrueCondition_def empty insert_commute del: Set_cond.simps)
qed

lemma conditions_marked_ready [simp]: "Conditions (Status (marked_ready C K inst)) \<noteq> None"
  by (simp add: marked_ready_def with_Conditions_def)

lemma conditions_marked_ready_Some [simp]:
  "\<exists>y. Conditions (Status (marked_ready C K inst)) = Some y"
  by (simp add: marked_ready_def with_Conditions_def)

lemma conditions_resized [simp]:
  "Conditions (Status (resized f inst)) = Conditions (Status inst)"
  by simp

lemma loaded_instance_conditions:
  "Conditions (Status (loaded_instance C K inst)) \<noteq> None"
  "instance_types inst \<subseteq> instance_types (loaded_instance C K inst)"
  "Conditions (Status inst) = None \<Longrightarrow>
     instance_types (loaded_instance C K inst) = {ReadyCondition K, SwiftStorageReadyCondition C}"
  by (simp_all add: loaded_instance_def init_list_types instance_types_def split: option.splits)

lemma workload_written:
  assumes "workload_log P C K inst ls cr out d"
    and "EvStatusUpdate i e \<in> set d \<or> EvUpdate i e \<in> set d"
  shows "(\<exists>f. i = resized f inst) \<or> i = marked_ready C K inst
       \<or> (\<exists>f. i = marked_ready C K (resized f inst))"
proof -
  have su: "j = marked_ready C K k" if "apply_log P C K k ls out A" "EvStatusUpdate j e \<in> set A" for j k A
    using apply_facts(4)[OF that] by simp
  have nu: "EvUpdate j e \<notin> set A" if "apply_log P C K k ls out A" for j k A
    using apply_no_lookup[OF that, of "EvUpdate j e"] by auto
  from assms(1) show ?thesis
    by (cases rule: workload_cases) (use assms(2) in \<open>auto dest: su nu\<close>)
qed

text \<open>
  C8. Let the run load the instance \<open>inst\<close>. If \<open>inst\<close> has no condition list, the call after
  the \<^verbatim>\<open>Get\<close> is a status update of \<open>inst\<close> with a condition list that holds the generic
  ready condition and the storage ready condition, every entry unknown; if the update
  fails, the run ends there with its error. Every instance that the run writes, by a
  status update or by an update, has a condition list; it holds every condition type
  that \<open>inst\<close> came with, and both ready conditions if \<open>inst\<close> came without a list.
\<close>

theorem Reconcile_conditions_kept:
  assumes run: "Reconcile P C K req (w, []) = (out, (w', tr))"
    and loaded: "tr = EvGet req (Inr inst) # rest"
  shows "(Conditions (Status inst) = None \<longrightarrow>
            (\<exists>cs e rest'.
                rest = EvStatusUpdate (inst\<lparr>Status := (Status inst)\<lparr>Conditions := Some cs\<rparr>\<rparr>) e # rest'
              \<and> cond_types cs = {ReadyCondition K, SwiftStorageReadyCondition C}
              \<and> (\<forall>c\<in>set cs. cond_Status c = ConditionUnknown)
              \<and> (e \<noteq> None \<longrightarrow> rest' = [] \<and> out = Return Result_empty e)))
       \<and> (\<forall>i e. EvStatusUpdate i e \<in> set tr \<or> EvUpdate i e \<in> set tr \<longrightarrow>
             Conditions (Status i) \<noteq> None
           \<and> instance_types inst \<subseteq> instance_types i
           \<and> (Conditions (Status inst) = None \<longrightarrow>
                {ReadyCondition K, SwiftStorageReadyCondition C} \<subseteq> instance_types i))"
proof -
  note L = Reconcile_sound[OF run]
  have A: "\<exists>cs e rest'.
                rest = EvStatusUpdate (inst\<lparr>Status := (Status inst)\<lparr>Conditions := Some cs\<rparr>\<rparr>) e # rest'
              \<and> cond_types cs = {ReadyCondition K, SwiftStorageReadyCondition C}
              \<and> (\<forall>c\<in>set cs. cond_Status c = ConditionUnknown)
              \<and> (e \<noteq> None \<longrightarrow> rest' = [] \<and> out = Return Result_empty e)"
    if nil: "Conditions (Status inst) = None"
  proof -
    from L loaded nil consider
      (failed) err where "rest = [EvStatusUpdate (initialised C K inst) (Some err)]"
         "out = Return Result_empty (Some err)"
    | (ok) d where "rest = EvStatusUpdate (initialised C K inst) None # d"
      by (cases rule: Reconcile_log_cases) auto
    then show ?thesis
    proof cases
      case failed
      then show ?thesis
        using init_list_types[of C K] init_list_unknown[of C K] unfolding initialised_def
        by (intro exI[of _ "init_list C K"] exI[of _ "Some err"] exI[of _ "[]"]) simp
    next
      case ok
      then show ?thesis
        using init_list_types[of C K] init_list_unknown[of C K] unfolding initialised_def
        by (intro exI[of _ "init_list C K"] exI[of _ None] exI[of _ d]) simp
    qed
  qed
  have B: "Conditions (Status i) \<noteq> None
           \<and> instance_types inst \<subseteq> instance_types i
           \<and> (Conditions (Status inst) = None \<longrightarrow>
                {ReadyCondition K, SwiftStorageReadyCondition C} \<subseteq> instance_types i)"
    if wr: "EvStatusUpdate i e \<in> set tr \<or> EvUpdate i e \<in> set tr" for i e
  proof (cases "\<exists>x\<in>set tr. late_event x")
    case False
    with wr have su: "EvStatusUpdate i e \<in> set tr"
      by (auto simp: late_event_def)
    with Reconcile_early[OF L False] obtain inst0 where
      i: "hd tr = EvGet req (Inr inst0)" "i = initialised C K inst0" "Conditions (Status inst0) = None"
      by blast
    from loaded i(1) have "inst0 = inst"
      by simp
    with i show ?thesis
      by (simp add: instance_types_def init_list_types)
  next
    case True
    then obtain x where "x \<in> set tr" "late_event x" by blast
    from late_run[OF run this] obtain inst' d where
      tr: "tr = early_events C K req inst' @ d"
      and wl: "workload_log P C K (loaded_instance C K inst') (GetLabelsStorage C) Result_empty out d"
      by blast
    from loaded tr have "inst' = inst"
      by (simp add: early_events_def)
    note tr = tr[unfolded this] and wl = wl[unfolded this]
    from wr consider (early) "EvStatusUpdate i e \<in> set (early_events C K req inst)"
      | (late) "EvStatusUpdate i e \<in> set d \<or> EvUpdate i e \<in> set d"
      unfolding tr by (auto simp: early_events_def split: if_splits)
    then show ?thesis
    proof cases
      case early
      from early_events_SU[OF this] show ?thesis
        by (simp add: instance_types_def init_list_types)
    next
      case late
      from workload_written[OF wl late] loaded_instance_conditions[where C=C and K=K and inst=inst]
      show ?thesis by auto
    qed
  qed
  from A B show ?thesis by blast
qed

text \<open>
  The cluster with both claims: the instance comes without conditions.
\<close>

theorem Reconcile_conditions_kept_witness:
  "Conditions (Status (alpha 2)) = None
   \<and> map kind_of (take 2 (log_of (reconcile_alpha two_claims))) = [KGet, KStatusUpdate]
   \<and> outcome_of (reconcile_alpha two_claims) = Return Result_empty None
   \<and> last (log_of (reconcile_alpha two_claims))
       = EvStatusUpdate
           (marked_ready example_consts example_conditions
              (initialised example_consts example_conditions (alpha 2))) None
   \<and> {ReadyCondition example_conditions, SwiftStorageReadyCondition example_consts}
       \<subseteq> instance_types
           (marked_ready example_consts example_conditions
              (initialised example_consts example_conditions (alpha 2)))"
proof -
  let ?written = "marked_ready example_consts example_conditions
                    (initialised example_consts example_conditions (alpha 2))"
  obtain out w' tr where
    run: "Reconcile cluster_platform example_consts example_conditions alpha_key (two_claims, [])
            = (out, (w', tr))"
    and out: "outcome_of (reconcile_alpha two_claims) = out"
    and tr: "log_of (reconcile_alpha two_claims) = tr"
    by (rule reconcile_alpha_run)
  have loaded: "log_of (reconcile_alpha two_claims)
                  = EvGet alpha_key (Inr (alpha 2)) # tl (log_of (reconcile_alpha two_claims))"
    by code_simp
  have ok: "outcome_of (reconcile_alpha two_claims) = Return Result_empty None"
    by code_simp
  have final: "last (log_of (reconcile_alpha two_claims)) = EvStatusUpdate ?written None"
    by code_simp
  have nil: "Conditions (Status (alpha 2)) = None"
    by (simp add: alpha_def)
  note kept = Reconcile_conditions_kept[OF run loaded[unfolded tr]]
  from kept nil
  obtain cs e rest' where "tl tr = EvStatusUpdate
      ((alpha 2)\<lparr>Status := (Status (alpha 2))\<lparr>Conditions := Some cs\<rparr>\<rparr>) e # rest'"
    by blast
  with loaded[unfolded tr] have first: "map kind_of (take 2 tr) = [KGet, KStatusUpdate]"
    by (cases tr) auto
  from loaded[unfolded tr] have "tr \<noteq> []"
    by auto
  with final[unfolded tr] have "EvStatusUpdate ?written None \<in> set tr"
    by (metis last_in_set)
  with kept nil have
    "{ReadyCondition example_conditions, SwiftStorageReadyCondition example_consts}
       \<subseteq> instance_types ?written"
    by blast
  with first nil ok final show ?thesis
    unfolding tr by simp
qed


subsection \<open>The replica count of an existing workload\<close>

lemma workload_guard:
  assumes wl: "workload_log P C K inst ls cr out d"
    and found: "EvGetStatefulSet key (Inr found) \<in> set d" "ss_Replicas (ss_Spec found) = Some f"
  shows "key = (Namespace inst, Name inst)"
    and "\<forall>sset a. EvStatefulSetCreateOrPatch sset a \<in> set d \<longrightarrow>
           ss_Replicas (ss_Spec sset)
             = Some (if sint (Replicas (Spec inst)) < sint f then f else Replicas (Spec inst))"
    and "sint (Replicas (Spec inst)) < sint f \<longrightarrow>
           (\<exists>e. EvUpdate (resized f inst) e \<in> set d)
         \<and> (\<forall>i e. EvUpdate i e \<in> set d \<longrightarrow>
               i = resized f inst \<and> (e \<noteq> None \<longrightarrow> last d = EvUpdate i e \<and> out = Return Result_empty e))
         \<and> ((\<exists>x\<in>set d. is_apply x) \<longrightarrow> happens_before (persisted_replicas f) is_apply d)"
    and "\<not> sint (Replicas (Spec inst)) < sint f \<longrightarrow> (\<forall>x\<in>set d. kind_of x \<noteq> KUpdate)"
proof -
  have nl: "EvGetStatefulSet key (Inr found) \<notin> set A" if "apply_log P C K i ls out A" for i A
    using apply_no_lookup[OF that, of "EvGetStatefulSet key (Inr found)"] by auto
  have nu: "EvUpdate i e \<notin> set A" if "apply_log P C K j ls out A" for i j e A
    using apply_no_lookup[OF that, of "EvUpdate i e"] by auto
  have nk: "\<forall>x\<in>set A. kind_of x \<noteq> KUpdate" if "apply_log P C K j ls out A" for j A
    using apply_no_lookup[OF that] by auto
  have rp: "ss_Replicas (ss_Spec sset) = Some (Replicas (Spec j))"
    if "apply_log P C K j ls out A" "EvStatefulSetCreateOrPatch sset a \<in> set A" for j A sset a
    using apply_facts(2)[OF that] by simp
  from wl show "key = (Namespace inst, Name inst)"
    by (cases rule: workload_cases) (use found nl in auto)
  from wl show "\<forall>sset a. EvStatefulSetCreateOrPatch sset a \<in> set d \<longrightarrow>
           ss_Replicas (ss_Spec sset)
             = Some (if sint (Replicas (Spec inst)) < sint f then f else Replicas (Spec inst))"
    by (cases rule: workload_cases) (use found nl rp in auto)
  from wl show "sint (Replicas (Spec inst)) < sint f \<longrightarrow>
           (\<exists>e. EvUpdate (resized f inst) e \<in> set d)
         \<and> (\<forall>i e. EvUpdate i e \<in> set d \<longrightarrow>
               i = resized f inst \<and> (e \<noteq> None \<longrightarrow> last d = EvUpdate i e \<and> out = Return Result_empty e))
         \<and> ((\<exists>x\<in>set d. is_apply x) \<longrightarrow> happens_before (persisted_replicas f) is_apply d)"
    by (cases rule: workload_cases)
       (use found nl nu in \<open>auto simp: happens_before_def is_apply_def\<close>)
  from wl show "\<not> sint (Replicas (Spec inst)) < sint f \<longrightarrow> (\<forall>x\<in>set d. kind_of x \<noteq> KUpdate)"
    by (cases rule: workload_cases) (use found nl nk in auto)
qed

lemma Reconcile_guard:
  assumes run: "Reconcile P C K req (w, []) = (out, (w', tr))"
    and loaded: "hd tr = EvGet req (Inr inst)"
    and found: "EvGetStatefulSet key (Inr found) \<in> set tr" "ss_Replicas (ss_Spec found) = Some f"
  shows "key = (Namespace inst, Name inst)
       \<and> (\<forall>sset a. EvStatefulSetCreateOrPatch sset a \<in> set tr \<longrightarrow>
            (\<exists>n. ss_Replicas (ss_Spec sset) = Some n \<and> sint f \<le> sint n
               \<and> n = (if sint (Replicas (Spec inst)) < sint f then f else Replicas (Spec inst))))
       \<and> (sint (Replicas (Spec inst)) < sint f \<longrightarrow>
            (\<exists>x\<in>set tr. kind_of x = KUpdate)
          \<and> (\<forall>i e. EvUpdate i e \<in> set tr \<longrightarrow>
                Spec i = (Spec inst)\<lparr>Replicas := f\<rparr> \<and> Name i = Name inst
              \<and> Namespace i = Namespace inst
              \<and> (e \<noteq> None \<longrightarrow> last tr = EvUpdate i e \<and> out = Return Result_empty e))
          \<and> ((\<exists>x\<in>set tr. is_apply x) \<longrightarrow> happens_before (persisted_replicas f) is_apply tr))
       \<and> (\<not> sint (Replicas (Spec inst)) < sint f \<longrightarrow> (\<forall>x\<in>set tr. kind_of x \<noteq> KUpdate))"
proof -
  have "late_event (EvGetStatefulSet key (Inr found))"
    by (simp add: late_event_def)
  from late_run[OF run found(1) this] obtain inst' d where
    tr: "tr = early_events C K req inst' @ d"
    and wl: "workload_log P C K (loaded_instance C K inst') (GetLabelsStorage C) Result_empty out d"
    and m: "EvGetStatefulSet key (Inr found) \<in> set d"
    by blast
  from loaded tr have "inst' = inst"
    by (simp add: early_events_def)
  note tr = tr[unfolded this] and wl = wl[unfolded this]
  note g = workload_guard[OF wl m found(2), simplified]
  have d: "d \<noteq> []" by (rule workload_nonempty[OF wl])
  have e1: "x \<in> set (early_events C K req inst) \<Longrightarrow>
              kind_of x \<noteq> KUpdate \<and> kind_of x \<noteq> KStatefulSetCreateOrPatch" for x
    by (auto simp: early_events_def split: if_splits)
  have e2: "EvStatefulSetCreateOrPatch sset a \<notin> set (early_events C K req inst)" for sset a
    using e1 by fastforce
  have e3: "EvUpdate i e \<notin> set (early_events C K req inst)" for i e
    using e1 by fastforce
  have e4: "\<forall>x\<in>set (early_events C K req inst). \<not> is_apply x"
    using e1 by (auto simp: is_apply_def)
  have A: "key = (Namespace inst, Name inst)"
    using g(1) by simp
  have B: "\<exists>n. ss_Replicas (ss_Spec sset) = Some n \<and> sint f \<le> sint n
               \<and> n = (if sint (Replicas (Spec inst)) < sint f then f else Replicas (Spec inst))"
    if "EvStatefulSetCreateOrPatch sset a \<in> set tr" for sset a
  proof -
    from that e2 have "EvStatefulSetCreateOrPatch sset a \<in> set d"
      unfolding tr by auto
    with workload_guard(2)[OF wl m found(2)] have
      "ss_Replicas (ss_Spec sset)
         = Some (if sint (Replicas (Spec (loaded_instance C K inst))) < sint f then f
                 else Replicas (Spec (loaded_instance C K inst)))"
      by blast
    then show ?thesis by simp
  qed
  have Cc: "(\<exists>x\<in>set tr. kind_of x = KUpdate)
          \<and> (\<forall>i e. EvUpdate i e \<in> set tr \<longrightarrow>
                Spec i = (Spec inst)\<lparr>Replicas := f\<rparr> \<and> Name i = Name inst
              \<and> Namespace i = Namespace inst
              \<and> (e \<noteq> None \<longrightarrow> last tr = EvUpdate i e \<and> out = Return Result_empty e))
          \<and> ((\<exists>x\<in>set tr. is_apply x) \<longrightarrow> happens_before (persisted_replicas f) is_apply tr)"
    if lt: "sint (Replicas (Spec inst)) < sint f"
  proof -
    from g(3) lt obtain e0 where
      u: "EvUpdate (resized f (loaded_instance C K inst)) e0 \<in> set d"
      and all: "\<forall>i e. EvUpdate i e \<in> set d \<longrightarrow>
               i = resized f (loaded_instance C K inst)
               \<and> (e \<noteq> None \<longrightarrow> last d = EvUpdate i e \<and> out = Return Result_empty e)"
      and hb: "(\<exists>x\<in>set d. is_apply x) \<longrightarrow> happens_before (persisted_replicas f) is_apply d"
      by blast
    from u have "\<exists>x\<in>set tr. kind_of x = KUpdate"
      unfolding tr by force
    moreover have "Spec i = (Spec inst)\<lparr>Replicas := f\<rparr> \<and> Name i = Name inst
              \<and> Namespace i = Namespace inst
              \<and> (e \<noteq> None \<longrightarrow> last tr = EvUpdate i e \<and> out = Return Result_empty e)"
      if "EvUpdate i e \<in> set tr" for i e
    proof -
      from that e3 have "EvUpdate i e \<in> set d" unfolding tr by auto
      with all have "i = resized f (loaded_instance C K inst)"
        "e \<noteq> None \<longrightarrow> last d = EvUpdate i e \<and> out = Return Result_empty e"
        by blast+
      with d show ?thesis unfolding tr by simp
    qed
    moreover have "happens_before (persisted_replicas f) is_apply tr" if "\<exists>x\<in>set tr. is_apply x"
    proof -
      from that e4 have "\<exists>x\<in>set d. is_apply x" unfolding tr by auto
      with hb have "happens_before (persisted_replicas f) is_apply d" by simp
      from happens_before_append[OF this e4] show ?thesis unfolding tr .
    qed
    ultimately show ?thesis by blast
  qed
  have D: "\<forall>x\<in>set tr. kind_of x \<noteq> KUpdate" if "\<not> sint (Replicas (Spec inst)) < sint f"
    using g(4) that e1 unfolding tr by auto
  from A B Cc D show ?thesis by blast
qed

lemma applied_replicas_mem:
  "n \<in> set (concat (map applied_replicas tr)) \<longleftrightarrow>
     (\<exists>sset a. EvStatefulSetCreateOrPatch sset a \<in> set tr \<and> ss_Replicas (ss_Spec sset) = Some n)"
proof -
  have one: "n \<in> set (applied_replicas x) \<longleftrightarrow>
      (\<exists>sset a. x = EvStatefulSetCreateOrPatch sset a \<and> ss_Replicas (ss_Spec sset) = Some n)" for x
    by (cases x) (auto split: option.splits)
  have "n \<in> set (concat (map applied_replicas tr)) \<longleftrightarrow> (\<exists>x\<in>set tr. n \<in> set (applied_replicas x))"
    by simp
  also have "\<dots> \<longleftrightarrow> (\<exists>sset a. EvStatefulSetCreateOrPatch sset a \<in> set tr
                          \<and> ss_Replicas (ss_Spec sset) = Some n)"
    unfolding one by blast
  finally show ?thesis .
qed

lemma Reconcile_step:
  assumes run: "Reconcile P C K req (w, []) = (out, (w', tr))"
    and obs: "list_all (observes f) tr"
    and app: "n \<in> set (concat (map applied_replicas tr))"
  shows "sint f \<le> sint n"
proof -
  from app obtain sset a where
    m: "EvStatefulSetCreateOrPatch sset a \<in> set tr" and n: "ss_Replicas (ss_Spec sset) = Some n"
    unfolding applied_replicas_mem by blast
  have "late_event (EvStatefulSetCreateOrPatch sset a)"
    by (simp add: late_event_def)
  from late_run[OF run m this] obtain inst d where
    tr: "tr = early_events C K req inst @ d"
    and wl: "workload_log P C K (loaded_instance C K inst) (GetLabelsStorage C) Result_empty out d"
    and md: "EvStatefulSetCreateOrPatch sset a \<in> set d"
    by blast
  from obs have od: "\<forall>x\<in>set d. observes f x"
    unfolding tr by (simp add: list_all_iff)
  from wl have "\<exists>key found. EvGetStatefulSet key (Inr found) \<in> set d
                  \<and> ss_Replicas (ss_Spec found) = Some f"
  proof (cases rule: workload_cases)
    case (absent err A)
    with od show ?thesis by simp
  next
    case (kept found f A)
    with od show ?thesis by auto
  next
    case (resized found f A)
    with od show ?thesis by auto
  qed (use md in auto)
  then obtain key found where
    fd: "EvGetStatefulSet key (Inr found) \<in> set d" "ss_Replicas (ss_Spec found) = Some f"
    by blast
  from workload_guard(2)[OF wl fd, rule_format, OF md] n
  have "n = (if sint (Replicas (Spec (loaded_instance C K inst))) < sint f then f
             else Replicas (Spec (loaded_instance C K inst)))"
    by simp
  then show ?thesis
    by (simp split: if_splits)
qed

lemma evolves_Nil: "evolves ns [] \<longleftrightarrow> (\<exists>n. ns = [n])"
proof (cases ns)
  case Nil
  then show ?thesis by simp
next
  case (Cons n rest)
  then show ?thesis by (cases rest) simp_all
qed

lemma evolves_Cons:
  "evolves ns (tr # trs) \<longleftrightarrow>
     (\<exists>n n' rest. ns = n # n' # rest \<and> list_all (observes n) tr
        \<and> (n' = n \<or> n' \<in> set (concat (map applied_replicas tr)))
        \<and> evolves (n' # rest) trs)"
proof (cases ns)
  case Nil
  then show ?thesis by simp
next
  case (Cons n rest)
  then show ?thesis by (cases rest) simp_all
qed

lemma Reconcile_sequence:
  assumes "evolves ns (map (\<lambda>(req, w). log_of (Reconcile P C K req (w, []))) starts)"
  shows "sorted (map sint ns)"
  using assms
proof (induction starts arbitrary: ns)
  case Nil
  then have "\<exists>n. ns = [n]"
    by (simp add: evolves_Nil)
  then show ?case
    by auto
next
  case (Cons st starts)
  obtain req w where st: "st = (req, w)" by (cases st)
  obtain out w' tr where run: "Reconcile P C K req (w, []) = (out, (w', tr))"
    by (metis prod_cases3)
  from Cons.prems obtain n n' rest where
    ns: "ns = n # n' # rest"
    and obs: "list_all (observes n) tr"
    and nxt: "n' = n \<or> n' \<in> set (concat (map applied_replicas tr))"
    and ev: "evolves (n' # rest) (map (\<lambda>(req, w). log_of (Reconcile P C K req (w, []))) starts)"
    unfolding st by (auto simp: run log_of_def evolves_Cons)
  from nxt Reconcile_step[OF run obs] have "sint n \<le> sint n'"
    by auto
  with Cons.IH[OF ev] show ?case
    unfolding ns by auto
qed

lemma Reconcile_lookup_before_apply:
  assumes run: "Reconcile P C K req (w, []) = (out, (w', tr))"
    and app: "\<exists>x\<in>set tr. is_apply x"
  shows "happens_before (\<lambda>e. kind_of e = KGetStatefulSet) is_apply tr"
proof -
  from app obtain x where x: "x \<in> set tr" "is_apply x"
    by blast
  then have "late_event x"
    by (simp add: late_event_def is_apply_def)
  from late_run[OF run x(1) this] obtain inst d where
    tr: "tr = early_events C K req inst @ d"
    and wl: "workload_log P C K (loaded_instance C K inst) (GetLabelsStorage C) Result_empty out d"
    and xd: "x \<in> set d"
    by blast
  have early: "\<forall>x\<in>set (early_events C K req inst). \<not> is_apply x"
    by (auto simp: early_events_def is_apply_def split: if_splits)
  have na: "\<not> is_apply y" if "apply_log P C K i ls out A" "y \<in> set A" "kind_of y = KGetStatefulSet" for i ls A y
    using that by (simp add: is_apply_def)
  from wl have "happens_before (\<lambda>e. kind_of e = KGetStatefulSet) is_apply d"
    by (cases rule: workload_cases) (auto simp: happens_before_def is_apply_def)
  from happens_before_append[OF this early] show ?thesis
    unfolding tr .
qed

text \<open>
  C1. One reconciliation: let the run load the instance \<open>inst\<close> and let its lookup of the
  workload find a StatefulSet with \<open>f\<close> replicas. The lookup is by the namespace and name of
  the instance. Every application of the workload in the run applies
  \<open>max f (Replicas inst)\<close> replicas, which is at least \<open>f\<close>. If fewer than \<open>f\<close> replicas are
  requested, the run calls \<^verbatim>\<open>Update\<close> with the instance whose replica count is set to \<open>f\<close>;
  if that fails the run ends with the error, and if the workload is applied then a
  successful \<^verbatim>\<open>Update\<close> that stores \<open>f\<close> lies before the application. Otherwise there is no
  \<^verbatim>\<open>Update\<close>.

  No application without the lookup: in every run that applies the workload, a lookup of
  the workload lies before the application.

  Sequences: take reconciliations that start in any states of the platform, and replica
  counts that evolve along their logs (every lookup of the workload finds the current
  count, and the count changes only to one that the reconciliation applied). Then the
  counts never decrease.
\<close>

theorem Reconcile_replicas_never_lowered:
  "(Reconcile P C K req (w, []) = (out, (w', tr)) \<and> hd tr = EvGet req (Inr inst)
      \<and> EvGetStatefulSet key (Inr found) \<in> set tr \<and> ss_Replicas (ss_Spec found) = Some f
    \<longrightarrow>
      key = (Namespace inst, Name inst)
    \<and> (\<forall>sset a. EvStatefulSetCreateOrPatch sset a \<in> set tr \<longrightarrow>
          (\<exists>n. ss_Replicas (ss_Spec sset) = Some n \<and> sint f \<le> sint n
             \<and> n = (if sint (Replicas (Spec inst)) < sint f then f else Replicas (Spec inst))))
    \<and> (sint (Replicas (Spec inst)) < sint f \<longrightarrow>
          (\<exists>x\<in>set tr. kind_of x = KUpdate)
        \<and> (\<forall>i e. EvUpdate i e \<in> set tr \<longrightarrow>
              Spec i = (Spec inst)\<lparr>Replicas := f\<rparr> \<and> Name i = Name inst
            \<and> Namespace i = Namespace inst
            \<and> (e \<noteq> None \<longrightarrow> last tr = EvUpdate i e \<and> out = Return Result_empty e))
        \<and> ((\<exists>x\<in>set tr. is_apply x) \<longrightarrow> happens_before (persisted_replicas f) is_apply tr))
    \<and> (\<not> sint (Replicas (Spec inst)) < sint f \<longrightarrow> (\<forall>x\<in>set tr. kind_of x \<noteq> KUpdate)))
   \<and> (Reconcile P C K req (w, []) = (out, (w', tr)) \<and> (\<exists>x\<in>set tr. is_apply x)
        \<longrightarrow> happens_before (\<lambda>e. kind_of e = KGetStatefulSet) is_apply tr)
   \<and> (evolves ns (map (\<lambda>(req, w). log_of (Reconcile P C K req (w, []))) starts)
        \<longrightarrow> sorted (map sint ns))"
proof -
  have G: "key = (Namespace inst, Name inst)
    \<and> (\<forall>sset a. EvStatefulSetCreateOrPatch sset a \<in> set tr \<longrightarrow>
          (\<exists>n. ss_Replicas (ss_Spec sset) = Some n \<and> sint f \<le> sint n
             \<and> n = (if sint (Replicas (Spec inst)) < sint f then f else Replicas (Spec inst))))
    \<and> (sint (Replicas (Spec inst)) < sint f \<longrightarrow>
          (\<exists>x\<in>set tr. kind_of x = KUpdate)
        \<and> (\<forall>i e. EvUpdate i e \<in> set tr \<longrightarrow>
              Spec i = (Spec inst)\<lparr>Replicas := f\<rparr> \<and> Name i = Name inst
            \<and> Namespace i = Namespace inst
            \<and> (e \<noteq> None \<longrightarrow> last tr = EvUpdate i e \<and> out = Return Result_empty e))
        \<and> ((\<exists>x\<in>set tr. is_apply x) \<longrightarrow> happens_before (persisted_replicas f) is_apply tr))
    \<and> (\<not> sint (Replicas (Spec inst)) < sint f \<longrightarrow> (\<forall>x\<in>set tr. kind_of x \<noteq> KUpdate))"
    if "Reconcile P C K req (w, []) = (out, (w', tr)) \<and> hd tr = EvGet req (Inr inst)
      \<and> EvGetStatefulSet key (Inr found) \<in> set tr \<and> ss_Replicas (ss_Spec found) = Some f"
  proof -
    from that have a: "Reconcile P C K req (w, []) = (out, (w', tr))" "hd tr = EvGet req (Inr inst)"
      "EvGetStatefulSet key (Inr found) \<in> set tr" "ss_Replicas (ss_Spec found) = Some f"
      by simp_all
    show ?thesis
      by (rule Reconcile_guard[OF a])
  qed
  have L: "happens_before (\<lambda>e. kind_of e = KGetStatefulSet) is_apply tr"
    if "Reconcile P C K req (w, []) = (out, (w', tr)) \<and> (\<exists>x\<in>set tr. is_apply x)"
  proof -
    from that have a: "Reconcile P C K req (w, []) = (out, (w', tr))" "\<exists>x\<in>set tr. is_apply x"
      by simp_all
    show ?thesis
      by (rule Reconcile_lookup_before_apply[OF a])
  qed
  have S: "sorted (map sint ns)"
    if "evolves ns (map (\<lambda>(req, w). log_of (Reconcile P C K req (w, []))) starts)"
    using that by (rule Reconcile_sequence)
  show ?thesis
    apply (rule conjI)
     apply (rule impI)
     apply (erule G)
    apply (rule conjI)
     apply (rule impI)
     apply (erule L)
    apply (rule impI)
    apply (erule S)
    done
qed

text \<open>
  A workload of three replicas with one replica requested, then with four requested.
\<close>

theorem Reconcile_replicas_never_lowered_witness:
  "hd (log_of (reconcile_alpha downsized)) = EvGet alpha_key (Inr (alpha 1))
   \<and> EvGetStatefulSet alpha_key (Inr (snd (workload 3 3))) \<in> set (log_of (reconcile_alpha downsized))
   \<and> ss_Replicas (ss_Spec (snd (workload 3 3))) = Some 3
   \<and> sint (Replicas (Spec (alpha 1))) < sint (3 :: int32)
   \<and> happens_before (persisted_replicas 3) is_apply (log_of (reconcile_alpha downsized))
   \<and> happens_before (\<lambda>e. kind_of e = KGetStatefulSet) is_apply (log_of (reconcile_alpha downsized))
   \<and> evolves [3, 3, 4]
        (map (\<lambda>(req, w). log_of (Reconcile cluster_platform example_consts example_conditions req (w, [])))
           [(alpha_key, downsized), (alpha_key, regrown)])
   \<and> sorted (map sint [3, 3, 4 :: int32])"
proof -
  obtain out w' tr where
    run: "Reconcile cluster_platform example_consts example_conditions alpha_key (downsized, [])
            = (out, (w', tr))"
    and tr: "log_of (reconcile_alpha downsized) = tr"
    by (rule reconcile_alpha_run)
  have loaded: "hd (log_of (reconcile_alpha downsized)) = EvGet alpha_key (Inr (alpha 1))"
    by code_simp
  have found: "EvGetStatefulSet alpha_key (Inr (snd (workload 3 3)))
                 \<in> set (log_of (reconcile_alpha downsized))"
    by code_simp
  have three: "ss_Replicas (ss_Spec (snd (workload 3 3))) = Some 3"
    by (simp add: workload_def)
  have less: "sint (Replicas (Spec (alpha 1))) < sint (3 :: int32)"
    by (simp add: alpha_def)
  have applies: "\<exists>x\<in>set (log_of (reconcile_alpha downsized)). is_apply x"
    by code_simp
  have history: "evolves [3, 3, 4]
        (map (\<lambda>(req, w). log_of (Reconcile cluster_platform example_consts example_conditions req (w, [])))
           [(alpha_key, downsized), (alpha_key, regrown)])"
    by code_simp
  note never = Reconcile_replicas_never_lowered
  note guard = never[THEN conjunct1, rule_format,
      of cluster_platform example_consts example_conditions alpha_key downsized out w' tr
         "alpha 1" alpha_key "snd (workload 3 3)" 3]
  from guard run loaded[unfolded tr] found[unfolded tr] three less applies[unfolded tr]
  have "happens_before (persisted_replicas 3) is_apply tr"
    by blast
  moreover from never[THEN conjunct2, THEN conjunct1, rule_format,
      of cluster_platform example_consts example_conditions alpha_key downsized out w' tr]
    run applies[unfolded tr]
  have "happens_before (\<lambda>e. kind_of e = KGetStatefulSet) is_apply tr"
    by blast
  moreover from never[THEN conjunct2, THEN conjunct2, rule_format, OF history]
  have "sorted (map sint [3, 3, 4 :: int32])" .
  ultimately show ?thesis
    using loaded found three less history unfolding tr by simp
qed


end
